theory Spec2Isabelle
  imports Main "HOL-Library.Word" "HOL-Library.Char_ord" "HOL-Library.List_Lexorder"
begin

unbundle bit_operations_syntax

section \<open>Strings of the source language\<close>

text \<open>
  A string of the program is a list of UTF-16 code units, each a natural number, so that
  \<^const>\<open>length\<close> is the \<^verbatim>\<open>length\<close> of the source. \<open>S\<close> turns a literal of the
  theory into such a string. The helpers of this section stand for the string methods
  and the regular expressions that \<^verbatim>\<open>chat.ts\<close> applies.
\<close>

type_synonym jstring = "nat list"

abbreviation S :: "string \<Rightarrow> jstring" where
  "S s \<equiv> map (of_char :: char \<Rightarrow> nat) s"

definition LF :: nat where "LF = 0x0A"
definition CR :: nat where "CR = 0x0D"

text \<open>The class \<^verbatim>\<open>[A-Za-z0-9+/=]\<close>.\<close>

definition isB64 :: "nat \<Rightarrow> bool" where
  "isB64 c = ((0x41 \<le> c \<and> c \<le> 0x5A) \<or> (0x61 \<le> c \<and> c \<le> 0x7A) \<or> (0x30 \<le> c \<and> c \<le> 0x39)
     \<or> c = 0x2B \<or> c = 0x2F \<or> c = 0x3D)"

text \<open>The regular expression dot: every code unit but a line terminator.\<close>

definition isDot :: "nat \<Rightarrow> bool" where
  "isDot c = (c \<noteq> LF \<and> c \<noteq> CR \<and> c \<noteq> 0x2028 \<and> c \<noteq> 0x2029)"

text \<open>White space and line terminators as \<^verbatim>\<open>String.prototype.trim\<close> strips them.\<close>

definition isWhite :: "nat \<Rightarrow> bool" where
  "isWhite c = ((0x09 \<le> c \<and> c \<le> 0x0D) \<or> c = 0x20 \<or> c = 0xA0 \<or> c = 0x1680
     \<or> (0x2000 \<le> c \<and> c \<le> 0x200A) \<or> c = 0x2028 \<or> c = 0x2029 \<or> c = 0x202F
     \<or> c = 0x205F \<or> c = 0x3000 \<or> c = 0xFEFF)"

definition trim :: "jstring \<Rightarrow> jstring" where
  "trim s = rev (dropWhile isWhite (rev (dropWhile isWhite s)))"

definition startsWith :: "jstring \<Rightarrow> jstring \<Rightarrow> bool" where
  "startsWith s p = (take (length p) s = p)"

text \<open>\<^verbatim>\<open>s.indexOf(p) != -1\<close>.\<close>

fun includesStr :: "jstring \<Rightarrow> jstring \<Rightarrow> bool" where
  "includesStr [] p = (p = [])"
| "includesStr (c # cs) p = (startsWith (c # cs) p \<or> includesStr cs p)"

text \<open>\<^verbatim>\<open>s.replace(p, r)\<close> with a string pattern: the first occurrence only.\<close>

fun replaceFirst :: "jstring \<Rightarrow> jstring \<Rightarrow> jstring \<Rightarrow> jstring" where
  "replaceFirst [] p r = (if p = [] then r else [])"
| "replaceFirst (c # cs) p r =
     (if startsWith (c # cs) p then r @ drop (length p) (c # cs)
      else c # replaceFirst cs p r)"

text \<open>\<^verbatim>\<open>xs.join(sep)\<close>.\<close>

fun joinWith :: "jstring \<Rightarrow> jstring list \<Rightarrow> jstring" where
  "joinWith sep [] = []"
| "joinWith sep [x] = x"
| "joinWith sep (x # y # ys) = x @ sep @ joinWith sep (y # ys)"

text \<open>\<^verbatim>\<open>s.split(/\r?\n/)\<close>: a carriage return directly before a line feed belongs to the separator.\<close>

fun splitLines :: "jstring \<Rightarrow> jstring list" where
  "splitLines [] = [[]]"
| "splitLines (c # cs) =
     (if c = LF then [] # splitLines cs
      else if c = CR \<and> take 1 cs = [LF] then splitLines cs
      else (case splitLines cs of [] \<Rightarrow> [[c]] | l # ls \<Rightarrow> (c # l) # ls))"

text \<open>
  \<^verbatim>\<open>s.replace(re, "")\<close> for a global regular expression. The matcher \<open>m\<close> gives, for
  the text that starts at the current position, the length of the match that starts
  there, if any; the scan goes on behind a match and one code unit further otherwise.
\<close>

fun replaceAll :: "(jstring \<Rightarrow> nat option) \<Rightarrow> jstring \<Rightarrow> jstring" where
  "replaceAll m [] = []"
| "replaceAll m (c # cs) =
     (case m (c # cs) of
        None \<Rightarrow> c # replaceAll m cs
      | Some 0 \<Rightarrow> c # replaceAll m cs
      | Some (Suc n) \<Rightarrow> replaceAll m (drop n cs))"

text \<open>
  \<^verbatim>\<open>/data:[^;]+;base64,/\<close> at the head of \<open>s\<close>: the run after the colon cannot cross
  a semicolon, so it is the whole run up to the first one.
\<close>

definition matchDataUriPrefix :: "jstring \<Rightarrow> nat option" where
  "matchDataUriPrefix s =
     (if startsWith s (S ''data:'') then
        (let run = takeWhile (\<lambda>c. c \<noteq> 0x3B) (drop 5 s);
             rest = drop (length run) (drop 5 s)
         in if run \<noteq> [] \<and> startsWith rest (S '';base64,'') then Some (5 + length run + 8) else None)
      else None)"

text \<open>\<^verbatim>\<open>/data:[^;]+;base64,[A-Za-z0-9+/=]+/\<close>: at least one code unit of payload.\<close>

definition matchDataUri :: "jstring \<Rightarrow> nat option" where
  "matchDataUri s =
     (case matchDataUriPrefix s of
        None \<Rightarrow> None
      | Some n \<Rightarrow>
          (let run = takeWhile isB64 (drop n s)
           in if run = [] then None else Some (n + length run)))"

text \<open>\<^verbatim>\<open>/[A-Za-z0-9+/=]{500,}/\<close>: greedy, so a match is a whole run.\<close>

definition matchLongB64 :: "jstring \<Rightarrow> nat option" where
  "matchLongB64 s =
     (let run = takeWhile isB64 s in if 500 \<le> length run then Some (length run) else None)"

fun indexOfStr :: "jstring \<Rightarrow> jstring \<Rightarrow> nat option" where
  "indexOfStr [] p = (if p = [] then Some 0 else None)"
| "indexOfStr (c # cs) p =
     (if startsWith (c # cs) p then Some 0 else map_option Suc (indexOfStr cs p))"

fun lastIndexOfChar :: "jstring \<Rightarrow> nat \<Rightarrow> nat option" where
  "lastIndexOfChar [] x = None"
| "lastIndexOfChar (c # cs) x =
     (case lastIndexOfChar cs x of
        Some i \<Rightarrow> Some (Suc i)
      | None \<Rightarrow> if c = x then Some 0 else None)"

text \<open>
  \<^verbatim>\<open>/\!\[.+\]\(.+\)/\<close> at the head of \<open>s\<close>. Both dots are greedy and stay on one
  line: a match runs from the opening \<^verbatim>\<open>![\<close> to the last closing parenthesis of the
  line, and exists when some \<^verbatim>\<open>](\<close> stands at least one code unit behind the opening
  and at least one code unit before that parenthesis.
\<close>

definition matchMdImage :: "jstring \<Rightarrow> nat option" where
  "matchMdImage s =
     (if startsWith s (S ''!['') then
        (let seg = takeWhile isDot (drop 2 s)
         in case indexOfStr (drop 1 seg) (S '']('') of
              None \<Rightarrow> None
            | Some k \<Rightarrow>
                (case lastIndexOfChar seg 0x29 of
                   None \<Rightarrow> None
                 | Some r \<Rightarrow> if k + 4 \<le> r then Some (2 + r + 1) else None))
      else None)"

text \<open>\<^verbatim>\<open>/\/mnt\/data\/.+/\<close> at the head of \<open>s\<close>: through the end of the line.\<close>

definition matchMntData :: "jstring \<Rightarrow> nat option" where
  "matchMntData s =
     (if startsWith s (S ''/mnt/data/'') then
        (let seg = takeWhile isDot (drop 10 s)
         in if seg = [] then None else Some (10 + length seg))
      else None)"


section \<open>Messages and staged assets\<close>

text \<open>
  A content part is a bare string or an object. Of an object the program reads the fields
  \<^verbatim>\<open>type\<close>, \<^verbatim>\<open>text\<close>, \<^verbatim>\<open>file_url.url\<close> and \<^verbatim>\<open>image_url\<close>. An absent
  \<^verbatim>\<open>type\<close> behaves at every test of the file like a type the program does not know,
  and an absent \<^verbatim>\<open>text\<close> like the empty one (it is always read as
  \<^verbatim>\<open>v.text || ""\<close>), so both are plain strings here.
\<close>

datatype image_url = ImgAbsent | ImgStr jstring | ImgObj "jstring option"

datatype part =
    PStr jstring
  | PObj (ptype: jstring) (ptext: jstring) (pfile_url: "jstring option") (pimage_url: image_url)

datatype content = CText jstring | CParts "part list"

record message =
  role :: jstring
  content :: content

text \<open>
  What \<^verbatim>\<open>uploadFile\<close> returns for one attachment: \<^verbatim>\<open>null\<close> is \<open>None\<close>; the
  dimensions are present for an image only.
\<close>

record asset_ref =
  ref_url :: jstring
  ref_name :: jstring
  ref_ext :: jstring
  ref_kind :: jstring
  ref_width :: "nat option"
  ref_height :: "nat option"

record attachment =
  att_name :: jstring
  att_key :: jstring
  att_width :: nat
  att_height :: nat

record payload =
  text_of :: jstring
  attachments :: "attachment list"

section \<open>The message packer\<close>

definition isTextPart :: "part \<Rightarrow> bool" where
  "isTextPart v = (case v of PStr _ \<Rightarrow> False | PObj t _ _ _ \<Rightarrow> t = (S ''text''))"

text \<open>The branch for fewer than two messages or a continued conversation (lines 570-578).\<close>

definition flattenPart :: "jstring \<Rightarrow> part \<Rightarrow> jstring" where
  "flattenPart acc v = (if \<not> isTextPart v then acc else acc @ ptext v @ [LF])"

definition flattenMessage :: "jstring \<Rightarrow> message \<Rightarrow> jstring" where
  "flattenMessage acc m =
     (case content m of
        CParts vs \<Rightarrow> foldl flattenPart acc vs
      | CText s \<Rightarrow> acc @ s @ [LF])"

definition flattenMessages :: "message list \<Rightarrow> jstring" where
  "flattenMessages ms = foldl flattenMessage [] ms"

text \<open>The test of line 583 on the latest message.\<close>

definition isFileOrImagePart :: "part \<Rightarrow> bool" where
  "isFileOrImagePart v =
     (case v of PStr _ \<Rightarrow> False | PObj t _ _ _ \<Rightarrow> t \<in> set [(S ''file''), (S ''image_url'')])"

definition hasFileOrImage :: "message \<Rightarrow> bool" where
  "hasFileOrImage m = (case content m of CParts vs \<Rightarrow> list_ex isFileOrImagePart vs | CText _ \<Rightarrow> False)"

text \<open>The thirteen code units of the literal of line 591.\<close>

definition newFileMessageText :: jstring where
  "newFileMessageText =
     [0x5173, 0x6CE8, 0x7528, 0x6237,
      0x6700, 0x65B0, 0x53D1, 0x9001, 0x6587, 0x4EF6, 0x548C, 0x6D88, 0x606F]"

definition newFileMessage :: message where
  "newFileMessage = \<lparr> role = (S ''system''), content = CText newFileMessageText \<rparr>"

text \<open>\<^verbatim>\<open>messages.splice(messages.length - 1, 0, newFileMessage)\<close>.\<close>

definition spliceBeforeLast :: "message \<Rightarrow> message list \<Rightarrow> message list" where
  "spliceBeforeLast x ms = take (length ms - 1) ms @ [x] @ drop (length ms - 1) ms"

text \<open>
  \<^verbatim>\<open>cleanTextContent\<close> (lines 606-623). \<open>isBase64\<close> is \<^verbatim>\<open>util.isBASE64\<close>, a helper
  whose source is not part of the file at hand: it is a parameter.
\<close>

definition cleanTextContent :: "(jstring \<Rightarrow> bool) \<Rightarrow> jstring \<Rightarrow> jstring" where
  "cleanTextContent isBase64 s =
     (let t = replaceAll matchDataUri s;
          t = replaceAll matchLongB64 t
      in joinWith [LF]
           (filter (\<lambda>line. \<not> (300 < length (trim line) \<and> isBase64 (trim line))) (splitLines t)))"

definition roleTag :: "jstring \<Rightarrow> jstring" where
  "roleTag r =
     replaceFirst
       (replaceFirst
          (replaceFirst r (S ''system'') (S ''<|im_start|>system''))
          (S ''assistant'') (S ''<|im_start|>assistant''))
       (S ''user'') (S ''<|im_start|>user'')"

definition mergePart :: "(jstring \<Rightarrow> bool) \<Rightarrow> jstring \<Rightarrow> jstring \<Rightarrow> part \<Rightarrow> jstring" where
  "mergePart isBase64 r acc v =
     (if \<not> isTextPart v then acc
      else acc @ (r @ [LF] @ cleanTextContent isBase64 (ptext v)) @ [LF])"

definition mergeMessage :: "(jstring \<Rightarrow> bool) \<Rightarrow> jstring \<Rightarrow> message \<Rightarrow> jstring" where
  "mergeMessage isBase64 acc m =
     (case content m of
        CParts vs \<Rightarrow> foldl (mergePart isBase64 (roleTag (role m))) acc vs
      | CText s \<Rightarrow>
          acc @ roleTag (role m) @ [LF] @ cleanTextContent isBase64 s @ [LF] @ (S ''<|im_end|>'') @ [LF])"

definition mergeMessages :: "(jstring \<Rightarrow> bool) \<Rightarrow> message list \<Rightarrow> jstring" where
  "mergeMessages isBase64 ms =
     replaceAll matchMntData (replaceAll matchMdImage (foldl (mergeMessage isBase64) [] ms))"

text \<open>
  \<^verbatim>\<open>cleanBase64\<close> (lines 688-722). Its loop removes, from the position of the last
  removal on, the next match of the data-URI prefix together with the payload run behind
  it; a removal leaves the text before it as it is, so the loop is the scan of
  \<^const>\<open>replaceAll\<close>. The line test \<^verbatim>\<open>base64Chars > trimmed.length * 0.9\<close> is written
  on integers.
\<close>

definition matchDataUriLoose :: "jstring \<Rightarrow> nat option" where
  "matchDataUriLoose s =
     (case matchDataUriPrefix s of
        None \<Rightarrow> None
      | Some n \<Rightarrow> Some (n + length (takeWhile isB64 (drop n s))))"

definition looksBase64Line :: "jstring \<Rightarrow> bool" where
  "looksBase64Line line =
     (let trimmed = trim line
      in 200 < length trimmed \<and> 9 * length trimmed < 10 * length (filter isB64 trimmed))"

definition cleanBase64 :: "jstring \<Rightarrow> jstring" where
  "cleanBase64 s =
     trim (joinWith [LF]
       (filter (\<lambda>line. \<not> looksBase64Line line) (splitLines (replaceAll matchDataUriLoose s))))"

text \<open>The staged assets that become attachments (lines 649-669).\<close>

definition truthyDim :: "nat option \<Rightarrow> bool" where
  "truthyDim d = (case d of None \<Rightarrow> False | Some n \<Rightarrow> n \<noteq> 0)"

definition isRawImageRef :: "asset_ref \<Rightarrow> bool" where
  "isRawImageRef r = (truthyDim (ref_width r) \<or> truthyDim (ref_height r))"

definition isStagedKey :: "asset_ref \<Rightarrow> bool" where
  "isStagedKey r = startsWith (ref_url r) (S ''tos-cn-i-'')"

definition dimOr1 :: "nat option \<Rightarrow> nat" where
  "dimOr1 d = (case d of None \<Rightarrow> 1 | Some n \<Rightarrow> if n = 0 then 1 else n)"

definition lastSegment :: "jstring \<Rightarrow> jstring" where
  "lastSegment s = rev (takeWhile (\<lambda>c. c \<noteq> 0x2F) (rev s))"

definition attachmentOf :: "asset_ref \<Rightarrow> attachment" where
  "attachmentOf r =
     \<lparr> att_name =
         (if ref_name r \<noteq> [] then ref_name r
          else if lastSegment (ref_url r) \<noteq> [] then lastSegment (ref_url r)
          else (S ''image.'') @ (if ref_ext r \<noteq> [] then ref_ext r else (S ''png''))),
       att_key = ref_url r,
       att_width = dimOr1 (ref_width r),
       att_height = dimOr1 (ref_height r) \<rparr>"

definition buildAttachments :: "asset_ref option list \<Rightarrow> attachment list" where
  "buildAttachments refs =
     map attachmentOf (filter isStagedKey (filter isRawImageRef (List.map_filter id refs)))"

text \<open>The text parts of the last message, joined by line feeds (lines 676-685).\<close>

definition lastText :: "message list \<Rightarrow> jstring" where
  "lastText ms =
     (if ms = [] then []
      else (case content (last ms) of
              CParts vs \<Rightarrow> joinWith [LF] (map ptext (filter isTextPart vs))
            | CText s \<Rightarrow> s))"

text \<open>
  \<^verbatim>\<open>messagesPrepare\<close>. The source changes its argument in place, so the model returns
  the message list as the call leaves it, beside the payload.
\<close>

definition messagesPrepare ::
  "(jstring \<Rightarrow> bool) \<Rightarrow> message list \<Rightarrow> asset_ref option list \<Rightarrow> bool \<Rightarrow> payload \<times> message list" where
  "messagesPrepare isBase64 messages refs isRefConv =
     (let (content, messages') =
            (if isRefConv \<or> length messages < 2 then (flattenMessages messages, messages)
             else
               (let ms = (if hasFileOrImage (last messages)
                          then spliceBeforeLast newFileMessage messages else messages)
                in (mergeMessages isBase64 ms, ms)));
          atts = buildAttachments refs;
          finalContent = (if atts \<noteq> [] then cleanBase64 (lastText messages') else cleanBase64 content)
      in (\<lparr> text_of = finalContent, attachments = atts \<rparr>, messages'))"


text \<open>
  The flattened text of a message as the specification words it: the text parts, each
  followed by a line feed, and nothing of the role.
\<close>

definition flattenedText :: "message \<Rightarrow> jstring" where
  "flattenedText m =
     (case content m of
        CText s \<Rightarrow> s @ [LF]
      | CParts vs \<Rightarrow> concat (map (\<lambda>v. ptext v @ [LF]) (filter isTextPart vs)))"

text \<open>The message list after one call of the packer for each list of staged assets in turn.\<close>

definition repack :: "(jstring \<Rightarrow> bool) \<Rightarrow> asset_ref option list list \<Rightarrow> message list \<Rightarrow> message list" where
  "repack isBase64 refss ms = foldl (\<lambda>acc refs. snd (messagesPrepare isBase64 acc refs False)) ms refss"

section \<open>Reading a text\<close>

text \<open>
  The terms in which the cleaning of a text is described. \<open>prefixFree a s\<close>: no
  data-URI prefix starts inside \<open>a\<close> when \<open>s\<close> follows it. \<open>hasBase64Line\<close>: some
  line of the text is one that \<^verbatim>\<open>cleanBase64\<close> drops. \<open>stripCR\<close>: a line without
  the carriage return that the separator \<^verbatim>\<open>\r?\n\<close> takes from its end.
\<close>

fun prefixFree :: "jstring \<Rightarrow> jstring \<Rightarrow> bool" where
  "prefixFree [] s = True"
| "prefixFree (c # cs) s = (matchDataUriPrefix (c # cs @ s) = None \<and> prefixFree cs s)"

definition hasBase64Line :: "jstring \<Rightarrow> bool" where
  "hasBase64Line s = list_ex looksBase64Line (splitLines s)"

definition stripCR :: "jstring \<Rightarrow> jstring" where
  "stripCR l = (if l \<noteq> [] \<and> last l = CR then butlast l else l)"

section \<open>The stream transcoder\<close>

subsection \<open>Bytes and their decoding\<close>

type_synonym byte = "8 word"

abbreviation B :: "string \<Rightarrow> byte list" where
  "B s \<equiv> map (of_char :: char \<Rightarrow> byte) s"

definition isCont :: "byte \<Rightarrow> bool" where
  "isCont b = (0x80 \<le> b \<and> b \<le> 0xBF)"

text \<open>The second byte that a lead byte of a three-byte or four-byte sequence admits.\<close>

definition second3 :: "byte \<Rightarrow> byte \<Rightarrow> bool" where
  "second3 b c =
     (if b = 0xE0 then 0xA0 \<le> c \<and> c \<le> 0xBF
      else if b = 0xED then 0x80 \<le> c \<and> c \<le> 0x9F
      else isCont c)"

definition second4 :: "byte \<Rightarrow> byte \<Rightarrow> bool" where
  "second4 b c =
     (if b = 0xF0 then 0x90 \<le> c \<and> c \<le> 0xBF
      else if b = 0xF4 then 0x80 \<le> c \<and> c \<le> 0x8F
      else isCont c)"

definition low6 :: "byte \<Rightarrow> nat" where
  "low6 c = unat c - 0x80"

text \<open>A code point above the basic plane is two code units.\<close>

definition codeUnits :: "nat \<Rightarrow> jstring" where
  "codeUnits cp =
     (if cp < 0x10000 then [cp]
      else [0xD800 + (cp - 0x10000) div 1024, 0xDC00 + (cp - 0x10000) mod 1024])"

definition REPLACEMENT :: nat where
  "REPLACEMENT = 0xFFFD"

text \<open>
  \<^verbatim>\<open>buffer.toString()\<close>: UTF-8 decoding in which every malformed or truncated sequence
  becomes the replacement character U+FFFD and decoding goes on at the first byte that
  is not part of it.
\<close>

fun toString :: "byte list \<Rightarrow> jstring" where
  "toString [] = []"
| "toString (b # bs) =
     (if b < 0x80 then unat b # toString bs
      else if 0xC2 \<le> b \<and> b \<le> 0xDF then
        (case bs of
           [] \<Rightarrow> [REPLACEMENT]
         | c # r \<Rightarrow>
             if isCont c then ((unat b - 0xC0) * 64 + low6 c) # toString r
             else REPLACEMENT # toString (c # r))
      else if 0xE0 \<le> b \<and> b \<le> 0xEF then
        (case bs of
           [] \<Rightarrow> [REPLACEMENT]
         | c # r \<Rightarrow>
             if \<not> second3 b c then REPLACEMENT # toString (c # r)
             else
               (case r of
                  [] \<Rightarrow> [REPLACEMENT]
                | d # r' \<Rightarrow>
                    if isCont d
                    then ((unat b - 0xE0) * 4096 + low6 c * 64 + low6 d) # toString r'
                    else REPLACEMENT # toString (d # r')))
      else if 0xF0 \<le> b \<and> b \<le> 0xF4 then
        (case bs of
           [] \<Rightarrow> [REPLACEMENT]
         | c # r \<Rightarrow>
             if \<not> second4 b c then REPLACEMENT # toString (c # r)
             else
               (case r of
                  [] \<Rightarrow> [REPLACEMENT]
                | d # r' \<Rightarrow>
                    if \<not> isCont d then REPLACEMENT # toString (d # r')
                    else
                      (case r' of
                         [] \<Rightarrow> [REPLACEMENT]
                       | e # r'' \<Rightarrow>
                           if isCont e
                           then codeUnits ((unat b - 0xF0) * 262144 + low6 c * 4096
                                           + low6 d * 64 + low6 e) @ toString r''
                           else REPLACEMENT # toString (e # r''))))
      else REPLACEMENT # toString bs)"

text \<open>
  The test of lines 1335 and 1473: the decoded chunk is searched, with \<^verbatim>\<open>indexOf\<close>, for the
  replacement character, written as a literal in the source.
\<close>

definition hasReplacement :: "byte list \<Rightarrow> bool" where
  "hasReplacement buffer = (REPLACEMENT \<in> set (toString buffer))"

subsection \<open>Frames\<close>

text \<open>
  The event-stream parser and \<^verbatim>\<open>JSON.parse\<close> are libraries: they are parameters of
  the model. The parser has a state of its own and gives, for the text it is fed, the
  events it dispatches. Of a parsed value the handlers read a few fields only, so a
  parse gives the typed view of them: \<open>None\<close> when \<^verbatim>\<open>JSON.parse\<close> fails, \<open>JsNull\<close>
  for \<^verbatim>\<open>null\<close> (reading a field of it throws), and the fields otherwise, where an
  absent or falsy code is \<open>0\<close> and an absent or falsy string is empty.
\<close>

datatype sse_event = SseEvent jstring | SseReconnect

datatype 'a js = JsNull | JsVal 'a

record raw_result =
  rr_code :: int
  rr_message :: jstring
  event_type :: int
  event_data :: jstring

record result =
  is_finish :: bool
  conversation_id :: "jstring option"
  message_content :: jstring

datatype content_json =
    CJStr jstring
  | CJObj (cj_text: "jstring option") (cj_delta_text: "jstring option") (cj_content: "jstring option")

record json_api =
  parseRaw :: "jstring \<Rightarrow> raw_result js option"
  parseResult :: "jstring \<Rightarrow> result js option"
  parseContent :: "jstring \<Rightarrow> content_json js option"

datatype excode = API_REQUEST_FAILED | API_FILE_URL_INVALID | API_FILE_EXECEEDS_SIZE

text \<open>
  What the program throws: an \<^verbatim>\<open>Error\<close> or \<^verbatim>\<open>TypeError\<close> of the language, an
  \<^verbatim>\<open>APIException\<close> with its code, a failure of the HTTP client, or the error of a
  stream. The message texts, which no branch of the program reads, are left out.
\<close>

datatype error =
    JsError
  | TypeError
  | APIException excode
  | TransportError
  | StreamFailure

text \<open>The delta text of a content payload: the shapes in the order of lines 1318-1321.\<close>

definition shapeText :: "content_json \<Rightarrow> jstring" where
  "shapeText c =
     (case c of
        CJStr s \<Rightarrow> s
      | CJObj t d k \<Rightarrow>
          (case t of Some s \<Rightarrow> s
           | None \<Rightarrow> (case d of Some s \<Rightarrow> s
                      | None \<Rightarrow> (case k of Some s \<Rightarrow> s | None \<Rightarrow> []))))"

text \<open>\<^verbatim>\<open>s.replace(/\n$/, "")\<close>.\<close>

definition stripFinalLF :: "jstring \<Rightarrow> jstring" where
  "stripFinalLF s = (if s \<noteq> [] \<and> last s = LF then butlast s else s)"

text \<open>What the upstream stream emits.\<close>

datatype stream_event = Data "byte list" | StreamError | StreamClose

subsection \<open>Buffered mode\<close>

record answer =
  ans_id :: jstring
  ans_content :: jstring
  ans_finish_reason :: jstring

datatype promise = Pending | Resolved answer | Rejected error

text \<open>A promise settles once: a later \<^verbatim>\<open>resolve\<close> or \<^verbatim>\<open>reject\<close> has no effect.\<close>

definition settle :: "promise \<Rightarrow> promise \<Rightarrow> promise" where
  "settle outcome p = (case p of Pending \<Rightarrow> outcome | _ \<Rightarrow> p)"

record 'p rs_state =
  rs_temp :: "byte list"
  rs_parser :: 'p
  rs_data :: answer
  rs_isEnd :: bool
  rs_promise :: promise
  rs_errorSeen :: bool
  rs_closeSeen :: bool

definition rsInit :: "'p \<Rightarrow> 'p rs_state" where
  "rsInit p0 =
     \<lparr> rs_temp = [], rs_parser = p0,
       rs_data = \<lparr> ans_id = [], ans_content = [], ans_finish_reason = S ''stop'' \<rparr>,
       rs_isEnd = False, rs_promise = Pending, rs_errorSeen = False, rs_closeSeen = False \<rparr>"

definition rsReject :: "error \<Rightarrow> 'p rs_state \<Rightarrow> 'p rs_state" where
  "rsReject e st = st \<lparr> rs_promise := settle (Rejected e) (rs_promise st) \<rparr>"

text \<open>Lines 1296-1298 and 1306-1308: set the latch, strip the final line feed, resolve.\<close>

definition rsFinish :: "'p rs_state \<Rightarrow> 'p rs_state" where
  "rsFinish st =
     (let d = (rs_data st) \<lparr> ans_content := stripFinalLF (ans_content (rs_data st)) \<rparr>
      in st \<lparr> rs_isEnd := True, rs_data := d, rs_promise := settle (Resolved d) (rs_promise st) \<rparr>)"

definition truthyStr :: "jstring option \<Rightarrow> bool" where
  "truthyStr s = (case s of None \<Rightarrow> False | Some t \<Rightarrow> t \<noteq> [])"

text \<open>The callback of the parser in \<^verbatim>\<open>receiveStream\<close> (lines 1285-1331).\<close>

definition rsOnEvent :: "json_api \<Rightarrow> 'p rs_state \<Rightarrow> sse_event \<Rightarrow> 'p rs_state" where
  "rsOnEvent J st ev =
     (case ev of
        SseReconnect \<Rightarrow> st
      | SseEvent data \<Rightarrow>
          if rs_isEnd st then st
          else
            (case parseRaw J data of
               None \<Rightarrow> rsReject JsError st
             | Some JsNull \<Rightarrow> rsReject TypeError st
             | Some (JsVal rawResult) \<Rightarrow>
                 if rr_code rawResult \<noteq> 0 then rsReject (APIException API_REQUEST_FAILED) st
                 else if event_type rawResult = 2003 then rsFinish st
                 else if event_type rawResult \<noteq> 2001 then st
                 else
                   (case parseResult J (event_data rawResult) of
                      None \<Rightarrow> rsReject JsError st
                    | Some JsNull \<Rightarrow> rsReject TypeError st
                    | Some (JsVal result) \<Rightarrow>
                        if is_finish result then rsFinish st
                        else
                          (let st1 =
                                 (if ans_id (rs_data st) = [] \<and> truthyStr (conversation_id result)
                                  then st \<lparr> rs_data := (rs_data st)
                                              \<lparr> ans_id := the (conversation_id result) \<rparr> \<rparr>
                                  else st)
                           in if message_content result = [] then st1
                              else
                                (case parseContent J (message_content result) of
                                   Some JsNull \<Rightarrow> rsReject TypeError st1
                                 | parsed \<Rightarrow>
                                     (let text = (case parsed of
                                                    Some (JsVal c) \<Rightarrow> shapeText c
                                                  | _ \<Rightarrow> message_content result)
                                      in if text \<noteq> []
                                         then st1 \<lparr> rs_data := (rs_data st1)
                                                \<lparr> ans_content := ans_content (rs_data st1) @ text \<rparr> \<rparr>
                                         else st1))))))"

text \<open>
  The \<^verbatim>\<open>data\<close> listener (lines 1333-1346): a chunk whose own decoding shows a
  replacement character is put aside; any other chunk is fed, behind what was put aside.
\<close>

definition rsOnData ::
  "('p \<Rightarrow> jstring \<Rightarrow> sse_event list \<times> 'p) \<Rightarrow> json_api \<Rightarrow> 'p rs_state \<Rightarrow> byte list \<Rightarrow> 'p rs_state" where
  "rsOnData feed J st buffer =
     (if hasReplacement buffer then st \<lparr> rs_temp := rs_temp st @ buffer \<rparr>
      else
        (let buffer' = (if rs_temp st \<noteq> [] then rs_temp st @ buffer else buffer);
             (events, p') = feed (rs_parser st) (toString buffer')
         in foldl (rsOnEvent J) (st \<lparr> rs_temp := [], rs_parser := p' \<rparr>) events))"

definition rsStep ::
  "('p \<Rightarrow> jstring \<Rightarrow> sse_event list \<times> 'p) \<Rightarrow> json_api \<Rightarrow> 'p rs_state \<Rightarrow> stream_event \<Rightarrow> 'p rs_state" where
  "rsStep feed J st e =
     (case e of
        Data buffer \<Rightarrow> rsOnData feed J st buffer
      | StreamError \<Rightarrow>
          if rs_errorSeen st then st
          else rsReject StreamFailure (st \<lparr> rs_errorSeen := True \<rparr>)
      | StreamClose \<Rightarrow>
          if rs_closeSeen st then st
          else st \<lparr> rs_closeSeen := True,
                    rs_promise := settle (Resolved (rs_data st)) (rs_promise st) \<rparr>)"

text \<open>\<^verbatim>\<open>receiveStream\<close>: the promise after the events of the stream.\<close>

definition receiveStream ::
  "('p \<Rightarrow> jstring \<Rightarrow> sse_event list \<times> 'p) \<Rightarrow> 'p \<Rightarrow> json_api \<Rightarrow> stream_event list \<Rightarrow> promise" where
  "receiveStream feed p0 J events = rs_promise (foldl (rsStep feed J) (rsInit p0) events)"

subsection \<open>Live mode\<close>

text \<open>
  What is written to the output stream: a completion chunk with its identifier, delta
  text and finish reason, the \<^verbatim>\<open>[DONE]\<close> marker, or the empty frame.
\<close>

datatype frame =
    Chunk "jstring option" jstring "jstring option"
  | DoneFrame
  | BlankFrame

text \<open>
  The output stream, a \<^verbatim>\<open>PassThrough\<close>. \<^verbatim>\<open>end\<close> ends it. A frame written or
  ended on a stream that has ended, or that is closed, is refused; the write-after-end
  error destroys the stream, so that \<^verbatim>\<open>closed\<close> is true at once.
\<close>

record pass_through =
  written :: "frame list"
  ended :: bool
  closed :: bool
  refused :: "frame list"

definition ptWrite :: "frame \<Rightarrow> pass_through \<Rightarrow> pass_through" where
  "ptWrite f t = (if ended t \<or> closed t then t \<lparr> closed := True, refused := refused t @ [f] \<rparr>
                  else t \<lparr> written := written t @ [f] \<rparr>)"

definition ptEnd :: "frame \<Rightarrow> pass_through \<Rightarrow> pass_through" where
  "ptEnd f t = (if ended t \<or> closed t then t \<lparr> closed := True, refused := refused t @ [f] \<rparr>
                else t \<lparr> written := written t @ [f], ended := True \<rparr>)"

text \<open>\<^verbatim>\<open>!transStream.closed && transStream.end(f)\<close>.\<close>

definition ptEndUnlessClosed :: "frame \<Rightarrow> pass_through \<Rightarrow> pass_through" where
  "ptEndUnlessClosed f t = (if closed t then t else ptEnd f t)"

text \<open>
  A stream that has ended destroys itself as soon as its frames have been read to the end.
  Its reader is the HTTP response that the caller pipes it to, outside this file: it is
  taken to read each frame as it is written. Each event of the upstream stream is
  dispatched in a later turn of the event loop, and by then a stream that was ended in an
  earlier turn is closed.
\<close>

definition ptSettle :: "pass_through \<Rightarrow> pass_through" where
  "ptSettle t = (if ended t then t \<lparr> closed := True \<rparr> else t)"

record 'p ts_state =
  ts_temp :: "byte list"
  ts_parser :: 'p
  ts_convId :: "jstring option"
  ts_stream :: pass_through
  ts_callbacks :: "jstring option list"
  ts_errorSeen :: bool
  ts_closeSeen :: bool

definition tsInit :: "'p \<Rightarrow> 'p ts_state" where
  "tsInit p0 =
     \<lparr> ts_temp = [], ts_parser = p0, ts_convId = Some [],
       ts_stream = ptWrite (Chunk (Some []) [] None)
                     \<lparr> written = [], ended = False, closed = False, refused = [] \<rparr>,
       ts_callbacks = [], ts_errorSeen = False, ts_closeSeen = False \<rparr>"

text \<open>The \<^verbatim>\<open>catch\<close> of the callback (lines 1465-1468).\<close>

definition tsFail :: "'p ts_state \<Rightarrow> 'p ts_state" where
  "tsFail st = st \<lparr> ts_stream := ptEndUnlessClosed BlankFrame (ts_stream st) \<rparr>"

text \<open>Lines 1394-1409 and 1420-1435: the closing chunk, the marker, the callback.\<close>

definition tsFinish :: "'p ts_state \<Rightarrow> 'p ts_state" where
  "tsFinish st =
     st \<lparr> ts_stream :=
            ptEndUnlessClosed DoneFrame
              (ptWrite (Chunk (ts_convId st) [] (Some (S ''stop''))) (ts_stream st)),
          ts_callbacks := ts_callbacks st @ [ts_convId st] \<rparr>"

text \<open>The callback of the parser in \<^verbatim>\<open>createTransStream\<close> (lines 1383-1469).\<close>

definition tsOnEvent :: "json_api \<Rightarrow> 'p ts_state \<Rightarrow> sse_event \<Rightarrow> 'p ts_state" where
  "tsOnEvent J st ev =
     (case ev of
        SseReconnect \<Rightarrow> st
      | SseEvent data \<Rightarrow>
          (case parseRaw J data of
             None \<Rightarrow> tsFail st
           | Some JsNull \<Rightarrow> tsFail st
           | Some (JsVal rawResult) \<Rightarrow>
               if rr_code rawResult \<noteq> 0 then tsFail st
               else if event_type rawResult = 2003 then tsFinish st
               else if event_type rawResult \<noteq> 2001 then st
               else
                 (case parseResult J (event_data rawResult) of
                    None \<Rightarrow> tsFail st
                  | Some JsNull \<Rightarrow> tsFail st
                  | Some (JsVal result) \<Rightarrow>
                      (let st1 = (if \<not> truthyStr (ts_convId st)
                                  then st \<lparr> ts_convId := conversation_id result \<rparr> else st)
                       in if is_finish result then tsFinish st1
                          else if message_content result = [] then st1
                          else
                            (case parseContent J (message_content result) of
                               Some JsNull \<Rightarrow> tsFail st1
                             | parsed \<Rightarrow>
                                 (let text = (case parsed of
                                                Some (JsVal c) \<Rightarrow> shapeText c
                                              | _ \<Rightarrow> message_content result)
                                  in if text \<noteq> []
                                     then st1 \<lparr> ts_stream :=
                                            ptWrite (Chunk (ts_convId st1) text None) (ts_stream st1) \<rparr>
                                     else st1))))))"

definition tsOnData ::
  "('p \<Rightarrow> jstring \<Rightarrow> sse_event list \<times> 'p) \<Rightarrow> json_api \<Rightarrow> 'p ts_state \<Rightarrow> byte list \<Rightarrow> 'p ts_state" where
  "tsOnData feed J st buffer =
     (if hasReplacement buffer then st \<lparr> ts_temp := ts_temp st @ buffer \<rparr>
      else
        (let buffer' = (if ts_temp st \<noteq> [] then ts_temp st @ buffer else buffer);
             (events, p') = feed (ts_parser st) (toString buffer')
         in foldl (tsOnEvent J) (st \<lparr> ts_temp := [], ts_parser := p' \<rparr>) events))"

text \<open>
  The listeners of the upstream stream (lines 1471-1492), each run on the output stream as
  the turns before it have left it.
\<close>

definition tsStep ::
  "('p \<Rightarrow> jstring \<Rightarrow> sse_event list \<times> 'p) \<Rightarrow> json_api \<Rightarrow> 'p ts_state \<Rightarrow> stream_event \<Rightarrow> 'p ts_state" where
  "tsStep feed J st0 e =
     (let st = st0 \<lparr> ts_stream := ptSettle (ts_stream st0) \<rparr>
      in case e of
           Data buffer \<Rightarrow> tsOnData feed J st buffer
         | StreamError \<Rightarrow>
             if ts_errorSeen st then st
             else st \<lparr> ts_errorSeen := True,
                       ts_stream := ptEndUnlessClosed DoneFrame (ts_stream st) \<rparr>
         | StreamClose \<Rightarrow>
             if ts_closeSeen st then st
             else st \<lparr> ts_closeSeen := True,
                       ts_stream := ptEndUnlessClosed DoneFrame (ts_stream st) \<rparr>)"

text \<open>
  \<^verbatim>\<open>createTransStream\<close>: the output stream and the calls of \<^verbatim>\<open>endCallback\<close> after
  the events of the upstream stream.
\<close>

definition createTransStream ::
  "('p \<Rightarrow> jstring \<Rightarrow> sse_event list \<times> 'p) \<Rightarrow> 'p \<Rightarrow> json_api \<Rightarrow> stream_event list
     \<Rightarrow> pass_through \<times> jstring option list" where
  "createTransStream feed p0 J events =
     (let st = foldl (tsStep feed J) (tsInit p0) events in (ts_stream st, ts_callbacks st))"

subsection \<open>A parser for one-line frames\<close>

text \<open>
  To run the transcoder on concrete bytes the parameters need values. \<open>lineFeed\<close> reads
  the streams whose frames are one \<^verbatim>\<open>data:\<close> line closed by an empty line, as an
  event-stream parser reads them: it keeps the text of an unfinished frame and
  dispatches an event for each finished one.
\<close>

fun splitFrames :: "jstring \<Rightarrow> jstring \<Rightarrow> jstring list \<times> jstring" where
  "splitFrames cur [] = ([], cur)"
| "splitFrames cur [c] = ([], cur @ [c])"
| "splitFrames cur (c # d # cs) =
     (if c = LF \<and> d = LF
      then (case splitFrames [] cs of (fs, rest) \<Rightarrow> (cur # fs, rest))
      else splitFrames (cur @ [c]) (d # cs))"

definition frameEvent :: "jstring \<Rightarrow> sse_event list" where
  "frameEvent f =
     (if startsWith f (S ''data: '') then [SseEvent (drop 6 f)]
      else if startsWith f (S ''data:'') then [SseEvent (drop 5 f)]
      else [])"

definition lineFeed :: "jstring \<Rightarrow> jstring \<Rightarrow> sse_event list \<times> jstring" where
  "lineFeed pending chunk =
     (case splitFrames [] (pending @ chunk) of
        (fs, rest) \<Rightarrow> (concat (map frameEvent fs), rest))"

section \<open>Numbers as text\<close>

text \<open>\<^verbatim>\<open>String(n)\<close> for a natural number.\<close>

fun showNat :: "nat \<Rightarrow> jstring" where
  "showNat n = (if n < 10 then [0x30 + n] else showNat (n div 10) @ [0x30 + n mod 10])"

declare showNat.simps [simp del]

definition hexDigit :: "nat \<Rightarrow> nat" where
  "hexDigit d = (if d < 10 then 0x30 + d else 0x57 + d)"

definition hexDigitUpper :: "nat \<Rightarrow> nat" where
  "hexDigitUpper d = (if d < 10 then 0x30 + d else 0x37 + d)"

text \<open>\<^verbatim>\<open>n.toString(16)\<close> for a natural number: lower case, no leading zero.\<close>

fun toStringHex :: "nat \<Rightarrow> jstring" where
  "toStringHex n =
     (if n < 16 then [hexDigit n] else toStringHex (n div 16) @ [hexDigit (n mod 16)])"

declare toStringHex.simps [simp del]

text \<open>\<^verbatim>\<open>s.padStart(n, c)\<close> for a padding of one code unit.\<close>

definition padStart :: "nat \<Rightarrow> nat \<Rightarrow> jstring \<Rightarrow> jstring" where
  "padStart n c s = replicate (n - length s) c @ s"

section \<open>The request signer\<close>

subsection \<open>Percent encoding\<close>

text \<open>
  The UTF-8 bytes of a string, as \<^verbatim>\<open>encodeURIComponent\<close> takes them: a surrogate
  pair is one code point, and a lone surrogate is the \<^verbatim>\<open>URIError\<close> of the library,
  here \<open>None\<close>. A list element that is no code unit has no encoding either.
\<close>

definition utf8Bytes :: "nat \<Rightarrow> byte list" where
  "utf8Bytes cp =
     (if cp < 0x80 then [of_nat cp]
      else if cp < 0x800 then [of_nat (0xC0 + cp div 64), of_nat (0x80 + cp mod 64)]
      else if cp < 0x10000 then
        [of_nat (0xE0 + cp div 4096), of_nat (0x80 + cp div 64 mod 64), of_nat (0x80 + cp mod 64)]
      else
        [of_nat (0xF0 + cp div 262144), of_nat (0x80 + cp div 4096 mod 64),
         of_nat (0x80 + cp div 64 mod 64), of_nat (0x80 + cp mod 64)])"

definition isHighSurrogate :: "nat \<Rightarrow> bool" where
  "isHighSurrogate c = (0xD800 \<le> c \<and> c \<le> 0xDBFF)"

definition isLowSurrogate :: "nat \<Rightarrow> bool" where
  "isLowSurrogate c = (0xDC00 \<le> c \<and> c \<le> 0xDFFF)"

fun utf8Encode :: "jstring \<Rightarrow> byte list option" where
  "utf8Encode [] = Some []"
| "utf8Encode (c # cs) =
     (if isHighSurrogate c then
        (case cs of
           [] \<Rightarrow> None
         | d # r \<Rightarrow>
             if isLowSurrogate d
             then map_option ((@) (utf8Bytes (0x10000 + (c - 0xD800) * 1024 + (d - 0xDC00))))
                    (utf8Encode r)
             else None)
      else if isLowSurrogate c \<or> 0x10000 \<le> c then None
      else map_option ((@) (utf8Bytes c)) (utf8Encode cs))"

text \<open>The characters \<^verbatim>\<open>encodeURIComponent\<close> leaves as they are.\<close>

definition isAlnum :: "nat \<Rightarrow> bool" where
  "isAlnum c = ((0x41 \<le> c \<and> c \<le> 0x5A) \<or> (0x61 \<le> c \<and> c \<le> 0x7A) \<or> (0x30 \<le> c \<and> c \<le> 0x39))"

definition isUriUnescaped :: "nat \<Rightarrow> bool" where
  "isUriUnescaped c = (isAlnum c \<or> c \<in> set (S ''-_.!~*'' @ [0x27] @ S ''()''))"

definition percentByte :: "byte \<Rightarrow> jstring" where
  "percentByte b = [0x25, hexDigitUpper (unat b div 16), hexDigitUpper (unat b mod 16)]"

definition encodeByte :: "byte \<Rightarrow> jstring" where
  "encodeByte b = (if isUriUnescaped (unat b) then [unat b] else percentByte b)"

definition encodeURIComponent :: "jstring \<Rightarrow> jstring option" where
  "encodeURIComponent s = map_option (\<lambda>bs. concat (map encodeByte bs)) (utf8Encode s)"

text \<open>
  \<^verbatim>\<open>rfc3986Encode\<close> (line 792): the five characters \<^verbatim>\<open>!*'()\<close> that are left over
  are replaced by their own escapes.
\<close>

definition escapeLeftover :: "nat \<Rightarrow> jstring" where
  "escapeLeftover c =
     (if c \<in> set (S ''!*'' @ [0x27] @ S ''()'')
      then [0x25] @ map (\<lambda>d. if 0x61 \<le> d \<and> d \<le> 0x7A then d - 0x20 else d) (toStringHex c)
      else [c])"

definition rfc3986Encode :: "jstring \<Rightarrow> jstring option" where
  "rfc3986Encode s = map_option (\<lambda>t. concat (map escapeLeftover t)) (encodeURIComponent s)"

subsection \<open>Canonical query\<close>

text \<open>
  The query parameters are an object with string values: an association list whose keys
  are distinct. \<^verbatim>\<open>Object.keys(params).sort()\<close> orders the keys by their code units.
\<close>

type_synonym params = "(jstring \<times> jstring) list"

definition lookupParam :: "params \<Rightarrow> jstring \<Rightarrow> jstring" where
  "lookupParam ps k = (case map_of ps k of Some v \<Rightarrow> v | None \<Rightarrow> [])"

definition encodePair :: "params \<Rightarrow> jstring \<Rightarrow> jstring option" where
  "encodePair ps k =
     (case rfc3986Encode k of
        None \<Rightarrow> None
      | Some ek \<Rightarrow> map_option (\<lambda>ev. ek @ [0x3D] @ ev) (rfc3986Encode (lookupParam ps k)))"

text \<open>A \<^verbatim>\<open>map\<close> whose callback may throw.\<close>

fun mapM :: "('a \<Rightarrow> 'b option) \<Rightarrow> 'a list \<Rightarrow> 'b list option" where
  "mapM f [] = Some []"
| "mapM f (x # xs) =
     (case f x of
        None \<Rightarrow> None
      | Some y \<Rightarrow> map_option ((#) y) (mapM f xs))"

definition canonicalQuery :: "params \<Rightarrow> jstring option" where
  "canonicalQuery ps =
     map_option (joinWith [0x26]) (mapM (encodePair ps) (sort (map fst ps)))"

subsection \<open>Signature\<close>

text \<open>The UTC fields of a \<^verbatim>\<open>Date\<close>; the month counts from zero.\<close>

record date =
  utcFullYear :: nat
  utcMonth :: nat
  utcDate :: nat
  utcHours :: nat
  utcMinutes :: nat
  utcSeconds :: nat
  utcMilliseconds :: nat

definition pad :: "nat \<Rightarrow> jstring" where
  "pad n = (if n < 10 then [0x30] @ showNat n else showNat n)"

definition amzDates :: "date \<Rightarrow> jstring \<times> jstring" where
  "amzDates d =
     (let dateStamp = showNat (utcFullYear d) @ pad (utcMonth d + 1) @ pad (utcDate d);
          amzDate = dateStamp @ S ''T'' @ pad (utcHours d) @ pad (utcMinutes d) @ pad (utcSeconds d)
                      @ S ''Z''
      in (amzDate, dateStamp))"

text \<open>
  SHA-256 and HMAC-SHA256 are the library's: parameters that give the 256 bits of the
  digest. A key of the HMAC is a string or the digest of the step before.
\<close>

datatype hmac_key = KeyStr jstring | KeyBuf "256 word"

record crypto =
  sha256 :: "jstring \<Rightarrow> 256 word"
  hmacSha256 :: "hmac_key \<Rightarrow> jstring \<Rightarrow> 256 word"

text \<open>\<^verbatim>\<open>digest("hex")\<close>: 64 hexadecimal digits.\<close>

definition hexDigest :: "256 word \<Rightarrow> jstring" where
  "hexDigest w = padStart 64 0x30 (toStringHex (unat w))"

definition sha256Hex :: "crypto \<Rightarrow> jstring \<Rightarrow> jstring" where
  "sha256Hex C data = hexDigest (sha256 C data)"

definition IMAGEX_REGION :: jstring where "IMAGEX_REGION = S ''cn-north-1''"
definition IMAGEX_SERVICE :: jstring where "IMAGEX_SERVICE = S ''imagex''"

record sign_opts =
  opt_payloadHash :: "jstring option"
  opt_signContentSha256 :: bool

record authorization =
  auth_authorization :: jstring
  auth_amzDate :: jstring
  auth_payloadHash :: jstring
  auth_signature :: jstring
  auth_canonicalRequest :: jstring
  auth_stringToSign :: jstring
  auth_signingKey :: "256 word"

text \<open>
  \<^verbatim>\<open>buildAuthorization\<close> (lines 819-878), with the clock reading \<open>now\<close> made an
  argument. \<open>signCanonical\<close> is the body of the function behind the canonical query
  string, the one step that can throw. The result keeps, beside the three fields the
  source returns, the signature, the canonical request, the string to sign and the signing
  key.
\<close>

definition signCanonical ::
  "crypto \<Rightarrow> date \<Rightarrow> jstring \<Rightarrow> jstring \<Rightarrow> jstring \<Rightarrow> jstring \<Rightarrow> jstring \<Rightarrow> jstring \<Rightarrow> jstring
     \<Rightarrow> jstring \<Rightarrow> jstring \<Rightarrow> sign_opts \<Rightarrow> authorization" where
  "signCanonical C now method host path canonicalQS sessionToken accessKey secretKey region service opts =
     (let (amzDate, dateStamp) = amzDates now;
          payloadHash = (case opt_payloadHash opts of Some h \<Rightarrow> h | None \<Rightarrow> sha256Hex C []);
          headersMap =
            [(S ''host'', host), (S ''x-amz-date'', amzDate)]
            @ (if sessionToken \<noteq> [] then [(S ''x-amz-security-token'', sessionToken)] else [])
            @ (if opt_signContentSha256 opts then [(S ''x-amz-content-sha256'', payloadHash)] else []);
          headerNames = sort (map fst headersMap);
          canonicalHeaders =
            concat (map (\<lambda>k. k @ [0x3A] @ lookupParam headersMap k @ [LF]) headerNames);
          signedHeaders = joinWith [0x3B] headerNames;
          canonicalRequest =
            joinWith [LF] [method, path, canonicalQS, canonicalHeaders, signedHeaders, payloadHash];
          algorithm = S ''AWS4-HMAC-SHA256'';
          credentialScope = dateStamp @ S ''/'' @ region @ S ''/'' @ service @ S ''/aws4_request'';
          stringToSign =
            joinWith [LF] [algorithm, amzDate, credentialScope, sha256Hex C canonicalRequest];
          kDate = hmacSha256 C (KeyStr (S ''AWS4'' @ secretKey)) dateStamp;
          kRegion = hmacSha256 C (KeyBuf kDate) region;
          kService = hmacSha256 C (KeyBuf kRegion) service;
          kSigning = hmacSha256 C (KeyBuf kService) (S ''aws4_request'');
          signature = hexDigest (hmacSha256 C (KeyBuf kSigning) stringToSign);
          credential = accessKey @ S ''/'' @ credentialScope
      in \<lparr> auth_authorization =
             algorithm @ S '' Credential='' @ credential @ S '', SignedHeaders=''
               @ signedHeaders @ S '', Signature='' @ signature,
           auth_amzDate = amzDate,
           auth_payloadHash = payloadHash,
           auth_signature = signature,
           auth_canonicalRequest = canonicalRequest,
           auth_stringToSign = stringToSign,
           auth_signingKey = kSigning \<rparr>)"

definition buildAuthorization ::
  "crypto \<Rightarrow> date \<Rightarrow> jstring \<Rightarrow> jstring \<Rightarrow> jstring \<Rightarrow> params \<Rightarrow> jstring \<Rightarrow> jstring \<Rightarrow> jstring
     \<Rightarrow> jstring \<Rightarrow> jstring \<Rightarrow> sign_opts \<Rightarrow> authorization option" where
  "buildAuthorization C now method host path ps sessionToken accessKey secretKey region service opts =
     (case canonicalQuery ps of
        None \<Rightarrow> None
      | Some canonicalQS \<Rightarrow>
          Some (signCanonical C now method host path canonicalQS sessionToken accessKey secretKey
                  region service opts))"

section \<open>The upload pipeline\<close>

subsection \<open>Binary transfer\<close>

record http_request =
  req_method :: jstring
  req_url :: jstring
  req_headers :: "(jstring \<times> jstring) list"
  req_body :: "byte list"

text \<open>
  The embedded code of the storage reply: a whole number, or any other value, kept as what
  \<^verbatim>\<open>String(code)\<close> makes of it (\<^verbatim>\<open>undefined\<close> for an absent one).
\<close>

datatype tos_code = CodeNum int | CodeOther jstring

datatype http_reply = NoReply | Reply nat tos_code

definition codeIs2000 :: "tos_code \<Rightarrow> bool" where
  "codeIs2000 c = (case c of CodeNum n \<Rightarrow> n = 2000 | CodeOther s \<Rightarrow> s = S ''2000'')"

text \<open>\<^verbatim>\<open>(util.crc32(fileData) >>> 0).toString(16).padStart(8, '0')\<close>.\<close>

definition crcHeader :: "int \<Rightarrow> jstring" where
  "crcHeader crc = padStart 8 0x30 (toStringHex (nat (crc mod 2 ^ 32)))"

definition tosRequest ::
  "(byte list \<Rightarrow> int) \<Rightarrow> jstring \<Rightarrow> jstring \<Rightarrow> jstring \<Rightarrow> byte list \<Rightarrow> jstring \<Rightarrow> http_request" where
  "tosRequest crc32 tosHost storeUri auth fileData mimeType =
     \<lparr> req_method = S ''POST'',
       req_url = S ''https://'' @ tosHost @ S ''/upload/v1/'' @ storeUri,
       req_headers =
         [(S ''Authorization'', auth),
          (S ''Content-CRC32'', crcHeader (crc32 fileData)),
          (S ''Content-Type'', if mimeType \<noteq> [] then mimeType else S ''application/octet-stream'')],
       req_body = fileData \<rparr>"

text \<open>
  \<^verbatim>\<open>uploadToTos\<close> (lines 960-989). \<open>send\<close> is the network. The HTTP client rejects by
  itself when no reply arrives and when the status is outside 200 to 299; the
  \<^verbatim>\<open>catch\<close> of the source logs and throws again.
\<close>

definition uploadToTos ::
  "(byte list \<Rightarrow> int) \<Rightarrow> (http_request \<Rightarrow> http_reply) \<Rightarrow> jstring \<Rightarrow> jstring \<Rightarrow> jstring
     \<Rightarrow> byte list \<Rightarrow> jstring \<Rightarrow> error + unit" where
  "uploadToTos crc32 send tosHost storeUri auth fileData mimeType =
     (case send (tosRequest crc32 tosHost storeUri auth fileData mimeType) of
        NoReply \<Rightarrow> Inl TransportError
      | Reply status code \<Rightarrow>
          if \<not> (200 \<le> status \<and> status < 300) then Inl TransportError
          else if 300 \<le> status \<or> \<not> codeIs2000 code then Inl (APIException API_REQUEST_FAILED)
          else Inr ())"

subsection \<open>One attachment\<close>

text \<open>
  The helpers of \<^verbatim>\<open>util\<close>, \<^verbatim>\<open>mime\<close>, \<^verbatim>\<open>path\<close> and \<^verbatim>\<open>Buffer\<close> that the upload
  uses are not in the file at hand: they are the fields of a parameter. A lookup that gives
  \<^verbatim>\<open>null\<close> or \<^verbatim>\<open>undefined\<close> in the source gives the empty string here, which the
  source treats alike.
\<close>

record platform =
  isBASE64Data :: "jstring \<Rightarrow> bool"
  isBASE64 :: "jstring \<Rightarrow> bool"
  isURL :: "jstring \<Rightarrow> bool"
  extractBASE64DataFormat :: "jstring \<Rightarrow> jstring"
  removeBASE64DataHeader :: "jstring \<Rightarrow> jstring"
  base64Decode :: "jstring \<Rightarrow> byte list"
  mimeGetExtension :: "jstring \<Rightarrow> jstring"
  mimeGetType :: "jstring \<Rightarrow> jstring"
  basename :: "jstring \<Rightarrow> jstring"
  extname :: "jstring \<Rightarrow> jstring"
  toLowerCase :: "jstring \<Rightarrow> jstring"
  uuid :: jstring
  crc32 :: "byte list \<Rightarrow> int"
  sniffImageSize :: "byte list \<Rightarrow> jstring \<Rightarrow> (nat \<times> nat) option"

text \<open>
  The network as one upload meets it: the reply to the probe of a URL (its status and the
  content length, when the header gives one), the download, the temporary credential, the
  staged object of the apply call and the reply of the storage host. \<open>None\<close> is a call
  that throws. The commit call of an image is left out: the source catches its failure
  and only logs it, so it has no part in what the upload returns.
\<close>

datatype head_reply = HeadFail | HeadReply nat "nat option"

record upload_auth =
  serviceId :: jstring
  uploadHost :: jstring
  accessKey :: jstring
  secretKey :: jstring
  sessionToken :: jstring

record staged =
  storeUri :: jstring
  stagedAuth :: jstring
  tosHost :: jstring

record network =
  headProbe :: "jstring \<Rightarrow> head_reply"
  download :: "jstring \<Rightarrow> byte list option"
  acquireUploadAuth :: "nat \<Rightarrow> upload_auth option"
  applyImageUpload :: "upload_auth \<Rightarrow> nat \<Rightarrow> jstring \<Rightarrow> staged option"
  tosSend :: "http_request \<Rightarrow> http_reply"

definition FILE_MAX_SIZE :: nat where
  "FILE_MAX_SIZE = 100 * 1024 * 1024"

text \<open>\<^verbatim>\<open>checkFileUrl\<close> (lines 757-785).\<close>

definition checkFileUrl :: "platform \<Rightarrow> network \<Rightarrow> jstring \<Rightarrow> error + unit" where
  "checkFileUrl P N fileUrl =
     (if isBASE64Data P fileUrl then Inr ()
      else
        (case headProbe N fileUrl of
           HeadFail \<Rightarrow> Inl TransportError
         | HeadReply status len \<Rightarrow>
             if 400 \<le> status then Inl (APIException API_FILE_URL_INVALID)
             else
               (case len of
                  None \<Rightarrow> Inr ()
                | Some fileSize \<Rightarrow>
                    if FILE_MAX_SIZE < fileSize then Inl (APIException API_FILE_EXECEEDS_SIZE)
                    else Inr ())))"

definition orElse :: "jstring \<Rightarrow> jstring \<Rightarrow> jstring" where
  "orElse a b = (if a \<noteq> [] then a else b)"

text \<open>\<^verbatim>\<open>s.replace(/^\./, "")\<close>.\<close>

definition dropLeadingDot :: "jstring \<Rightarrow> jstring" where
  "dropLeadingDot s = (if startsWith s (S ''.'') then drop 1 s else s)"

text \<open>The \<^verbatim>\<open>try\<close> block of \<^verbatim>\<open>uploadFile\<close> (lines 1172-1224).\<close>

definition uploadStaged ::
  "platform \<Rightarrow> network \<Rightarrow> jstring \<Rightarrow> byte list \<Rightarrow> jstring \<Rightarrow> jstring \<Rightarrow> bool \<Rightarrow> error + asset_ref" where
  "uploadStaged P N filename fileData mimeType ext isImage =
     (case acquireUploadAuth N (if isImage then 2 else 1) of
        None \<Rightarrow> Inl (APIException API_REQUEST_FAILED)
      | Some auth \<Rightarrow>
          (case applyImageUpload N auth (length fileData) (S ''.'' @ ext) of
             None \<Rightarrow> Inl (APIException API_REQUEST_FAILED)
           | Some apply \<Rightarrow>
               (case uploadToTos (crc32 P) (tosSend N) (tosHost apply) (storeUri apply)
                       (stagedAuth apply) fileData mimeType of
                  Inl e \<Rightarrow> Inl e
                | Inr _ \<Rightarrow>
                    (let size = (if isImage then sniffImageSize P fileData mimeType else None)
                     in Inr \<lparr> ref_url = storeUri apply, ref_name = filename, ref_ext = ext,
                              ref_kind = (if isImage then S ''image'' else S ''file''),
                              ref_width = (if isImage
                                           then Some (case size of None \<Rightarrow> 1
                                                      | Some (w, h) \<Rightarrow> if w = 0 then 1 else w)
                                           else None),
                              ref_height = (if isImage
                                            then Some (case size of None \<Rightarrow> 1
                                                       | Some (w, h) \<Rightarrow> if h = 0 then 1 else h)
                                            else None) \<rparr>))))"

text \<open>
  \<^verbatim>\<open>uploadFile\<close> (lines 1138-1246). The probe and the download stand before the
  \<^verbatim>\<open>try\<close>: what they throw leaves the function. What the staging throws is caught:
  an image gives \<^verbatim>\<open>null\<close>, any other file a placeholder.
\<close>

definition uploadFile :: "platform \<Rightarrow> network \<Rightarrow> jstring \<Rightarrow> error + asset_ref option" where
  "uploadFile P N fileUrl =
     (case checkFileUrl P N fileUrl of
        Inl e \<Rightarrow> Inl e
      | Inr _ \<Rightarrow>
          (let inline = isBASE64Data P fileUrl;
               mimeType0 = (if inline then extractBASE64DataFormat P fileUrl else []);
               extFromMime = (if inline then mimeGetExtension P mimeType0 else []);
               filename = (if inline then uuid P @ S ''.'' @ orElse extFromMime (S ''bin'')
                           else basename P fileUrl);
               fetched = (if inline then Some (base64Decode P (removeBASE64DataHeader P fileUrl))
                          else download N fileUrl)
           in case fetched of
                None \<Rightarrow> Inl TransportError
              | Some fileData \<Rightarrow>
                  (let mimeType = orElse mimeType0
                                    (orElse (mimeGetType P filename) (S ''application/octet-stream''));
                       isImage = startsWith mimeType (S ''image/'');
                       ext = toLowerCase P
                               (orElse extFromMime
                                  (orElse (dropLeadingDot (extname P filename))
                                     (orElse (mimeGetExtension P mimeType) (S ''bin''))))
                   in case uploadStaged P N filename fileData mimeType ext isImage of
                        Inr r \<Rightarrow> Inr (Some r)
                      | Inl e \<Rightarrow>
                          if isImage then Inr None
                          else Inr (Some \<lparr> ref_url = S ''upload-failed://placeholder'',
                                           ref_name = filename, ref_ext = ext,
                                           ref_kind = S ''file'',
                                           ref_width = None, ref_height = None \<rparr>))))"

subsection \<open>The attachments of a request\<close>

text \<open>The sniffing of lines 413-417 on the first bytes of bare base64 data.\<close>

definition sniffMime :: "byte list \<Rightarrow> jstring" where
  "sniffMime buf =
     (if take 4 buf = [0x89, 0x50, 0x4E, 0x47] then S ''image/png''
      else if take 2 buf = [0xFF, 0xD8] then S ''image/jpeg''
      else if take 6 buf = B ''GIF87a'' \<or> take 6 buf = B ''GIF89a'' then S ''image/gif''
      else if take 4 buf = B ''RIFF'' \<and> take 4 (drop 8 buf) = B ''WEBP'' then S ''image/webp''
      else S ''application/octet-stream'')"

definition normalizeCandidate :: "platform \<Rightarrow> jstring \<Rightarrow> jstring option" where
  "normalizeCandidate P maybe =
     (if maybe = [] then None
      else if isBASE64Data P maybe then Some maybe
      else if isBASE64 P maybe \<and> 500 < length maybe \<and> 4 < length (base64Decode P maybe)
      then Some (S ''data:'' @ sniffMime (base64Decode P maybe) @ S '';base64,'' @ maybe)
      else if isURL P maybe then Some maybe else None)"

definition partCandidate :: "platform \<Rightarrow> part \<Rightarrow> jstring option" where
  "partCandidate P v =
     (case v of
        PStr s \<Rightarrow> normalizeCandidate P s
      | PObj t _ file img \<Rightarrow>
          if t = S ''file'' \<and> file \<noteq> None then normalizeCandidate P (the file)
          else if t \<in> set [S ''image_url'', S ''input_image'', S ''image'']
          then (case img of
                  ImgAbsent \<Rightarrow> None
                | ImgStr s \<Rightarrow> normalizeCandidate P s
                | ImgObj u \<Rightarrow> (case u of None \<Rightarrow> None | Some s \<Rightarrow> normalizeCandidate P s))
          else None)"

text \<open>\<^verbatim>\<open>extractRefFileUrls\<close> (lines 395-454): the last message only.\<close>

definition extractRefFileUrls :: "platform \<Rightarrow> message list \<Rightarrow> jstring list" where
  "extractRefFileUrls P messages =
     (if messages = [] then []
      else (case content (last messages) of
              CParts vs \<Rightarrow> List.map_filter (partCandidate P) vs
            | CText _ \<Rightarrow> []))"

text \<open>
  \<^verbatim>\<open>Promise.all\<close> over the uploads: the list of the results, or what an upload threw.
\<close>

fun sequenceAll :: "(error + 'a) list \<Rightarrow> error + 'a list" where
  "sequenceAll [] = Inr []"
| "sequenceAll (x # xs) =
     (case x of
        Inl e \<Rightarrow> Inl e
      | Inr v \<Rightarrow> (case sequenceAll xs of Inl e \<Rightarrow> Inl e | Inr vs \<Rightarrow> Inr (v # vs)))"

definition uploadAll :: "platform \<Rightarrow> network \<Rightarrow> message list \<Rightarrow> error + asset_ref option list" where
  "uploadAll P N messages = sequenceAll (map (uploadFile P N) (extractRefFileUrls P messages))"

section \<open>The completion orchestrator\<close>

definition MAX_RETRY_COUNT :: nat where "MAX_RETRY_COUNT = 3"
definition RETRY_DELAY :: nat where "RETRY_DELAY = 5000"

text \<open>\<^verbatim>\<open>/[0-9a-zA-Z]{24}/.test(refConvId)\<close>: a run of 24 letters or digits somewhere.\<close>

fun hasAlnumRun :: "nat \<Rightarrow> nat \<Rightarrow> jstring \<Rightarrow> bool" where
  "hasAlnumRun n k [] = (n \<le> k)"
| "hasAlnumRun n k (c # cs) =
     (n \<le> k \<or> (if isAlnum c then hasAlnumRun n (Suc k) cs else hasAlnumRun n 0 cs))"

definition resetRefConvId :: "jstring \<Rightarrow> jstring" where
  "resetRefConvId refConvId = (if hasAlnumRun 24 0 refConvId then refConvId else [])"

text \<open>
  The reply to the completion call: the call throws, or gives a response with its content
  type, if the header is there, and the events of its body.
\<close>

datatype chat_reply = ChatFail | ChatResponse "jstring option" "stream_event list"

text \<open>
  What one run of the pipeline meets: the network of its uploads and the upstream service.
  A world gives the environment of each run, by its retry count.
\<close>

record 'p env =
  env_network :: network
  env_chat :: "payload \<Rightarrow> chat_reply"
  env_feed :: "'p \<Rightarrow> jstring \<Rightarrow> sse_event list \<times> 'p"
  env_parser :: 'p
  env_json :: json_api

text \<open>
  A call returns, throws, or never settles (the promise of a stream that never closes).
\<close>

datatype 'a outcome = Return 'a | Throw error | Pends

text \<open>
  What a completion does beside its result: the start of a run of the pipeline, a delay in
  milliseconds, and the deferred removal of the upstream conversation.
\<close>

datatype effect = Attempt nat | Sleep nat | RemoveConversation jstring

text \<open>The body of \<^verbatim>\<open>createCompletion\<close> (lines 179-248): one run of the pipeline.\<close>

definition completionBody ::
  "platform \<Rightarrow> 'p env \<Rightarrow> message list \<Rightarrow> jstring \<Rightarrow> answer outcome \<times> message list \<times> effect list" where
  "completionBody P E messages refConvId =
     (case uploadAll P (env_network E) messages of
        Inl e \<Rightarrow> (Throw e, messages, [])
      | Inr refs \<Rightarrow>
          (let (payload, messages') =
                 messagesPrepare (isBASE64 P) messages refs (resetRefConvId refConvId \<noteq> [])
           in case env_chat E payload of
                ChatFail \<Rightarrow> (Throw TransportError, messages', [])
              | ChatResponse contentType events \<Rightarrow>
                  (case contentType of
                     None \<Rightarrow> (Throw TypeError, messages', [])
                   | Some ct \<Rightarrow>
                       if \<not> includesStr ct (S ''text/event-stream'')
                       then (Throw (APIException API_REQUEST_FAILED), messages', [])
                       else
                         (case receiveStream (env_feed E) (env_parser E) (env_json E) events of
                            Pending \<Rightarrow> (Pends, messages', [])
                          | Rejected e \<Rightarrow> (Throw e, messages', [])
                          | Resolved a \<Rightarrow>
                              (Return a, messages',
                               if ans_id a \<noteq> [] then [RemoveConversation (ans_id a)] else [])))))"

text \<open>
  \<^verbatim>\<open>createCompletion\<close>: the \<^verbatim>\<open>catch\<close> of lines 248-264 runs the function again,
  on the same message array, after the delay, while the retry count is below the bound.
\<close>

function createCompletion ::
  "platform \<Rightarrow> (nat \<Rightarrow> 'p env) \<Rightarrow> message list \<Rightarrow> jstring \<Rightarrow> nat
     \<Rightarrow> answer outcome \<times> message list \<times> effect list" where
  "createCompletion P W messages refConvId retryCount =
     (case completionBody P (W retryCount) messages refConvId of
        (Throw e, messages', effects) \<Rightarrow>
          if retryCount < MAX_RETRY_COUNT then
            (case createCompletion P W messages' (resetRefConvId refConvId) (retryCount + 1) of
               (r, messages'', effects') \<Rightarrow>
                 (r, messages'', Attempt retryCount # effects @ Sleep RETRY_DELAY # effects'))
          else (Throw e, messages', Attempt retryCount # effects)
      | (r, messages', effects) \<Rightarrow> (r, messages', Attempt retryCount # effects))"
  by pat_completeness auto
termination
  by (relation "measure (\<lambda>(P, W, messages, refConvId, retryCount). MAX_RETRY_COUNT - retryCount)")
     (auto simp: MAX_RETRY_COUNT_def)

declare createCompletion.simps [simp del]

text \<open>
  The stream that \<^verbatim>\<open>createCompletionStream\<close> returns: the frames it carries in the
  end and the calls of the end callback. The substitute of lines 337-357 is one chunk
  with the finish reason, ended at once.
\<close>

definition unavailableText :: jstring where
  "unavailableText =
     [0x670D, 0x52A1, 0x6682, 0x65F6, 0x4E0D, 0x53EF, 0x7528, 0xFF0C,
      0x7B2C, 0x4E09, 0x65B9, 0x54CD, 0x5E94, 0x9519, 0x8BEF]"

definition unavailableStream :: pass_through where
  "unavailableStream =
     ptEnd (Chunk (Some []) unavailableText (Some (S ''stop'')))
       \<lparr> written = [], ended = False, closed = False, refused = [] \<rparr>"

definition streamBody ::
  "platform \<Rightarrow> 'p env \<Rightarrow> message list \<Rightarrow> jstring
     \<Rightarrow> pass_through outcome \<times> message list \<times> effect list" where
  "streamBody P E messages refConvId =
     (case uploadAll P (env_network E) messages of
        Inl e \<Rightarrow> (Throw e, messages, [])
      | Inr refs \<Rightarrow>
          (let (payload, messages') =
                 messagesPrepare (isBASE64 P) messages refs (resetRefConvId refConvId \<noteq> [])
           in case env_chat E payload of
                ChatFail \<Rightarrow> (Throw TransportError, messages', [])
              | ChatResponse contentType events \<Rightarrow>
                  (case contentType of
                     None \<Rightarrow> (Throw TypeError, messages', [])
                   | Some ct \<Rightarrow>
                       if \<not> includesStr ct (S ''text/event-stream'')
                       then (Return unavailableStream, messages', [])
                       else
                         (case createTransStream (env_feed E) (env_parser E) (env_json E) events of
                            (out, callbacks) \<Rightarrow>
                              (Return out, messages',
                               map RemoveConversation
                                 (filter (\<lambda>c. c \<noteq> [])
                                    (map (\<lambda>c. case c of None \<Rightarrow> [] | Some i \<Rightarrow> i) callbacks)))))))"

function createCompletionStream ::
  "platform \<Rightarrow> (nat \<Rightarrow> 'p env) \<Rightarrow> message list \<Rightarrow> jstring \<Rightarrow> nat
     \<Rightarrow> pass_through outcome \<times> message list \<times> effect list" where
  "createCompletionStream P W messages refConvId retryCount =
     (case streamBody P (W retryCount) messages refConvId of
        (Throw e, messages', effects) \<Rightarrow>
          if retryCount < MAX_RETRY_COUNT then
            (case createCompletionStream P W messages' (resetRefConvId refConvId) (retryCount + 1) of
               (r, messages'', effects') \<Rightarrow>
                 (r, messages'', Attempt retryCount # effects @ Sleep RETRY_DELAY # effects'))
          else (Throw e, messages', Attempt retryCount # effects)
      | (r, messages', effects) \<Rightarrow> (r, messages', Attempt retryCount # effects))"
  by pat_completeness auto
termination
  by (relation "measure (\<lambda>(P, W, messages, refConvId, retryCount). MAX_RETRY_COUNT - retryCount)")
     (auto simp: MAX_RETRY_COUNT_def)

declare createCompletionStream.simps [simp del]

section \<open>Reading an outcome\<close>

definition isThrow :: "'a outcome \<Rightarrow> bool" where
  "isThrow r = (case r of Throw _ \<Rightarrow> True | _ \<Rightarrow> False)"

definition isReturn :: "'a outcome \<Rightarrow> bool" where
  "isReturn r = (case r of Return _ \<Rightarrow> True | _ \<Rightarrow> False)"

text \<open>The frames that a returned stream carries; none when no stream is returned.\<close>

definition framesOf :: "pass_through outcome \<Rightarrow> frame list" where
  "framesOf r = (case r of Return t \<Rightarrow> written t | _ \<Rightarrow> [])"

section \<open>Reading an upload\<close>







section \<open>Concrete inputs\<close>

text \<open>
  The values at which the theorems below are instantiated. \<open>plainPlatform\<close> gives the
  helpers on the inputs used here: no inline data, the URL \<^verbatim>\<open>http://h/a.png\<close> with its
  base name, extension and media type.
\<close>

definition plainPlatform :: platform where
  "plainPlatform =
     \<lparr> isBASE64Data = (\<lambda>s. False),
       isBASE64 = (\<lambda>s. False),
       isURL = (\<lambda>s. startsWith s (S ''http://'')),
       extractBASE64DataFormat = (\<lambda>s. []),
       removeBASE64DataHeader = (\<lambda>s. s),
       base64Decode = (\<lambda>s. []),
       mimeGetExtension = (\<lambda>s. if s = S ''image/png'' then S ''png'' else []),
       mimeGetType = (\<lambda>s. if s = S ''a.png'' then S ''image/png'' else []),
       basename = lastSegment,
       extname = (\<lambda>s. if s = S ''a.png'' then S ''.png'' else []),
       toLowerCase = (\<lambda>s. s),
       uuid = S ''00000000-0000-4000-8000-000000000000'',
       crc32 = (\<lambda>bs. 0),
       sniffImageSize = (\<lambda>bs m. None) \<rparr>"

definition helloMessage :: message where
  "helloMessage = \<lparr> role = S ''user'', content = CText (S ''hello'') \<rparr>"

definition imageMessage :: message where
  "imageMessage =
     \<lparr> role = S ''user'',
       content = CParts
         [PObj (S ''text'') (S ''what is this'') None ImgAbsent,
          PObj (S ''image_url'') [] None (ImgObj (Some (S ''http://h/a.png'')))] \<rparr>"

text \<open>
  A message of plain text, a staged image that becomes an attachment, and a run of 600
  base64 characters followed by 70 dots.
\<close>

definition base64Run :: jstring where
  "base64Run = replicate 600 0x41 @ replicate 70 0x2E"


definition textMessage :: "jstring \<Rightarrow> message" where
  "textMessage s = \<lparr> role = S ''user'', content = CText s \<rparr>"

text \<open>A network whose probe answers with the given status and that offers nothing else.\<close>

definition probeNetwork :: "nat \<Rightarrow> network" where
  "probeNetwork status =
     \<lparr> headProbe = (\<lambda>u. HeadReply status None),
       download = (\<lambda>u. Some [0x89, 0x50, 0x4E, 0x47]),
       acquireUploadAuth = (\<lambda>t. None),
       applyImageUpload = (\<lambda>a n e. None),
       tosSend = (\<lambda>r. NoReply) \<rparr>"

text \<open>An upstream service that always gives the same reply.\<close>

definition fixedEnv :: "network \<Rightarrow> chat_reply \<Rightarrow> jstring env" where
  "fixedEnv N reply =
     \<lparr> env_network = N, env_chat = (\<lambda>p. reply), env_feed = lineFeed, env_parser = [],
       env_json = \<lparr> parseRaw = (\<lambda>s. None), parseResult = (\<lambda>s. None), parseContent = (\<lambda>s. None) \<rparr> \<rparr>"

text \<open>
  Three frames of the upstream service with what \<^verbatim>\<open>JSON.parse\<close> makes of them: a delta
  whose text is the character U+4F60, a delta that carries \<^verbatim>\<open>is_finish\<close> and the frame
  of type 2003 that closes the stream. \<open>tableJson\<close> is \<^verbatim>\<open>JSON.parse\<close> on these
  texts. The bytes of the delta frame are given in two parts, cut inside the three bytes of
  the character.
\<close>

definition deltaData :: jstring where
  \<open>deltaData =
     S ''{"event_type":2001,"event_data":"{'' @ [0x5C] @ S ''"message'' @ [0x5C] @ S ''":{''
     @ [0x5C] @ S ''"content'' @ [0x5C] @ S ''":'' @ [0x5C] @ S ''"{'' @ [0x5C, 0x5C, 0x5C]
     @ S ''"text'' @ [0x5C, 0x5C, 0x5C] @ S ''":'' @ [0x5C, 0x5C, 0x5C] @ S ''"''
     @ [0x4F60, 0x5C, 0x5C, 0x5C] @ S ''"}'' @ [0x5C] @ S ''"}}"}''\<close>

definition deltaEventData :: jstring where
  \<open>deltaEventData =
     S ''{"message":{"content":"{'' @ [0x5C] @ S ''"text'' @ [0x5C] @ S ''":'' @ [0x5C]
     @ S ''"'' @ [0x4F60, 0x5C] @ S ''"}"}}''\<close>

definition deltaContent :: jstring where
  \<open>deltaContent =
     S ''{"text":"'' @ [0x4F60] @ S ''"}''\<close>

definition finishData :: jstring where
  \<open>finishData =
     S ''{"event_type":2001,"event_data":"{'' @ [0x5C] @ S ''"conversation_id'' @ [0x5C]
     @ S ''":'' @ [0x5C] @ S ''"c1'' @ [0x5C] @ S ''",'' @ [0x5C] @ S ''"is_finish'' @ [0x5C]
     @ S ''":true}"}''\<close>

definition finishEventData :: jstring where
  \<open>finishEventData =
     S ''{"conversation_id":"c1","is_finish":true}''\<close>

definition closedData :: jstring where
  \<open>closedData =
     S ''{"event_type":2003}''\<close>

definition tableJson :: json_api where
  "tableJson =
     \<lparr> parseRaw = (\<lambda>s.
         if s = deltaData
         then Some (JsVal \<lparr> rr_code = 0, rr_message = [], event_type = 2001, event_data = deltaEventData \<rparr>)
         else if s = finishData
         then Some (JsVal \<lparr> rr_code = 0, rr_message = [], event_type = 2001, event_data = finishEventData \<rparr>)
         else if s = closedData
         then Some (JsVal \<lparr> rr_code = 0, rr_message = [], event_type = 2003, event_data = S ''undefined'' \<rparr>)
         else None),
       parseResult = (\<lambda>s.
         if s = deltaEventData
         then Some (JsVal \<lparr> is_finish = False, conversation_id = None, message_content = deltaContent \<rparr>)
         else if s = finishEventData
         then Some (JsVal \<lparr> is_finish = True, conversation_id = Some (S ''c1''), message_content = [] \<rparr>)
         else None),
       parseContent = (\<lambda>s.
         if s = deltaContent then Some (JsVal (CJObj (Some [0x4F60]) None None)) else None) \<rparr>"

definition deltaWireHead :: "byte list" where
  \<open>deltaWireHead =
     B ''data: {"event_type":2001,"event_data":"{'' @ [0x5C] @ B ''"message'' @ [0x5C]
     @ B ''":{'' @ [0x5C] @ B ''"content'' @ [0x5C] @ B ''":'' @ [0x5C] @ B ''"{''
     @ [0x5C, 0x5C, 0x5C] @ B ''"text'' @ [0x5C, 0x5C, 0x5C] @ B ''":'' @ [0x5C, 0x5C, 0x5C]
     @ B ''"'' @ [0xE4]\<close>

definition deltaWireTail :: "byte list" where
  \<open>deltaWireTail =
     [0xBD, 0xA0, 0x5C, 0x5C, 0x5C] @ B ''"}'' @ [0x5C] @ B ''"}}"}'' @ [0x0A, 0x0A]\<close>

definition deltaWire :: "byte list" where
  "deltaWire = deltaWireHead @ deltaWireTail"

definition finishWire :: "byte list" where
  \<open>finishWire =
     B ''data: {"event_type":2001,"event_data":"{'' @ [0x5C] @ B ''"conversation_id''
     @ [0x5C] @ B ''":'' @ [0x5C] @ B ''"c1'' @ [0x5C] @ B ''",'' @ [0x5C] @ B ''"is_finish''
     @ [0x5C] @ B ''":true}"}'' @ [0x0A, 0x0A]\<close>

definition closedWire :: "byte list" where
  \<open>closedWire =
     B ''data: {"event_type":2003}'' @ [0x0A, 0x0A]\<close>

text \<open>
  A frame that carries an error code of the upstream service, with what \<^verbatim>\<open>JSON.parse\<close>
  makes of it.
\<close>

definition errorData :: jstring where
  \<open>errorData = S ''{"code":710022004,"message":"busy"}''\<close>

definition errorWire :: "byte list" where
  \<open>errorWire = B ''data: {"code":710022004,"message":"busy"}'' @ [0x0A, 0x0A]\<close>

definition errorJson :: json_api where
  "errorJson =
     \<lparr> parseRaw = (\<lambda>s.
         if s = errorData
         then Some (JsVal \<lparr> rr_code = 710022004, rr_message = S ''busy'', event_type = 0, event_data = [] \<rparr>)
         else None),
       parseResult = (\<lambda>s. None),
       parseContent = (\<lambda>s. None) \<rparr>"

text \<open>
  An upstream service that answers every call with an event stream of the given events,
  and a world whose first run meets a call that fails and whose later runs are answered.
\<close>

definition streamEnv :: "json_api \<Rightarrow> stream_event list \<Rightarrow> jstring env" where
  "streamEnv J events =
     \<lparr> env_network = probeNetwork 200,
       env_chat = (\<lambda>p. ChatResponse (Some (S ''text/event-stream; charset=utf-8'')) events),
       env_feed = lineFeed, env_parser = [], env_json = J \<rparr>"

definition flakyWorld :: "nat \<Rightarrow> jstring env" where
  "flakyWorld n =
     (if n = 0 then fixedEnv (probeNetwork 200) ChatFail
      else streamEnv tableJson [Data deltaWire, Data finishWire, StreamClose])"

text \<open>The message list after \<open>k\<close> insertions of the synthetic message before the last one.\<close>

definition grown :: "message list \<Rightarrow> nat \<Rightarrow> message list" where
  "grown ms k = butlast ms @ replicate k newFileMessage @ [last ms]"

section \<open>Reading a checksum header and a transfer\<close>

text \<open>The value of a string of hexadecimal digits, to say what a header encodes.\<close>

definition isLowerHex :: "nat \<Rightarrow> bool" where
  "isLowerHex c = ((0x30 \<le> c \<and> c \<le> 0x39) \<or> (0x61 \<le> c \<and> c \<le> 0x66))"

definition hexDigitValue :: "nat \<Rightarrow> nat" where
  "hexDigitValue c = (if c \<le> 0x39 then c - 0x30 else c - 0x57)"

definition hexValue :: "jstring \<Rightarrow> nat" where
  "hexValue s = foldl (\<lambda>acc c. 16 * acc + hexDigitValue c) 0 s"

text \<open>When the specification counts a binary transfer as failed, by the reply it gets.\<close>

definition transferFails :: "http_reply \<Rightarrow> bool" where
  "transferFails reply =
     (case reply of
        NoReply \<Rightarrow> True
      | Reply status code \<Rightarrow> status < 200 \<or> 300 \<le> status \<or> \<not> codeIs2000 code)"

section \<open>Reading a percent encoding\<close>

text \<open>
  What \<^verbatim>\<open>rfc3986Encode\<close> makes of one byte, and the bytes of a code point as numbers:
  the terms in which the encoding is shown to lose nothing.
\<close>

definition isRfcUnreserved :: "nat \<Rightarrow> bool" where
  "isRfcUnreserved c = (isAlnum c \<or> c = 0x2D \<or> c = 0x5F \<or> c = 0x2E \<or> c = 0x7E)"

definition rfcByte :: "byte \<Rightarrow> jstring" where
  "rfcByte b = (if isRfcUnreserved (unat b) then [unat b] else percentByte b)"

definition natBytes :: "nat \<Rightarrow> nat list" where
  "natBytes cp =
     (if cp < 0x80 then [cp]
      else if cp < 0x800 then [0xC0 + cp div 64, 0x80 + cp mod 64]
      else if cp < 0x10000 then [0xE0 + cp div 4096, 0x80 + cp div 64 mod 64, 0x80 + cp mod 64]
      else [0xF0 + cp div 262144, 0x80 + cp div 4096 mod 64, 0x80 + cp div 64 mod 64,
            0x80 + cp mod 64])"

text \<open>
  A clock reading, options and a stand-in for the two digests, to instantiate the signer:
  the length of the text for SHA-256 and the sum of its code units for the HMAC.
  \<open>signFileSize\<close> is the signature of a request with the given canonical query.
\<close>

definition someDate :: date where
  "someDate = \<lparr> utcFullYear = 2025, utcMonth = 0, utcDate = 15, utcHours = 8, utcMinutes = 30,
                 utcSeconds = 5, utcMilliseconds = 250 \<rparr>"

definition plainOpts :: sign_opts where
  "plainOpts = \<lparr> opt_payloadHash = None, opt_signContentSha256 = False \<rparr>"

definition toyCrypto :: crypto where
  "toyCrypto = \<lparr> sha256 = (\<lambda>s. of_nat (length s)), hmacSha256 = (\<lambda>k s. of_nat (sum_list s)) \<rparr>"

definition signFileSize :: "jstring \<Rightarrow> authorization" where
  "signFileSize q =
     signCanonical toyCrypto someDate (S ''GET'') (S ''imagex.bytedanceapi.com'') (S ''/'') q
       (S ''token'') (S ''AK'') (S ''SK'') IMAGEX_REGION IMAGEX_SERVICE plainOpts"


section \<open>Properties of the message packer\<close>

lemma foldl_flattenPart:
  "foldl flattenPart acc vs = acc @ concat (map (\<lambda>v. ptext v @ [LF]) (filter isTextPart vs))"
  by (induction vs arbitrary: acc) (simp_all add: flattenPart_def)

lemma flattenMessage_flattenedText: "flattenMessage acc m = acc @ flattenedText m"
  by (simp add: flattenMessage_def flattenedText_def foldl_flattenPart split: content.split)

lemma foldl_flattenMessage:
  "foldl flattenMessage acc ms = acc @ concat (map flattenedText ms)"
  by (induction ms arbitrary: acc) (simp_all add: flattenMessage_flattenedText)

lemma flattenMessages_concat: "flattenMessages ms = concat (map flattenedText ms)"
  by (simp add: flattenMessages_def foldl_flattenMessage)

lemma spliceBeforeLast_snoc: "spliceBeforeLast x (ms @ [m]) = ms @ [x, m]"
  by (simp add: spliceBeforeLast_def)

lemma lastText_spliceBeforeLast: "ms \<noteq> [] \<Longrightarrow> lastText (spliceBeforeLast x ms) = lastText ms"
  by (cases ms rule: rev_cases) (simp_all add: spliceBeforeLast_snoc lastText_def)

lemma messagesPrepare_splice:
  assumes "2 \<le> length ms" and "hasFileOrImage (last ms)"
  shows "snd (messagesPrepare isBase64 ms refs False) = butlast ms @ [newFileMessage, last ms]"
proof -
  from assms(1) obtain ms' m where ms: "ms = ms' @ [m]"
    by (cases ms rule: rev_cases) auto
  show ?thesis
    using assms by (auto simp: ms messagesPrepare_def Let_def spliceBeforeLast_snoc)
qed

lemmas packer_eval =
  messagesPrepare_def flattenMessages_def flattenMessage_def flattenPart_def isTextPart_def
  buildAttachments_def isRawImageRef_def isStagedKey_def truthyDim_def dimOr1_def
  attachmentOf_def lastSegment_def lastText_def hasFileOrImage_def isFileOrImagePart_def
  spliceBeforeLast_def newFileMessage_def newFileMessageText_def mergeMessages_def
  mergeMessage_def mergePart_def roleTag_def cleanTextContent_def cleanBase64_def
  matchDataUriLoose_def matchDataUri_def matchDataUriPrefix_def matchLongB64_def
  matchMdImage_def matchMntData_def looksBase64Line_def startsWith_def trim_def
  isWhite_def isB64_def isDot_def LF_def CR_def flattenedText_def List.map_filter_def


lemma matchDataUriLoose_None: "matchDataUriPrefix s = None \<Longrightarrow> matchDataUriLoose s = None"
  by (simp add: matchDataUriLoose_def)

lemma scan_none: "prefixFree s [] \<Longrightarrow> replaceAll matchDataUriLoose s = s"
  by (induction s) (simp_all add: matchDataUriLoose_None)

lemma matchDataUriPrefix_pos: "matchDataUriPrefix s = Some n \<Longrightarrow> 0 < n \<and> s \<noteq> []"
  by (auto simp: matchDataUriPrefix_def Let_def startsWith_def split: if_splits)

lemma scan_match:
  assumes "matchDataUriPrefix s = Some n"
  shows "replaceAll matchDataUriLoose s = replaceAll matchDataUriLoose (dropWhile isB64 (drop n s))"
proof -
  from matchDataUriPrefix_pos [OF assms] obtain c cs k where s: "s = c # cs" and n: "n = Suc k"
    by (cases s; cases n) auto
  let ?len = "length (takeWhile isB64 (drop n s))"
  have m: "matchDataUriLoose s = Some (Suc (k + ?len))"
    using assms n by (simp add: matchDataUriLoose_def)
  have "drop (k + ?len) cs = drop ?len (drop n s)"
    by (simp add: s n add.commute)
  also have "\<dots> = dropWhile isB64 (drop n s)"
    by (simp add: dropWhile_eq_drop)
  finally show ?thesis using m by (simp add: s)
qed

lemma scan_first:
  assumes "prefixFree a s" and "matchDataUriPrefix s = Some n"
  shows "replaceAll matchDataUriLoose (a @ s)
           = a @ replaceAll matchDataUriLoose (dropWhile isB64 (drop n s))"
  using assms
proof (induction a)
  case Nil
  then show ?case by (simp add: scan_match)
next
  case (Cons c cs)
  then show ?case by (simp add: matchDataUriLoose_None)
qed

lemma takeWhile_to_semicolon:
  "0x3B \<notin> set t \<Longrightarrow> takeWhile (\<lambda>c. c \<noteq> 0x3B) (t @ 0x3B # r) = t"
  by (induction t) auto

lemma prefix_shape:
  assumes "t \<noteq> []" and "0x3B \<notin> set t"
  shows "matchDataUriPrefix (S ''data:'' @ t @ S '';base64,'' @ r) = Some (13 + length t)"
  using assms
  by (simp add: matchDataUriPrefix_def startsWith_def takeWhile_to_semicolon Let_def)

lemma drop_length_append: "length pre = n \<Longrightarrow> drop n (pre @ r) = r"
  by simp

lemma drop_data_uri:
  "drop (13 + length t) (S ''data:'' @ t @ S '';base64,'' @ r) = r"
proof -
  have "length (S ''data:'' @ t @ S '';base64,'') = 13 + length t" by simp
  then have "drop (13 + length t) ((S ''data:'' @ t @ S '';base64,'') @ r) = r"
    by (rule drop_length_append)
  then show ?thesis by (simp only: append_assoc)
qed

lemma scan_shape:
  assumes "prefixFree a (S ''data:'' @ t @ S '';base64,'' @ p @ b)"
    and "t \<noteq> []" and "0x3B \<notin> set t" and "\<forall>c \<in> set p. isB64 c" and "b = [] \<or> \<not> isB64 (hd b)"
  shows "replaceAll matchDataUriLoose (a @ S ''data:'' @ t @ S '';base64,'' @ p @ b)
           = a @ replaceAll matchDataUriLoose b"
proof -
  let ?s = "S ''data:'' @ t @ S '';base64,'' @ p @ b"
  have m: "matchDataUriPrefix ?s = Some (13 + length t)"
    using assms(2,3) by (rule prefix_shape)
  have "dropWhile isB64 (p @ b) = b"
    using assms(4,5) by (cases b) (simp_all add: dropWhile_append)
  then have "dropWhile isB64 (drop (13 + length t) ?s) = b"
    by (simp only: drop_data_uri)
  with scan_first [OF assms(1) m] show ?thesis by simp
qed

lemma splitLines_nonempty: "splitLines s \<noteq> []"
  by (induction s) (auto split: list.splits)

lemma joinWith_Cons2: "ls \<noteq> [] \<Longrightarrow> joinWith sep (l # ls) = l @ sep @ joinWith sep ls"
  by (cases ls) simp_all

lemma join_split: "CR \<notin> set s \<Longrightarrow> joinWith [LF] (splitLines s) = s"
proof (induction s)
  case Nil
  then show ?case by simp
next
  case (Cons c cs)
  obtain l ls where sp: "splitLines cs = l # ls"
    using splitLines_nonempty [of cs] by (cases "splitLines cs") auto
  from Cons have ih: "joinWith [LF] (l # ls) = cs" by (simp add: sp)
  show ?case
  proof (cases "c = LF")
    case True
    then show ?thesis using ih by (simp add: sp joinWith_Cons2)
  next
    case False
    with Cons.prems have "c \<noteq> CR" by auto
    with False ih show ?thesis by (cases ls) (simp_all add: sp)
  qed
qed

lemma cleanBase64_plain:
  assumes "prefixFree s []" and "CR \<notin> set s" and "\<forall>l \<in> set (splitLines s). \<not> looksBase64Line l"
  shows "cleanBase64 s = trim s"
proof -
  have "filter (\<lambda>line. \<not> looksBase64Line line) (splitLines s) = splitLines s"
    using assms(3) by (simp add: filter_id_conv)
  then show ?thesis
    using assms(1,2) by (simp add: cleanBase64_def scan_none join_split)
qed

lemma trim_white_Cons: "isWhite c \<Longrightarrow> trim (c # l) = trim l"
  by (simp add: trim_def)

lemma dropWhile_all: "\<forall>x \<in> set l. P x \<Longrightarrow> dropWhile P l = []"
  by (induction l) auto

lemma trim_white_snoc:
  assumes "isWhite c"
  shows "trim (l @ [c]) = trim l"
proof (cases "\<forall>x \<in> set l. isWhite x")
  case True
  with assms have "\<forall>x \<in> set (l @ [c]). isWhite x" by simp
  then have a: "dropWhile isWhite (l @ [c]) = []" by (rule dropWhile_all)
  from True have b: "dropWhile isWhite l = []" by (rule dropWhile_all)
  show ?thesis unfolding trim_def a b ..
next
  case False
  then obtain x where "x \<in> set l" "\<not> isWhite x" by blast
  then have "dropWhile isWhite (l @ [c]) = dropWhile isWhite l @ [c]"
    by (rule dropWhile_append1)
  then show ?thesis unfolding trim_def using assms by simp
qed

lemma looks_white_Cons: "isWhite c \<Longrightarrow> looksBase64Line (c # l) = looksBase64Line l"
  by (simp add: looksBase64Line_def trim_white_Cons)

lemma looks_white_snoc: "isWhite c \<Longrightarrow> looksBase64Line (l @ [c]) = looksBase64Line l"
  by (simp add: looksBase64Line_def trim_white_snoc)

lemma looks_Nil: "\<not> looksBase64Line []"
  by (simp add: looksBase64Line_def trim_def)

lemma white_LF_CR: "isWhite LF" "isWhite CR"
  by (simp_all add: isWhite_def LF_def CR_def)

lemma splitLines_seam:
  assumes "\<not> (x \<noteq> [] \<and> last x = CR \<and> y \<noteq> [] \<and> hd y = LF)"
  shows "splitLines (x @ y)
           = butlast (splitLines x) @ [last (splitLines x) @ hd (splitLines y)] @ tl (splitLines y)"
  using assms
proof (induction x)
  case Nil
  then show ?case using splitLines_nonempty [of y] by simp
next
  case (Cons d ds)
  obtain l r where L: "splitLines ds = l # r"
    using splitLines_nonempty [of ds] by (cases "splitLines ds") auto
  have seam: "\<not> (ds \<noteq> [] \<and> last ds = CR \<and> y \<noteq> [] \<and> hd y = LF)"
    using Cons.prems by auto
  note ih = Cons.IH [OF seam]
  show ?case
  proof (cases "d = LF")
    case True
    then show ?thesis using ih by (simp add: L)
  next
    case notLF: False
    show ?thesis
    proof (cases "d = CR \<and> take 1 (ds @ y) = [LF]")
      case True
      then have "ds \<noteq> []" using Cons.prems by (cases y) (auto simp: LF_def CR_def)
      with True have "take 1 ds = [LF]" by (cases ds) auto
      with True notLF ih show ?thesis by simp
    next
      case False
      then have f2: "\<not> (d = CR \<and> take 1 ds = [LF])" by (cases ds) auto
      show ?thesis
        using notLF False f2 ih by (cases r) (simp_all add: L)
    qed
  qed
qed


lemma splitLines_no_LF: "l \<in> set (splitLines s) \<Longrightarrow> LF \<notin> set l"
proof (induction s arbitrary: l)
  case Nil
  then show ?case by simp
next
  case (Cons c cs)
  obtain l0 r where L: "splitLines cs = l0 # r"
    using splitLines_nonempty [of cs] by (cases "splitLines cs") auto
  from Cons.prems Cons.IH show ?case
    by (auto simp: L split: if_splits)
qed

lemma CR_not_LF: "CR \<noteq> LF"
  by (simp add: LF_def CR_def)

lemma splitLines_single: "LF \<notin> set l \<Longrightarrow> splitLines l = [l]"
proof (induction l)
  case Nil
  then show ?case by simp
next
  case (Cons c cs)
  then have "take 1 cs \<noteq> [LF]" by (cases cs) auto
  with Cons show ?case by simp
qed

lemma looks_stripCR: "looksBase64Line (stripCR l) = looksBase64Line l"
proof (cases "l \<noteq> [] \<and> last l = CR")
  case True
  then have "l = butlast l @ [CR]" by (metis append_butlast_last_id)
  then have "looksBase64Line l = looksBase64Line (butlast l)"
    using looks_white_snoc [OF white_LF_CR(2), of "butlast l"] by simp
  with True show ?thesis by (simp add: stripCR_def)
next
  case False
  then show ?thesis by (auto simp: stripCR_def)
qed

lemma splitLines_line_LF:
  assumes "LF \<notin> set l"
  shows "splitLines (l @ LF # x) = stripCR l # splitLines x"
proof (cases "l \<noteq> [] \<and> last l = CR")
  case True
  then obtain l' where l': "l = l' @ [CR]" by (metis append_butlast_last_id)
  with assms have nl: "LF \<notin> set l'" by simp
  have "splitLines (l' @ (CR # LF # x))
          = butlast (splitLines l') @ [last (splitLines l') @ hd (splitLines (CR # LF # x))]
              @ tl (splitLines (CR # LF # x))"
    by (rule splitLines_seam) (simp add: CR_not_LF)
  then show ?thesis
    using True CR_not_LF by (simp add: l' splitLines_single [OF nl] stripCR_def)
next
  case False
  have "splitLines (l @ (LF # x))
          = butlast (splitLines l) @ [last (splitLines l) @ hd (splitLines (LF # x))]
              @ tl (splitLines (LF # x))"
    by (rule splitLines_seam) (use False in auto)
  then show ?thesis
    using False by (auto simp: splitLines_single [OF assms] stripCR_def)
qed

lemma join_no_base64_line:
  assumes "\<forall>l \<in> set ls. LF \<notin> set l \<and> \<not> looksBase64Line l"
  shows "\<not> hasBase64Line (joinWith [LF] ls)"
  using assms
proof (induction ls)
  case Nil
  then show ?case by (simp add: hasBase64Line_def looks_Nil)
next
  case (Cons l ls)
  show ?case
  proof (cases ls)
    case Nil
    with Cons.prems show ?thesis
      by (simp add: hasBase64Line_def splitLines_single)
  next
    case (Cons m ms)
    with Cons.prems Cons.IH show ?thesis
      by (simp add: hasBase64Line_def splitLines_line_LF looks_stripCR)
  qed
qed

lemma drop_white_head:
  assumes "isWhite c" and "\<not> hasBase64Line (c # cs)"
  shows "\<not> hasBase64Line cs"
proof -
  obtain l r where L: "splitLines cs = l # r"
    using splitLines_nonempty [of cs] by (cases "splitLines cs") auto
  from assms show ?thesis
    by (auto simp: hasBase64Line_def L looks_white_Cons looks_Nil split: if_splits)
qed

lemma dropWhile_no_base64_line:
  "\<not> hasBase64Line x \<Longrightarrow> \<not> hasBase64Line (dropWhile isWhite x)"
  by (induction x) (auto dest: drop_white_head)


lemma list_ex_butlast_snoc:
  "L \<noteq> [] \<Longrightarrow> list_ex P (butlast L @ [x]) = (list_ex P (butlast L) \<or> P x)"
  by simp

lemma list_ex_split_last:
  "L \<noteq> [] \<Longrightarrow> list_ex P L = (list_ex P (butlast L) \<or> P (last L))"
  by (induction L) auto

lemma drop_white_last:
  assumes w: "isWhite c" and h: "\<not> hasBase64Line (y @ [c])"
  shows "\<not> hasBase64Line y"
proof (cases "c = LF \<and> y \<noteq> [] \<and> last y = CR")
  case True
  then obtain y' where y': "y = y' @ [CR]" by (metis append_butlast_last_id)
  let ?L = "splitLines y'"
  have ne: "?L \<noteq> []" by (rule splitLines_nonempty)
  have "splitLines (y' @ [CR, LF])
          = butlast ?L @ [last ?L @ hd (splitLines [CR, LF])] @ tl (splitLines [CR, LF])"
    by (rule splitLines_seam) (simp add: CR_not_LF)
  then have a: "splitLines (y' @ [CR, LF]) = butlast ?L @ [last ?L] @ [[]]"
    using CR_not_LF by simp
  have "splitLines (y' @ [CR])
          = butlast ?L @ [last ?L @ hd (splitLines [CR])] @ tl (splitLines [CR])"
    by (rule splitLines_seam) (simp add: CR_not_LF)
  then have b: "splitLines (y' @ [CR]) = butlast ?L @ [last ?L @ [CR]]"
    using CR_not_LF by simp
  from h True have "\<not> list_ex looksBase64Line (butlast ?L @ [last ?L] @ [[]])"
    by (simp add: hasBase64Line_def y' a)
  then have "\<not> list_ex looksBase64Line (butlast ?L @ [last ?L @ [CR]])"
    by (simp add: looks_white_snoc white_LF_CR)
  then show ?thesis by (simp add: hasBase64Line_def y' b)
next
  case False
  let ?L = "splitLines y"
  have ne: "?L \<noteq> []" by (rule splitLines_nonempty)
  have seam: "splitLines (y @ [c])
          = butlast ?L @ [last ?L @ hd (splitLines [c])] @ tl (splitLines [c])"
    by (rule splitLines_seam) (use False in auto)
  have L: "list_ex looksBase64Line ?L
             = (list_ex looksBase64Line (butlast ?L) \<or> looksBase64Line (last ?L))"
    using ne by (rule list_ex_split_last)
  show ?thesis
  proof (cases "c = LF")
    case True
    with seam have "splitLines (y @ [c]) = butlast ?L @ [last ?L] @ [[]]" by simp
    with h L show ?thesis by (simp add: hasBase64Line_def)
  next
    case False
    with seam have "splitLines (y @ [c]) = butlast ?L @ [last ?L @ [c]]" by simp
    with h L w show ?thesis by (simp add: hasBase64Line_def looks_white_snoc)
  qed
qed

lemma rtrim_no_base64_line:
  "\<not> hasBase64Line x \<Longrightarrow> \<not> hasBase64Line (rev (dropWhile isWhite (rev x)))"
proof (induction x rule: rev_induct)
  case Nil
  then show ?case by simp
next
  case (snoc c cs)
  show ?case
  proof (cases "isWhite c")
    case True
    from True snoc.prems have "\<not> hasBase64Line cs" by (rule drop_white_last)
    with snoc.IH True show ?thesis by simp
  next
    case False
    with snoc.prems show ?thesis by simp
  qed
qed

lemma cleanBase64_no_base64_line: "\<not> hasBase64Line (cleanBase64 s)"
proof -
  let ?ls = "filter (\<lambda>line. \<not> looksBase64Line line) (splitLines (replaceAll matchDataUriLoose s))"
  have "\<forall>l \<in> set ?ls. LF \<notin> set l \<and> \<not> looksBase64Line l"
    by (auto dest: splitLines_no_LF)
  then have "\<not> hasBase64Line (joinWith [LF] ?ls)" by (rule join_no_base64_line)
  then have "\<not> hasBase64Line (dropWhile isWhite (joinWith [LF] ?ls))"
    by (rule dropWhile_no_base64_line)
  then have "\<not> hasBase64Line (rev (dropWhile isWhite (rev (dropWhile isWhite (joinWith [LF] ?ls)))))"
    by (rule rtrim_no_base64_line)
  then show ?thesis by (simp add: cleanBase64_def trim_def)
qed

lemma scan_free:
  "prefixFree a b \<Longrightarrow> replaceAll matchDataUriLoose (a @ b) = a @ replaceAll matchDataUriLoose b"
  by (induction a) (simp_all add: matchDataUriLoose_None)

lemma cleanBase64_data_uri:
  assumes "prefixFree a (S ''data:'' @ t @ S '';base64,'' @ p @ b)" and "prefixFree a b"
    and "t \<noteq> []" and "0x3B \<notin> set t" and "\<forall>c \<in> set p. isB64 c" and "b = [] \<or> \<not> isB64 (hd b)"
  shows "cleanBase64 (a @ S ''data:'' @ t @ S '';base64,'' @ p @ b) = cleanBase64 (a @ b)"
proof -
  have "replaceAll matchDataUriLoose (a @ S ''data:'' @ t @ S '';base64,'' @ p @ b)
          = a @ replaceAll matchDataUriLoose b"
    using assms(1,3-6) by (rule scan_shape)
  also have "\<dots> = replaceAll matchDataUriLoose (a @ b)"
    using assms(2) by (simp add: scan_free)
  finally show ?thesis unfolding cleanBase64_def by (simp only:)
qed

lemma cleanBase64_plain_text:
  assumes "prefixFree s []" and "CR \<notin> set s" and "\<not> hasBase64Line s"
  shows "cleanBase64 s = trim s"
  using assms by (intro cleanBase64_plain) (simp_all add: hasBase64Line_def list_ex_iff)

lemma messagesPrepare_text:
  "text_of (fst (messagesPrepare isBase ms refs isRefConv)) =
     cleanBase64
       (if buildAttachments refs \<noteq> [] then lastText ms
        else if isRefConv \<or> length ms < 2 then flattenMessages ms
        else mergeMessages isBase
               (if hasFileOrImage (last ms) then spliceBeforeLast newFileMessage ms else ms))"
  by (cases "ms = []") (auto simp: messagesPrepare_def Let_def lastText_spliceBeforeLast)


lemma prefixFree_no_d: "0x64 \<notin> set a \<Longrightarrow> prefixFree a r"
  by (induction a) (auto simp: matchDataUriPrefix_def startsWith_def)

lemma trim_clean_ends:
  assumes "s \<noteq> []" and "\<not> isWhite (hd s)" and "\<not> isWhite (last s)"
  shows "trim s = s"
proof -
  from assms(1,2) have a: "dropWhile isWhite s = s" by (cases s) simp_all
  from assms(1,3) have "dropWhile isWhite (rev s) = rev s"
    by (cases s rule: rev_cases) simp_all
  with a show ?thesis by (simp add: trim_def)
qed

lemma base64Run_facts:
  "prefixFree base64Run []" "CR \<notin> set base64Run" "LF \<notin> set base64Run"
  "trim base64Run = base64Run" "\<not> looksBase64Line base64Run" "\<not> hasBase64Line base64Run"
proof -
  show "prefixFree base64Run []"
    by (rule prefixFree_no_d) (simp add: base64Run_def)
  show "CR \<notin> set base64Run" by (simp add: base64Run_def CR_def)
  show lf: "LF \<notin> set base64Run" by (simp add: base64Run_def LF_def)
  have ne: "base64Run \<noteq> []" by (simp add: base64Run_def)
  have h: "hd base64Run = 0x41" by (simp add: base64Run_def hd_append)
  have l: "last base64Run = 0x2E" by (simp add: base64Run_def)
  show t: "trim base64Run = base64Run"
    by (rule trim_clean_ends) (simp_all add: ne h l isWhite_def)
  have "filter isB64 base64Run = replicate 600 0x41"
    by (simp add: base64Run_def isB64_def)
  then show lb: "\<not> looksBase64Line base64Run"
    by (simp add: looksBase64Line_def t) (simp add: base64Run_def)
  show "\<not> hasBase64Line base64Run"
    using lb by (simp add: hasBase64Line_def splitLines_single [OF lf])
qed



lemma base64Run_line_kept: "cleanBase64 (base64Run @ [LF]) = base64Run"
proof -
  have p: "prefixFree (base64Run @ [LF]) []"
    by (rule prefixFree_no_d) (simp add: base64Run_def LF_def)
  have c: "CR \<notin> set (base64Run @ [LF])"
    using base64Run_facts(2) CR_not_LF by simp
  have "splitLines (base64Run @ LF # []) = stripCR base64Run # splitLines []"
    using base64Run_facts(3) by (rule splitLines_line_LF)
  then have "\<not> hasBase64Line (base64Run @ [LF])"
    using base64Run_facts(5) by (simp add: hasBase64Line_def looks_stripCR looks_Nil)
  with p c have "cleanBase64 (base64Run @ [LF]) = trim (base64Run @ [LF])"
    by (rule cleanBase64_plain_text)
  then show ?thesis
    by (simp only: trim_white_snoc [OF white_LF_CR(1)] base64Run_facts(4))
qed


text \<open>
  Claim C7, as amended. For a conversation of fewer than two messages, and for one that
  continues an upstream conversation, the packer leaves the message list as it is and
  inserts no role delimiter. Its text is not the flattened text itself but what
  \<^const>\<open>cleanBase64\<close> makes of it, or of the text of the last message when an image
  attachment is kept. The cleaning goes through the text from the left and removes each
  data-URI prefix it meets with the run of base64 characters behind it, drops each line
  that, trimmed, has more than 200 characters of which more than nine tenths are base64
  characters, and trims the result, the final line feed included. So the packed text has
  no such line; a data URI with no prefix before it is removed whole, as long as the text
  before it and the text behind it do not make up a prefix of their own; and a text with
  no prefix, no such line and no carriage return is kept but for the trimming, whatever
  base64 runs it holds.
\<close>

theorem packer_short_conversation:
  assumes "isRefConv \<or> length ms < 2"
  shows "messagesPrepare isBase ms refs isRefConv =
           (\<lparr> text_of = cleanBase64 (if buildAttachments refs \<noteq> [] then lastText ms
                                        else concat (map flattenedText ms)),
              attachments = buildAttachments refs \<rparr>, ms)
       \<and> \<not> hasBase64Line (text_of (fst (messagesPrepare isBase ms refs isRefConv)))
       \<and> (prefixFree a (S ''data:'' @ t @ S '';base64,'' @ p @ b) \<and> prefixFree a b
            \<and> t \<noteq> [] \<and> 0x3B \<notin> set t \<and> (\<forall>c \<in> set p. isB64 c) \<and> (b = [] \<or> \<not> isB64 (hd b))
          \<longrightarrow> cleanBase64 (a @ S ''data:'' @ t @ S '';base64,'' @ p @ b) = cleanBase64 (a @ b))
       \<and> (prefixFree s [] \<and> CR \<notin> set s \<and> \<not> hasBase64Line s \<longrightarrow> cleanBase64 s = trim s)"
proof -
  have main: "messagesPrepare isBase ms refs isRefConv =
           (\<lparr> text_of = cleanBase64 (if buildAttachments refs \<noteq> [] then lastText ms
                                        else concat (map flattenedText ms)),
              attachments = buildAttachments refs \<rparr>, ms)"
    using assms by (auto simp: messagesPrepare_def Let_def flattenMessages_concat)
  have lines: "\<not> hasBase64Line (text_of (fst (messagesPrepare isBase ms refs isRefConv)))"
    by (simp only: messagesPrepare_text cleanBase64_no_base64_line not_False_eq_True)
  have uri: "cleanBase64 (a @ S ''data:'' @ t @ S '';base64,'' @ p @ b) = cleanBase64 (a @ b)"
    if "prefixFree a (S ''data:'' @ t @ S '';base64,'' @ p @ b) \<and> prefixFree a b
        \<and> t \<noteq> [] \<and> 0x3B \<notin> set t \<and> (\<forall>c \<in> set p. isB64 c) \<and> (b = [] \<or> \<not> isB64 (hd b))"
    using that by (intro cleanBase64_data_uri) simp_all
  have plain: "cleanBase64 s = trim s"
    if "prefixFree s [] \<and> CR \<notin> set s \<and> \<not> hasBase64Line s"
    using that by (intro cleanBase64_plain_text) simp_all
  from main lines uri plain show ?thesis by blast
qed

theorem packer_short_conversation_witness:
  "messagesPrepare (\<lambda>s. False)
       [textMessage (S ''see data:image/png;base64,iVBORw0KGgo= here'')] [] False
     = (\<lparr> text_of = S ''see  here'', attachments = [] \<rparr>,
        [textMessage (S ''see data:image/png;base64,iVBORw0KGgo= here'')])
   \<and> cleanBase64 (S ''see data:image/png;base64,iVBORw0KGgo= here'') = cleanBase64 (S ''see  here'')
   \<and> messagesPrepare (\<lambda>s. False) [textMessage base64Run] [] False
     = (\<lparr> text_of = base64Run, attachments = [] \<rparr>, [textMessage base64Run])
   \<and> cleanBase64 base64Run = base64Run"
proof -
  have m: "flattenedText (textMessage base64Run) = base64Run @ [LF]"
    by (simp add: flattenedText_def textMessage_def)
  have none: "buildAttachments [] = []"
    by (simp add: buildAttachments_def List.map_filter_def)
  have one: "messagesPrepare (\<lambda>s. False)
       [textMessage (S ''see data:image/png;base64,iVBORw0KGgo= here'')] [] False
     = (\<lparr> text_of = S ''see  here'', attachments = [] \<rparr>,
        [textMessage (S ''see data:image/png;base64,iVBORw0KGgo= here'')])"
    using packer_short_conversation
      [where isRefConv = False
         and ms = "[textMessage (S ''see data:image/png;base64,iVBORw0KGgo= here'')]"
         and isBase = "\<lambda>s. False" and refs = "[]"
         and a = "S ''see ''" and t = "S ''image/png''" and p = "S ''iVBORw0KGgo=''"
         and b = "S '' here''" and s = base64Run]
    by (simp add: packer_eval textMessage_def)
  have two: "cleanBase64 (S ''see data:image/png;base64,iVBORw0KGgo= here'') = cleanBase64 (S ''see  here'')"
    using packer_short_conversation
      [where isRefConv = False
         and ms = "[textMessage (S ''see data:image/png;base64,iVBORw0KGgo= here'')]"
         and isBase = "\<lambda>s. False" and refs = "[]"
         and a = "S ''see ''" and t = "S ''image/png''" and p = "S ''iVBORw0KGgo=''"
         and b = "S '' here''" and s = base64Run]
    by (simp add: matchDataUriPrefix_def startsWith_def isB64_def)
  have three: "messagesPrepare (\<lambda>s. False) [textMessage base64Run] [] False
     = (\<lparr> text_of = base64Run, attachments = [] \<rparr>, [textMessage base64Run])
     \<and> cleanBase64 base64Run = base64Run"
    using packer_short_conversation
      [where isRefConv = False and ms = "[textMessage base64Run]"
         and isBase = "\<lambda>s. False" and refs = "[]"
         and a = "[]" and t = "[]" and p = "[]" and b = "[]" and s = base64Run]
      base64Run_facts
    by (simp add: m none base64Run_line_kept)
  from one two three show ?thesis by simp
qed

text \<open>
  The claim as the specification states it fails for the single message \<^verbatim>\<open>hello\<close>: the
  flattened text ends with a line feed, the packed text does not.
\<close>

theorem packer_short_conversation_counterexample:
  "text_of (fst (messagesPrepare (\<lambda>s. False)
       [\<lparr> role = S ''user'', content = CText (S ''hello'') \<rparr>] [] False)) = S ''hello'' \<and>
   flattenedText \<lparr> role = S ''user'', content = CText (S ''hello'') \<rparr> = S ''hello'' @ [0x0A] \<and>
   text_of (fst (messagesPrepare (\<lambda>s. False)
       [\<lparr> role = S ''user'', content = CText (S ''hello'') \<rparr>] [] False))
     \<noteq> flattenedText \<lparr> role = S ''user'', content = CText (S ''hello'') \<rparr>"
  by (simp add: packer_eval)






section \<open>Properties of the completion orchestrator\<close>

lemma isThrow_simps [simp]:
  "isThrow (Throw e) = True" "isThrow (Return a) = False" "isThrow Pends = False"
  by (simp_all add: isThrow_def)

lemmas transcoder_eval =
  Let_def receiveStream_def rsStep_def rsOnData_def rsOnEvent_def rsFinish_def rsReject_def rsInit_def
  settle_def stripFinalLF_def shapeText_def truthyStr_def hasReplacement_def REPLACEMENT_def
  isCont_def second3_def second4_def low6_def codeUnits_def
  createTransStream_def tsStep_def tsOnData_def tsOnEvent_def tsFinish_def tsFail_def tsInit_def
  ptWrite_def ptEnd_def ptEndUnlessClosed_def ptSettle_def
  lineFeed_def frameEvent_def startsWith_def LF_def
  tableJson_def deltaData_def deltaEventData_def deltaContent_def finishData_def
  finishEventData_def closedData_def deltaWire_def deltaWireHead_def deltaWireTail_def finishWire_def closedWire_def

lemmas orchestrator_eval =
  completionBody_def streamBody_def uploadAll_def extractRefFileUrls_def partCandidate_def
  normalizeCandidate_def uploadFile_def checkFileUrl_def uploadStaged_def uploadToTos_def
  orElse_def dropLeadingDot_def resetRefConvId_def isAlnum_def MAX_RETRY_COUNT_def
  RETRY_DELAY_def FILE_MAX_SIZE_def plainPlatform_def helloMessage_def imageMessage_def
  probeNetwork_def fixedEnv_def unavailableStream_def ptEnd_def
  List.map_filter_def startsWith_def

lemma hello_packed:
  "messagesPrepare (isBASE64 plainPlatform) [helloMessage] [] (resetRefConvId [] \<noteq> [])
     = (\<lparr> text_of = S ''hello'', attachments = [] \<rparr>, [helloMessage])"
  by (simp add: packer_eval helloMessage_def resetRefConvId_def)

lemma resetRefConvId_empty: "resetRefConvId [] = []"
  by (simp add: resetRefConvId_def)

lemma resetRefConvId_idem: "resetRefConvId (resetRefConvId c) = resetRefConvId c"
  by (simp add: resetRefConvId_def)

lemma retry_closed_form:
  fixes f :: "message list \<Rightarrow> jstring \<Rightarrow> nat \<Rightarrow> 'a outcome \<times> message list \<times> effect list"
  assumes eq: "\<And>ms rc n. f ms rc n =
     (case body n ms rc of
        (Throw e, ms', effects) \<Rightarrow>
          if n < MAX_RETRY_COUNT then
            (case f ms' (resetRefConvId rc) (n + 1) of
               (r, ms'', effects') \<Rightarrow>
                 (r, ms'', Attempt n # effects @ Sleep RETRY_DELAY # effects'))
          else (Throw e, ms', Attempt n # effects)
      | (r, ms', effects) \<Rightarrow> (r, ms', Attempt n # effects))"
  shows "f ms rc 0 =
     (case body 0 ms rc of
        (Throw e0, m1, f0) \<Rightarrow>
          (case body 1 m1 (resetRefConvId rc) of
             (Throw e1, m2, f1) \<Rightarrow>
               (case body 2 m2 (resetRefConvId rc) of
                  (Throw e2, m3, f2) \<Rightarrow>
                    (case body 3 m3 (resetRefConvId rc) of
                       (r3, m4, f3) \<Rightarrow>
                         (r3, m4, Attempt 0 # f0 @ Sleep RETRY_DELAY # Attempt 1 # f1 @ Sleep RETRY_DELAY
                                    # Attempt 2 # f2 @ Sleep RETRY_DELAY # Attempt 3 # f3))
                | (r2, m3, f2) \<Rightarrow>
                    (r2, m3, Attempt 0 # f0 @ Sleep RETRY_DELAY # Attempt 1 # f1
                               @ Sleep RETRY_DELAY # Attempt 2 # f2))
           | (r1, m2, f1) \<Rightarrow> (r1, m2, Attempt 0 # f0 @ Sleep RETRY_DELAY # Attempt 1 # f1))
      | (r0, m1, f0) \<Rightarrow> (r0, m1, Attempt 0 # f0))"
proof -
  have c3: "f m c 3 = (case body 3 m c of (r, m', ef) \<Rightarrow> (r, m', Attempt 3 # ef))" for m c
    by (subst eq) (simp add: MAX_RETRY_COUNT_def split: prod.splits outcome.splits)
  have c2: "f m c 2 =
      (case body 2 m c of
         (Throw e, m', ef) \<Rightarrow>
           (case body 3 m' (resetRefConvId c) of
              (r, m'', ef') \<Rightarrow> (r, m'', Attempt 2 # ef @ Sleep RETRY_DELAY # Attempt 3 # ef'))
       | (r, m', ef) \<Rightarrow> (r, m', Attempt 2 # ef))" for m c
    using c3
    by (subst eq) (simp add: MAX_RETRY_COUNT_def eval_nat_numeral split: prod.splits outcome.splits)
  have c1: "f m c 1 =
      (case body 1 m c of
         (Throw e, m', ef) \<Rightarrow>
           (case body 2 m' (resetRefConvId c) of
              (Throw e2, m'', ef') \<Rightarrow>
                (case body 3 m'' (resetRefConvId c) of
                   (r, m3, ef3) \<Rightarrow>
                     (r, m3, Attempt 1 # ef @ Sleep RETRY_DELAY # Attempt 2 # ef'
                               @ Sleep RETRY_DELAY # Attempt 3 # ef3))
            | (r, m'', ef') \<Rightarrow> (r, m'', Attempt 1 # ef @ Sleep RETRY_DELAY # Attempt 2 # ef'))
       | (r, m', ef) \<Rightarrow> (r, m', Attempt 1 # ef))" for m c
    using c2
    by (subst eq)
       (simp add: resetRefConvId_idem MAX_RETRY_COUNT_def eval_nat_numeral
          split: prod.splits outcome.splits)
  show ?thesis
    using c1
    by (subst eq)
       (simp add: resetRefConvId_idem MAX_RETRY_COUNT_def eval_nat_numeral
          split: prod.splits outcome.splits)
qed


lemma isThrow_completionBody:
  "isThrow (fst (completionBody P E ms rc)) =
     (case uploadAll P (env_network E) ms of
        Inl e \<Rightarrow> True
      | Inr refs \<Rightarrow>
          (case env_chat E (fst (messagesPrepare (isBASE64 P) ms refs (resetRefConvId rc \<noteq> []))) of
             ChatFail \<Rightarrow> True
           | ChatResponse contentType events \<Rightarrow>
               (case contentType of
                  None \<Rightarrow> True
                | Some ct \<Rightarrow>
                    \<not> includesStr ct (S ''text/event-stream'')
                    \<or> (\<exists>e. receiveStream (env_feed E) (env_parser E) (env_json E) events = Rejected e))))"
  by (auto simp: completionBody_def Let_def
        split: sum.splits prod.splits chat_reply.splits option.splits promise.splits)

lemma isThrow_streamBody:
  "isThrow (fst (streamBody P E ms rc)) =
     (case uploadAll P (env_network E) ms of
        Inl e \<Rightarrow> True
      | Inr refs \<Rightarrow>
          (case env_chat E (fst (messagesPrepare (isBASE64 P) ms refs (resetRefConvId rc \<noteq> []))) of
             ChatFail \<Rightarrow> True
           | ChatResponse contentType events \<Rightarrow> contentType = None))"
  by (auto simp: streamBody_def Let_def
        split: sum.splits prod.splits chat_reply.splits option.splits)

lemma streamBody_settles:
  "isThrow (fst (streamBody P E ms rc)) \<or> isReturn (fst (streamBody P E ms rc))"
  by (auto simp: streamBody_def Let_def isReturn_def
        split: sum.splits prod.splits chat_reply.splits option.splits)

text \<open>
  Claim C5, as amended. Both modes wrap one run of the pipeline in the same loop: a run
  that throws is followed, while the retry count is below 3, by a delay of 5000
  milliseconds and another run of the whole pipeline, on the message list that the failed
  run has left; so a completion makes at most four runs and three delays, returns what
  the first run that does not throw returns, and raises the failure of the fourth run
  when all four throw. In buffered mode a run throws on every failure: of an upload, of
  the call, of the content type and of the transcoding. In streaming mode a run throws
  only when an upload or the call fails or the content type is missing; with a content
  type of another kind, and with an event stream whatever its frames are, it returns a
  stream, and nothing is retried.
\<close>

theorem completion_retry_bound:
  "createCompletion P W ms rc 0 =
     (case completionBody P (W 0) ms rc of
        (Throw e0, m1, f0) \<Rightarrow>
          (case completionBody P (W 1) m1 (resetRefConvId rc) of
             (Throw e1, m2, f1) \<Rightarrow>
               (case completionBody P (W 2) m2 (resetRefConvId rc) of
                  (Throw e2, m3, f2) \<Rightarrow>
                    (case completionBody P (W 3) m3 (resetRefConvId rc) of
                       (r3, m4, f3) \<Rightarrow>
                         (r3, m4, Attempt 0 # f0 @ Sleep RETRY_DELAY # Attempt 1 # f1 @ Sleep RETRY_DELAY
                                    # Attempt 2 # f2 @ Sleep RETRY_DELAY # Attempt 3 # f3))
                | (r2, m3, f2) \<Rightarrow>
                    (r2, m3, Attempt 0 # f0 @ Sleep RETRY_DELAY # Attempt 1 # f1
                               @ Sleep RETRY_DELAY # Attempt 2 # f2))
           | (r1, m2, f1) \<Rightarrow> (r1, m2, Attempt 0 # f0 @ Sleep RETRY_DELAY # Attempt 1 # f1))
      | (r0, m1, f0) \<Rightarrow> (r0, m1, Attempt 0 # f0))
   \<and> createCompletionStream P W ms rc 0 =
     (case streamBody P (W 0) ms rc of
        (Throw e0, m1, f0) \<Rightarrow>
          (case streamBody P (W 1) m1 (resetRefConvId rc) of
             (Throw e1, m2, f1) \<Rightarrow>
               (case streamBody P (W 2) m2 (resetRefConvId rc) of
                  (Throw e2, m3, f2) \<Rightarrow>
                    (case streamBody P (W 3) m3 (resetRefConvId rc) of
                       (r3, m4, f3) \<Rightarrow>
                         (r3, m4, Attempt 0 # f0 @ Sleep RETRY_DELAY # Attempt 1 # f1 @ Sleep RETRY_DELAY
                                    # Attempt 2 # f2 @ Sleep RETRY_DELAY # Attempt 3 # f3))
                | (r2, m3, f2) \<Rightarrow>
                    (r2, m3, Attempt 0 # f0 @ Sleep RETRY_DELAY # Attempt 1 # f1
                               @ Sleep RETRY_DELAY # Attempt 2 # f2))
           | (r1, m2, f1) \<Rightarrow> (r1, m2, Attempt 0 # f0 @ Sleep RETRY_DELAY # Attempt 1 # f1))
      | (r0, m1, f0) \<Rightarrow> (r0, m1, Attempt 0 # f0))
   \<and> RETRY_DELAY = 5000
   \<and> isThrow (fst (completionBody P E ms rc)) =
     (case uploadAll P (env_network E) ms of
        Inl e \<Rightarrow> True
      | Inr refs \<Rightarrow>
          (case env_chat E (fst (messagesPrepare (isBASE64 P) ms refs (resetRefConvId rc \<noteq> []))) of
             ChatFail \<Rightarrow> True
           | ChatResponse contentType events \<Rightarrow>
               (case contentType of
                  None \<Rightarrow> True
                | Some ct \<Rightarrow>
                    \<not> includesStr ct (S ''text/event-stream'')
                    \<or> (\<exists>e. receiveStream (env_feed E) (env_parser E) (env_json E) events = Rejected e))))
   \<and> isThrow (fst (streamBody P E ms rc)) =
     (case uploadAll P (env_network E) ms of
        Inl e \<Rightarrow> True
      | Inr refs \<Rightarrow>
          (case env_chat E (fst (messagesPrepare (isBASE64 P) ms refs (resetRefConvId rc \<noteq> []))) of
             ChatFail \<Rightarrow> True
           | ChatResponse contentType events \<Rightarrow> contentType = None))
   \<and> (isThrow (fst (streamBody P E ms rc)) \<or> isReturn (fst (streamBody P E ms rc)))"
proof -
  have a: "createCompletion P W ms rc 0 =
     (case completionBody P (W 0) ms rc of
        (Throw e0, m1, f0) \<Rightarrow>
          (case completionBody P (W 1) m1 (resetRefConvId rc) of
             (Throw e1, m2, f1) \<Rightarrow>
               (case completionBody P (W 2) m2 (resetRefConvId rc) of
                  (Throw e2, m3, f2) \<Rightarrow>
                    (case completionBody P (W 3) m3 (resetRefConvId rc) of
                       (r3, m4, f3) \<Rightarrow>
                         (r3, m4, Attempt 0 # f0 @ Sleep RETRY_DELAY # Attempt 1 # f1 @ Sleep RETRY_DELAY
                                    # Attempt 2 # f2 @ Sleep RETRY_DELAY # Attempt 3 # f3))
                | (r2, m3, f2) \<Rightarrow>
                    (r2, m3, Attempt 0 # f0 @ Sleep RETRY_DELAY # Attempt 1 # f1
                               @ Sleep RETRY_DELAY # Attempt 2 # f2))
           | (r1, m2, f1) \<Rightarrow> (r1, m2, Attempt 0 # f0 @ Sleep RETRY_DELAY # Attempt 1 # f1))
      | (r0, m1, f0) \<Rightarrow> (r0, m1, Attempt 0 # f0))"
    by (rule retry_closed_form [where f = "createCompletion P W" and body = "\<lambda>n. completionBody P (W n)"])
       (rule createCompletion.simps)
  have b: "createCompletionStream P W ms rc 0 =
     (case streamBody P (W 0) ms rc of
        (Throw e0, m1, f0) \<Rightarrow>
          (case streamBody P (W 1) m1 (resetRefConvId rc) of
             (Throw e1, m2, f1) \<Rightarrow>
               (case streamBody P (W 2) m2 (resetRefConvId rc) of
                  (Throw e2, m3, f2) \<Rightarrow>
                    (case streamBody P (W 3) m3 (resetRefConvId rc) of
                       (r3, m4, f3) \<Rightarrow>
                         (r3, m4, Attempt 0 # f0 @ Sleep RETRY_DELAY # Attempt 1 # f1 @ Sleep RETRY_DELAY
                                    # Attempt 2 # f2 @ Sleep RETRY_DELAY # Attempt 3 # f3))
                | (r2, m3, f2) \<Rightarrow>
                    (r2, m3, Attempt 0 # f0 @ Sleep RETRY_DELAY # Attempt 1 # f1
                               @ Sleep RETRY_DELAY # Attempt 2 # f2))
           | (r1, m2, f1) \<Rightarrow> (r1, m2, Attempt 0 # f0 @ Sleep RETRY_DELAY # Attempt 1 # f1))
      | (r0, m1, f0) \<Rightarrow> (r0, m1, Attempt 0 # f0))"
    by (rule retry_closed_form [where f = "createCompletionStream P W" and body = "\<lambda>n. streamBody P (W n)"])
       (rule createCompletionStream.simps)
  from a b isThrow_completionBody [of P E ms rc] isThrow_streamBody [of P E ms rc]
    streamBody_settles [of P E ms rc]
  show ?thesis by (simp only: RETRY_DELAY_def simp_thms)
qed


lemma completionBody_chat_fails:
  assumes "uploadAll P (env_network E) ms = Inr refs" and "\<forall>p. env_chat E p = ChatFail"
  shows "completionBody P E ms rc =
           (Throw TransportError, snd (messagesPrepare (isBASE64 P) ms refs (resetRefConvId rc \<noteq> [])), [])"
  using assms by (simp add: completionBody_def Let_def split: prod.splits)

lemma upload_hello: "uploadAll plainPlatform N [helloMessage] = Inr []"
  by (simp add: uploadAll_def extractRefFileUrls_def helloMessage_def)

lemma hello_chat_fails:
  "completionBody plainPlatform (fixedEnv (probeNetwork 200) ChatFail) [helloMessage] []
     = (Throw TransportError, [helloMessage], [])"
  "streamBody plainPlatform (fixedEnv (probeNetwork 200) ChatFail) [helloMessage] []
     = (Throw TransportError, [helloMessage], [])"
  by (simp_all add: completionBody_def streamBody_def upload_hello hello_packed fixedEnv_def)

lemma hello_answered:
  "completionBody plainPlatform (streamEnv tableJson [Data deltaWire, Data finishWire, StreamClose])
       [helloMessage] []
     = (Return \<lparr> ans_id = [], ans_content = [0x4F60], ans_finish_reason = S ''stop'' \<rparr>,
        [helloMessage], [])"
  by (simp add: completionBody_def upload_hello hello_packed streamEnv_def startsWith_def
        transcoder_eval)

lemma hello_streamed:
  "streamBody plainPlatform (streamEnv tableJson [Data deltaWire, Data finishWire, StreamClose])
       [helloMessage] []
     = (Return \<lparr> written = [Chunk (Some []) [] None, Chunk None [0x4F60] None,
                               Chunk (Some (S ''c1'')) [] (Some (S ''stop'')), DoneFrame],
                   ended = True, closed = True, refused = [] \<rparr>,
        [helloMessage], [RemoveConversation (S ''c1'')])"
  by (simp add: streamBody_def upload_hello hello_packed streamEnv_def startsWith_def
        transcoder_eval)

lemma hello_error_frame:
  "completionBody plainPlatform (streamEnv errorJson [Data errorWire, StreamClose]) [helloMessage] []
     = (Throw (APIException API_REQUEST_FAILED), [helloMessage], [])"
  by (simp add: completionBody_def upload_hello hello_packed streamEnv_def startsWith_def
        transcoder_eval errorJson_def errorWire_def errorData_def)

lemma hello_error_streamed:
  "streamBody plainPlatform (streamEnv errorJson [Data errorWire, StreamClose]) [helloMessage] []
     = (Return \<lparr> written = [Chunk (Some []) [] None, BlankFrame],
                   ended = True, closed = True, refused = [] \<rparr>,
        [helloMessage], [])"
  by (simp add: streamBody_def upload_hello hello_packed streamEnv_def startsWith_def
        transcoder_eval errorJson_def errorWire_def errorData_def)

theorem completion_retry_bound_witness:
  "createCompletion plainPlatform flakyWorld [helloMessage] [] 0
     = (Return \<lparr> ans_id = [], ans_content = [0x4F60], ans_finish_reason = S ''stop'' \<rparr>,
        [helloMessage], [Attempt 0, Sleep 5000, Attempt 1])
   \<and> framesOf (fst (createCompletionStream plainPlatform flakyWorld [helloMessage] [] 0))
     = [Chunk (Some []) [] None, Chunk None [0x4F60] None,
        Chunk (Some (S ''c1'')) [] (Some (S ''stop'')), DoneFrame]
   \<and> snd (createCompletionStream plainPlatform flakyWorld [helloMessage] [] 0)
     = ([helloMessage], [Attempt 0, Sleep 5000, Attempt 1, RemoveConversation (S ''c1'')])
   \<and> createCompletion plainPlatform (\<lambda>n. fixedEnv (probeNetwork 200) ChatFail) [helloMessage] [] 0
     = (Throw TransportError, [helloMessage],
        [Attempt 0, Sleep 5000, Attempt 1, Sleep 5000, Attempt 2, Sleep 5000, Attempt 3])"
  using completion_retry_bound
      [where P = plainPlatform and W = flakyWorld and ms = "[helloMessage]" and rc = "[]"
         and E = "flakyWorld 0"]
    completion_retry_bound
      [where P = plainPlatform and W = "\<lambda>n. fixedEnv (probeNetwork 200) ChatFail"
         and ms = "[helloMessage]" and rc = "[]" and E = "flakyWorld 0"]
  by (simp add: flakyWorld_def hello_chat_fails hello_answered hello_streamed resetRefConvId_empty
        framesOf_def)

text \<open>
  The claim as stated fails in streaming mode for a failure of the transcoding: an event
  stream whose first frame carries an error code. The stream is returned after one run,
  ended behind its opening chunk, with no delay and no second run. Buffered mode throws
  on the same reply in each of its four runs.
\<close>

theorem completion_retry_bound_counterexample:
  "framesOf (fst (createCompletionStream plainPlatform
       (\<lambda>n. streamEnv errorJson [Data errorWire, StreamClose]) [helloMessage] [] 0))
     = [Chunk (Some []) [] None, BlankFrame]
   \<and> snd (createCompletionStream plainPlatform
       (\<lambda>n. streamEnv errorJson [Data errorWire, StreamClose]) [helloMessage] [] 0)
     = ([helloMessage], [Attempt 0])
   \<and> createCompletion plainPlatform
       (\<lambda>n. streamEnv errorJson [Data errorWire, StreamClose]) [helloMessage] [] 0
     = (Throw (APIException API_REQUEST_FAILED), [helloMessage],
        [Attempt 0, Sleep 5000, Attempt 1, Sleep 5000, Attempt 2, Sleep 5000, Attempt 3])"
  by (simp add: createCompletion.simps createCompletionStream.simps hello_error_frame
        hello_error_streamed resetRefConvId_empty framesOf_def MAX_RETRY_COUNT_def RETRY_DELAY_def)


text \<open>
  Claim C4, as amended. When the reply to the completion call has a content type other
  than \<^verbatim>\<open>text/event-stream\<close>, streaming mode returns the substitute stream in the
  same run, whatever the retry count is, without a delay and without another run. Buffered
  mode throws in that run; the failure is retried after the delay while the retry count
  is below the bound, and raised to the caller once it has reached it.
\<close>

theorem content_type_fault:
  assumes up: "uploadAll P (env_network (W n)) ms = Inr refs"
    and pk: "messagesPrepare (isBASE64 P) ms refs (resetRefConvId rc \<noteq> []) = (payload, ms1)"
    and ch: "env_chat (W n) payload = ChatResponse (Some ct) events"
    and ct: "\<not> includesStr ct (S ''text/event-stream'')"
  shows "createCompletionStream P W ms rc n = (Return unavailableStream, ms1, [Attempt n])
       \<and> (MAX_RETRY_COUNT \<le> n \<longrightarrow>
            createCompletion P W ms rc n = (Throw (APIException API_REQUEST_FAILED), ms1, [Attempt n]))
       \<and> (n < MAX_RETRY_COUNT \<longrightarrow>
            createCompletion P W ms rc n =
              (case createCompletion P W ms1 (resetRefConvId rc) (n + 1) of
                 (r, ms2, tr) \<Rightarrow> (r, ms2, Attempt n # Sleep RETRY_DELAY # tr)))"
proof -
  have sb: "streamBody P (W n) ms rc = (Return unavailableStream, ms1, [])"
    using assms by (simp add: streamBody_def)
  have cb: "completionBody P (W n) ms rc = (Throw (APIException API_REQUEST_FAILED), ms1, [])"
    using assms by (simp add: completionBody_def)
  show ?thesis
    by (simp add: createCompletionStream.simps [of P W ms rc n]
          createCompletion.simps [of P W ms rc n] sb cb)
qed

theorem content_type_fault_witness:
  "createCompletionStream plainPlatform
     (\<lambda>n. fixedEnv (probeNetwork 200) (ChatResponse (Some (S ''application/json'')) []))
     [helloMessage] [] 3
   = (Return unavailableStream, [helloMessage], [Attempt 3])
   \<and> createCompletion plainPlatform
     (\<lambda>n. fixedEnv (probeNetwork 200) (ChatResponse (Some (S ''application/json'')) []))
     [helloMessage] [] 3
   = (Throw (APIException API_REQUEST_FAILED), [helloMessage], [Attempt 3])"
proof -
  have up: "uploadAll plainPlatform
      (env_network (fixedEnv (probeNetwork 200) (ChatResponse (Some (S ''application/json'')) [])))
      [helloMessage] = Inr []"
    by (simp add: uploadAll_def extractRefFileUrls_def helloMessage_def)
  have ch: "env_chat (fixedEnv (probeNetwork 200) (ChatResponse (Some (S ''application/json'')) []))
      \<lparr> text_of = S ''hello'', attachments = [] \<rparr> = ChatResponse (Some (S ''application/json'')) []"
    by (simp add: fixedEnv_def)
  have ct: "\<not> includesStr (S ''application/json'') (S ''text/event-stream'')"
    by (simp add: startsWith_def)
  from content_type_fault
    [of plainPlatform "\<lambda>n. fixedEnv (probeNetwork 200) (ChatResponse (Some (S ''application/json'')) [])"
        3 "[helloMessage]" "[]" "[]", OF up hello_packed ch ct]
  show ?thesis by (simp add: MAX_RETRY_COUNT_def)
qed

text \<open>
  The claim as stated fails: at retry count 0, with every retry still ahead, streaming
  mode already answers with the substitute chunk.
\<close>

theorem content_type_fault_counterexample:
  "createCompletionStream plainPlatform
     (\<lambda>n. fixedEnv (probeNetwork 200) (ChatResponse (Some (S ''application/json'')) []))
     [helloMessage] [] 0
   = (Return unavailableStream, [helloMessage], [Attempt 0])
   \<and> 0 < MAX_RETRY_COUNT
   \<and> written unavailableStream = [Chunk (Some []) unavailableText (Some (S ''stop''))]"
  by (simp add: createCompletionStream.simps orchestrator_eval packer_eval)











lemma imageUrls: "extractRefFileUrls plainPlatform [helloMessage, imageMessage] = [S ''http://h/a.png'']"
  by (simp add: extractRefFileUrls_def imageMessage_def partCandidate_def normalizeCandidate_def
        plainPlatform_def List.map_filter_def startsWith_def)

lemma staging_failure_example:
  "uploadFile plainPlatform (probeNetwork 200) (S ''http://h/a.png'') = Inr None"
  by (simp add: uploadFile_def checkFileUrl_def uploadStaged_def plainPlatform_def
        probeNetwork_def orElse_def dropLeadingDot_def lastSegment_def startsWith_def)







lemma grown_0: "ms \<noteq> [] \<Longrightarrow> grown ms 0 = ms"
  by (simp add: grown_def)

lemma last_grown: "last (grown ms k) = last ms"
  by (simp add: grown_def)

lemma length_grown: "ms \<noteq> [] \<Longrightarrow> length (grown ms k) = length ms + k"
  by (simp add: grown_def)

lemma splice_grown: "spliceBeforeLast newFileMessage (grown ms k) = grown ms (Suc k)"
proof -
  have "spliceBeforeLast newFileMessage ((butlast ms @ replicate k newFileMessage) @ [last ms])
          = (butlast ms @ replicate k newFileMessage) @ [newFileMessage, last ms]"
    by (rule spliceBeforeLast_snoc)
  then show ?thesis
    by (simp add: grown_def replicate_append_same)
qed

lemma messagesPrepare_grown:
  assumes "2 \<le> length ms" and "hasFileOrImage (last ms)"
  shows "snd (messagesPrepare b (grown ms k) refs False) = grown ms (Suc k)"
proof -
  from assms(1) have ne: "ms \<noteq> []" by auto
  have "2 \<le> length (grown ms k)" using assms(1) ne by (simp add: length_grown)
  then show ?thesis
    using assms(2) by (simp add: messagesPrepare_def Let_def last_grown splice_grown)
qed

lemma repack_grown:
  assumes "2 \<le> length ms" and "hasFileOrImage (last ms)"
  shows "foldl (\<lambda>acc refs. snd (messagesPrepare b acc refs False)) (grown ms k) refss
           = grown ms (k + length refss)"
  using assms by (induction refss arbitrary: k) (simp_all add: messagesPrepare_grown)

lemma extractRefFileUrls_grown:
  "ms \<noteq> [] \<Longrightarrow> extractRefFileUrls P (grown ms k) = extractRefFileUrls P ms"
  by (simp add: extractRefFileUrls_def grown_def)

lemma uploadAll_grown: "ms \<noteq> [] \<Longrightarrow> uploadAll P N (grown ms k) = uploadAll P N ms"
  by (simp add: uploadAll_def extractRefFileUrls_grown)

lemma completionBody_grown:
  assumes "2 \<le> length ms" and "hasFileOrImage (last ms)" and "resetRefConvId rc = []"
    and "uploadAll P (env_network E) ms = Inr refs" and "\<forall>p. env_chat E p = ChatFail"
  shows "completionBody P E (grown ms k) rc = (Throw TransportError, grown ms (Suc k), [])"
proof -
  from assms(1) have ne: "ms \<noteq> []" by auto
  have up: "uploadAll P (env_network E) (grown ms k) = Inr refs"
    using assms(4) ne by (simp add: uploadAll_grown)
  from completionBody_chat_fails [OF up assms(5), of rc]
  show ?thesis using assms(1-3) by (simp add: messagesPrepare_grown)
qed

text \<open>
  Claim C10. For a list of at least two messages whose last one has a part of type
  \<^verbatim>\<open>file\<close> or \<^verbatim>\<open>image_url\<close>, packed without a continued conversation, the
  message list that the call leaves behind has the synthetic system message at the
  position of the former last message; each further call adds one more. A completion whose
  four runs all reach the packer and then fail leaves four copies in the caller's list.
\<close>

theorem packer_mutates_argument:
  assumes "2 \<le> length ms" and "hasFileOrImage (last ms)"
  shows "snd (messagesPrepare b ms refs False) = butlast ms @ [newFileMessage, last ms]
       \<and> snd (messagesPrepare b ms refs False) ! (length ms - 1) = newFileMessage
       \<and> repack b refss ms = butlast ms @ replicate (length refss) newFileMessage @ [last ms]
       \<and> (resetRefConvId rc = []
            \<and> (\<forall>n. \<exists>rs. uploadAll P (env_network (W n)) ms = Inr rs)
            \<and> (\<forall>n p. env_chat (W n) p = ChatFail)
          \<longrightarrow> createCompletion P W ms rc 0 =
                (Throw TransportError,
                 butlast ms @ replicate 4 newFileMessage @ [last ms],
                 [Attempt 0, Sleep RETRY_DELAY, Attempt 1, Sleep RETRY_DELAY,
                  Attempt 2, Sleep RETRY_DELAY, Attempt 3]))"
proof -
  from assms(1) have ne: "ms \<noteq> []" by auto
  have one: "snd (messagesPrepare b ms refs False) = butlast ms @ [newFileMessage, last ms]"
    using assms by (rule messagesPrepare_splice)
  have pos: "snd (messagesPrepare b ms refs False) ! (length ms - 1) = newFileMessage"
    by (simp add: one nth_append)
  have many: "repack b refss ms = butlast ms @ replicate (length refss) newFileMessage @ [last ms]"
    using repack_grown [OF assms, of b 0 refss] ne
    by (simp add: repack_def grown_0) (simp add: grown_def)
  have retry: "createCompletion P W ms rc 0 =
                (Throw TransportError,
                 butlast ms @ replicate 4 newFileMessage @ [last ms],
                 [Attempt 0, Sleep RETRY_DELAY, Attempt 1, Sleep RETRY_DELAY,
                  Attempt 2, Sleep RETRY_DELAY, Attempt 3])"
    if rc: "resetRefConvId rc = []"
      and up: "\<forall>n. \<exists>rs. uploadAll P (env_network (W n)) ms = Inr rs"
      and ch: "\<forall>n p. env_chat (W n) p = ChatFail"
  proof -
    have body: "completionBody P (W n) (grown ms k) c = (Throw TransportError, grown ms (Suc k), [])"
      if "resetRefConvId c = []" for n k c
    proof -
      from up obtain rs where "uploadAll P (env_network (W n)) ms = Inr rs" by blast
      moreover from ch have "\<forall>p. env_chat (W n) p = ChatFail" by simp
      ultimately show ?thesis using assms that by (rule completionBody_grown [rotated 3])
    qed
    have c3: "createCompletion P W (grown ms 3) [] 3 = (Throw TransportError, grown ms 4, [Attempt 3])"
      by (subst createCompletion.simps) (simp add: body resetRefConvId_empty MAX_RETRY_COUNT_def eval_nat_numeral)
    have c2: "createCompletion P W (grown ms 2) [] 2
                = (Throw TransportError, grown ms 4, [Attempt 2, Sleep RETRY_DELAY, Attempt 3])"
      using c3
      by (subst createCompletion.simps) (simp add: body resetRefConvId_empty MAX_RETRY_COUNT_def eval_nat_numeral)
    have c1: "createCompletion P W (grown ms 1) [] 1
                = (Throw TransportError, grown ms 4,
                   [Attempt 1, Sleep RETRY_DELAY, Attempt 2, Sleep RETRY_DELAY, Attempt 3])"
      using c2
      by (subst createCompletion.simps) (simp add: body resetRefConvId_empty MAX_RETRY_COUNT_def eval_nat_numeral)
    have "createCompletion P W (grown ms 0) rc 0
                = (Throw TransportError, grown ms 4,
                   [Attempt 0, Sleep RETRY_DELAY, Attempt 1, Sleep RETRY_DELAY,
                    Attempt 2, Sleep RETRY_DELAY, Attempt 3])"
      using c1 rc
      by (subst createCompletion.simps) (simp add: body resetRefConvId_empty MAX_RETRY_COUNT_def eval_nat_numeral)
    then show ?thesis using ne by (simp add: grown_0) (simp add: grown_def)
  qed
  from one pos many retry show ?thesis by blast
qed

theorem packer_mutates_argument_witness:
  "snd (messagesPrepare (\<lambda>s. False) [helloMessage, imageMessage] [None] False)
     = [helloMessage, newFileMessage, imageMessage]
   \<and> createCompletion plainPlatform (\<lambda>n. fixedEnv (probeNetwork 200) ChatFail)
        [helloMessage, imageMessage] [] 0
     = (Throw TransportError,
        [helloMessage, newFileMessage, newFileMessage, newFileMessage, newFileMessage, imageMessage],
        [Attempt 0, Sleep 5000, Attempt 1, Sleep 5000, Attempt 2, Sleep 5000, Attempt 3])"
proof -
  have h1: "2 \<le> length [helloMessage, imageMessage]" by simp
  have h2: "hasFileOrImage (last [helloMessage, imageMessage])"
    by (simp add: hasFileOrImage_def imageMessage_def isFileOrImagePart_def)
  have up: "\<forall>n. \<exists>rs. uploadAll plainPlatform
              (env_network (fixedEnv (probeNetwork 200) ChatFail)) [helloMessage, imageMessage] = Inr rs"
    using staging_failure_example by (simp add: uploadAll_def imageUrls fixedEnv_def)
  have ch: "\<forall>n p. env_chat (fixedEnv (probeNetwork 200) ChatFail) p = ChatFail"
    by (simp add: fixedEnv_def)
  from packer_mutates_argument [OF h1 h2, of "\<lambda>s. False" "[None]" "[]" "[]" plainPlatform
      "\<lambda>n. fixedEnv (probeNetwork 200) ChatFail"] up ch
  show ?thesis by (simp add: resetRefConvId_empty RETRY_DELAY_def eval_nat_numeral)
qed


section \<open>Properties of the stream transcoder\<close>

text \<open>
  Claim C1, on the stream in which the upstream service sends the \<^verbatim>\<open>is_finish\<close>
  delta and the closing frame of type 2003, in one chunk or in two, and then closes.
  Buffered mode has the latch and resolves once, with the first of them. Live mode has
  none. For the first frame it writes the closing chunk, ends the stream with the marker
  and calls the end callback. For the second frame it writes the closing chunk once more,
  on the stream it has ended: the write is refused and leaves the stream closed, the
  guarded \<^verbatim>\<open>end\<close> is skipped, and the end callback is called a second time. On a
  stream with one finishing frame the callback is called once and nothing is refused.
\<close>

theorem live_mode_finishes_twice:
  "createTransStream lineFeed [] tableJson [Data (finishWire @ closedWire), StreamClose]
     = (\<lparr> written = [Chunk (Some []) [] None,
                      Chunk (Some (S ''c1'')) [] (Some (S ''stop'')),
                      DoneFrame],
          ended = True, closed = True,
          refused = [Chunk (Some (S ''c1'')) [] (Some (S ''stop''))] \<rparr>,
        [Some (S ''c1''), Some (S ''c1'')])
   \<and> createTransStream lineFeed [] tableJson [Data finishWire, Data closedWire, StreamClose]
     = (\<lparr> written = [Chunk (Some []) [] None,
                      Chunk (Some (S ''c1'')) [] (Some (S ''stop'')),
                      DoneFrame],
          ended = True, closed = True,
          refused = [Chunk (Some (S ''c1'')) [] (Some (S ''stop''))] \<rparr>,
        [Some (S ''c1''), Some (S ''c1'')])
   \<and> createTransStream lineFeed [] tableJson [Data finishWire, StreamClose]
     = (\<lparr> written = [Chunk (Some []) [] None,
                      Chunk (Some (S ''c1'')) [] (Some (S ''stop'')),
                      DoneFrame],
          ended = True, closed = True, refused = [] \<rparr>,
        [Some (S ''c1'')])
   \<and> receiveStream lineFeed [] tableJson [Data (finishWire @ closedWire), StreamClose]
     = Resolved \<lparr> ans_id = [], ans_content = [], ans_finish_reason = S ''stop'' \<rparr>"
  by (simp add: transcoder_eval)

text \<open>
  Claim C2, on the delta frame cut inside its three-byte character. Each part shows a
  replacement character when decoded alone, so both are put aside and nothing is ever fed
  to the parser: the text of the whole frame is lost, in both modes.
\<close>

theorem split_character_loses_text:
  "receiveStream lineFeed [] tableJson [Data (deltaWireHead @ deltaWireTail), StreamClose]
     = Resolved \<lparr> ans_id = [], ans_content = [0x4F60], ans_finish_reason = S ''stop'' \<rparr>
   \<and> receiveStream lineFeed [] tableJson [Data deltaWireHead, Data deltaWireTail, StreamClose]
     = Resolved \<lparr> ans_id = [], ans_content = [], ans_finish_reason = S ''stop'' \<rparr>
   \<and> written (fst (createTransStream lineFeed [] tableJson
        [Data (deltaWireHead @ deltaWireTail), StreamClose]))
     = [Chunk (Some []) [] None, Chunk None [0x4F60] None, DoneFrame]
   \<and> written (fst (createTransStream lineFeed [] tableJson
        [Data deltaWireHead, Data deltaWireTail, StreamClose]))
     = [Chunk (Some []) [] None, DoneFrame]"
  by (simp add: transcoder_eval)

section \<open>Properties of the binary transfer\<close>

lemma hexDigit_lower: "d < 16 \<Longrightarrow> isLowerHex (hexDigit d)"
  by (auto simp: isLowerHex_def hexDigit_def)

lemma hexDigitValue_hexDigit: "d < 16 \<Longrightarrow> hexDigitValue (hexDigit d) = d"
  by (auto simp: hexDigitValue_def hexDigit_def)

lemma toStringHex_lower: "\<forall>c \<in> set (toStringHex n). isLowerHex c"
proof (induction n rule: toStringHex.induct)
  case (1 n)
  show ?case
  proof (cases "n < 16")
    case True
    then show ?thesis by (subst toStringHex.simps) (simp add: hexDigit_lower)
  next
    case False
    with 1 show ?thesis by (subst toStringHex.simps) (simp add: hexDigit_lower)
  qed
qed

lemma hexValue_snoc: "hexValue (s @ [c]) = 16 * hexValue s + hexDigitValue c"
  by (simp add: hexValue_def)

lemma hexValue_toStringHex: "hexValue (toStringHex n) = n"
proof (induction n rule: toStringHex.induct)
  case (1 n)
  show ?case
  proof (cases "n < 16")
    case True
    then show ?thesis
      by (subst toStringHex.simps) (simp add: hexValue_def hexDigitValue_hexDigit)
  next
    case False
    with 1 have "hexValue (toStringHex (n div 16)) = n div 16" by simp
    with False show ?thesis
      by (subst toStringHex.simps) (simp add: hexValue_snoc hexDigitValue_hexDigit)
  qed
qed

lemma length_toStringHex: "0 < k \<Longrightarrow> n < 16 ^ k \<Longrightarrow> length (toStringHex n) \<le> k"
proof (induction n arbitrary: k rule: toStringHex.induct)
  case (1 n)
  show ?case
  proof (cases "n < 16")
    case True
    with 1(2) show ?thesis by (subst toStringHex.simps) simp
  next
    case False
    from 1(2) obtain j where j1: "k = Suc j" by (cases k) auto
    have "0 < j"
    proof (rule ccontr)
      assume "\<not> 0 < j"
      with j1 1(3) False show False by simp
    qed
    with j1 have j: "k = Suc j" "0 < j" by simp_all
    from 1(3) j have "n div 16 < 16 ^ j"
      by (simp add: less_mult_imp_div_less mult.commute)
    with 1(1) [OF False j(2)] have "length (toStringHex (n div 16)) \<le> j" by simp
    with False j show ?thesis by (subst toStringHex.simps) simp
  qed
qed

lemma hexValue_zeros: "hexValue (replicate m 0x30 @ s) = hexValue s"
proof -
  have "hexValue (replicate m 0x30) = 0"
  proof (induction m)
    case 0
    show ?case by (simp add: hexValue_def)
  next
    case (Suc m)
    have "replicate (Suc m) (0x30::nat) = replicate m 0x30 @ [0x30]"
      by (simp add: replicate_append_same)
    with Suc show ?case by (simp add: hexValue_snoc hexDigitValue_def del: replicate.simps)
  qed
  then show ?thesis by (simp add: hexValue_def)
qed

lemma crcHeader_shape:
  "length (crcHeader c) = 8 \<and> (\<forall>d \<in> set (crcHeader c). isLowerHex d)
     \<and> hexValue (crcHeader c) = nat (c mod 2 ^ 32)"
proof -
  let ?n = "nat (c mod 2 ^ 32)"
  have "?n < 2 ^ 32" by (simp add: nat_less_iff)
  then have "?n < 16 ^ 8" by simp
  then have len: "length (toStringHex ?n) \<le> 8" by (intro length_toStringHex) simp
  have z: "isLowerHex 0x30" by (simp add: isLowerHex_def)
  from len z show ?thesis
    by (auto simp: crcHeader_def padStart_def hexValue_zeros hexValue_toStringHex
          dest: toStringHex_lower [rule_format])
qed


text \<open>
  Claim C9, as amended. The binary transfer is a POST, not a PUT, of the raw bytes to
  \<^verbatim>\<open>https://tosHost/upload/v1/storeUri\<close>, with the token of the staged object as
  \<^verbatim>\<open>Authorization\<close> and, as \<^verbatim>\<open>Content-CRC32\<close>, eight lower-case hexadecimal
  digits that encode the checksum as an unsigned 32-bit number. It fails exactly when no
  reply arrives, the status is outside 200 to 299, or the embedded code is not 2000.
\<close>

theorem binary_transfer:
  "req_method (tosRequest crc host uri token bytes mime) = S ''POST''
   \<and> req_url (tosRequest crc host uri token bytes mime)
       = S ''https://'' @ host @ S ''/upload/v1/'' @ uri
   \<and> req_body (tosRequest crc host uri token bytes mime) = bytes
   \<and> map_of (req_headers (tosRequest crc host uri token bytes mime))
        (S ''Authorization'') = Some token
   \<and> map_of (req_headers (tosRequest crc host uri token bytes mime))
        (S ''Content-CRC32'') = Some (crcHeader (crc bytes))
   \<and> length (crcHeader (crc bytes)) = 8
   \<and> (\<forall>d \<in> set (crcHeader (crc bytes)). isLowerHex d)
   \<and> hexValue (crcHeader (crc bytes)) = nat (crc bytes mod 2 ^ 32)
   \<and> (isl (uploadToTos crc send host uri token bytes mime)
        \<longleftrightarrow> transferFails (send (tosRequest crc host uri token bytes mime)))"
proof -
  have hdr: "map_of (req_headers (tosRequest crc host uri token bytes mime))
        (S ''Content-CRC32'') = Some (crcHeader (crc bytes))"
    by (simp add: tosRequest_def)
  have fails: "isl (uploadToTos crc send host uri token bytes mime)
        \<longleftrightarrow> transferFails (send (tosRequest crc host uri token bytes mime))"
    by (auto simp: uploadToTos_def transferFails_def split: http_reply.splits)
  from hdr fails crcHeader_shape [of "crc bytes"] show ?thesis
    by (simp add: tosRequest_def)
qed

lemma replicate_4: "replicate 4 x = [x, x, x, x]"
  by (simp add: numeral_eq_Suc)

theorem binary_transfer_witness:
  "crcHeader 6699 = S ''00001a2b''
   \<and> crcHeader (- 1) = S ''ffffffff''
   \<and> isl (uploadToTos (\<lambda>bs. 6699) (\<lambda>r. Reply 200 (CodeNum 4001)) (S ''tos.example'')
         (S ''tos-cn-i-abc/x.png'') (S ''token'') [0x89, 0x50] (S ''image/png''))
   \<and> \<not> isl (uploadToTos (\<lambda>bs. 6699) (\<lambda>r. Reply 200 (CodeOther (S ''2000''))) (S ''tos.example'')
         (S ''tos-cn-i-abc/x.png'') (S ''token'') [0x89, 0x50] (S ''image/png''))"
  using binary_transfer [of "\<lambda>bs. 6699" "S ''tos.example''" "S ''tos-cn-i-abc/x.png''" "S ''token''"
      "[0x89, 0x50]" "S ''image/png''" "\<lambda>r. Reply 200 (CodeNum 4001)"]
    binary_transfer [of "\<lambda>bs. 6699" "S ''tos.example''" "S ''tos-cn-i-abc/x.png''" "S ''token''"
      "[0x89, 0x50]" "S ''image/png''" "\<lambda>r. Reply 200 (CodeOther (S ''2000''))"]
  by (simp add: crcHeader_def padStart_def toStringHex.simps hexDigit_def transferFails_def
        codeIs2000_def replicate_4)

text \<open>The claim as stated fails on the method of the request.\<close>

theorem binary_transfer_counterexample:
  "req_method (tosRequest (\<lambda>bs. 6699) (S ''tos.example'') (S ''tos-cn-i-abc/x.png'') (S ''token'')
       [0x89, 0x50] (S ''image/png'')) = S ''POST''
   \<and> req_method (tosRequest (\<lambda>bs. 6699) (S ''tos.example'') (S ''tos-cn-i-abc/x.png'') (S ''token'')
       [0x89, 0x50] (S ''image/png'')) \<noteq> S ''PUT''"
  by (simp add: tosRequest_def)

section \<open>Properties of the request signer\<close>

lemma hexDigitUpper_inj: "a < 16 \<Longrightarrow> b < 16 \<Longrightarrow> hexDigitUpper a = hexDigitUpper b \<Longrightarrow> a = b"
  by (auto simp: hexDigitUpper_def split: if_splits)

lemma hexDigitUpper_range:
  "d < 16 \<Longrightarrow> (0x30 \<le> hexDigitUpper d \<and> hexDigitUpper d \<le> 0x39) \<or> (0x41 \<le> hexDigitUpper d \<and> hexDigitUpper d \<le> 0x46)"
  by (auto simp: hexDigitUpper_def)

lemma unat_byte_div: "unat (b :: byte) div 16 < 16"
proof -
  have "unat b < 2 ^ LENGTH(8)" by (rule unsigned_less)
  then show ?thesis by simp
qed

lemma escapeLeftover_plain:
  "c \<noteq> 0x21 \<Longrightarrow> c \<noteq> 0x2A \<Longrightarrow> c \<noteq> 0x27 \<Longrightarrow> c \<noteq> 0x28 \<Longrightarrow> c \<noteq> 0x29 \<Longrightarrow> escapeLeftover c = [c]"
  by (simp add: escapeLeftover_def)

lemma escapeLeftover_hexDigitUpper: "d < 16 \<Longrightarrow> escapeLeftover (hexDigitUpper d) = [hexDigitUpper d]"
  using hexDigitUpper_range [of d] by (intro escapeLeftover_plain) auto

lemma escape_percentByte: "concat (map escapeLeftover (percentByte b)) = percentByte b"
  using unat_byte_div [of b]
  by (simp add: percentByte_def escapeLeftover_hexDigitUpper escapeLeftover_plain)

lemma escape_five:
  "escapeLeftover 0x21 = [0x25, 0x32, 0x31]" "escapeLeftover 0x2A = [0x25, 0x32, 0x41]"
  "escapeLeftover 0x27 = [0x25, 0x32, 0x37]" "escapeLeftover 0x28 = [0x25, 0x32, 0x38]"
  "escapeLeftover 0x29 = [0x25, 0x32, 0x39]"
  by (simp_all add: escapeLeftover_def toStringHex.simps hexDigit_def)

lemma escape_encodeByte: "concat (map escapeLeftover (encodeByte b)) = rfcByte b"
proof (cases "isUriUnescaped (unat b)")
  case False
  then have "\<not> isRfcUnreserved (unat b)"
    by (auto simp: isUriUnescaped_def isRfcUnreserved_def)
  with False show ?thesis by (simp add: encodeByte_def rfcByte_def escape_percentByte)
next
  case True
  show ?thesis
  proof (cases "isRfcUnreserved (unat b)")
    case r: True
    then have "escapeLeftover (unat b) = [unat b]"
      by (intro escapeLeftover_plain) (auto simp: isRfcUnreserved_def isAlnum_def)
    with True r show ?thesis by (simp add: encodeByte_def rfcByte_def)
  next
    case r: False
    with True have five: "unat b = 0x21 \<or> unat b = 0x2A \<or> unat b = 0x27 \<or> unat b = 0x28 \<or> unat b = 0x29"
      by (auto simp: isUriUnescaped_def isRfcUnreserved_def)
    then have "escapeLeftover (unat b) = percentByte b"
      by (auto simp: escape_five percentByte_def hexDigitUpper_def)
    with True r show ?thesis by (simp add: encodeByte_def rfcByte_def)
  qed
qed

lemma escape_concat: "concat (map escapeLeftover (concat (map encodeByte bs))) = concat (map rfcByte bs)"
  by (induction bs) (simp_all add: escape_encodeByte)

lemma rfc3986Encode_bytes: "rfc3986Encode s = map_option (\<lambda>bs. concat (map rfcByte bs)) (utf8Encode s)"
  by (cases "utf8Encode s") (simp_all add: rfc3986Encode_def encodeURIComponent_def escape_concat)

lemma rfcByte_cases:
  obtains (plain) "isRfcUnreserved (unat b)" "rfcByte b = [unat b]"
  | (pct) "\<not> isRfcUnreserved (unat b)"
      "rfcByte b = [0x25, hexDigitUpper (unat b div 16), hexDigitUpper (unat b mod 16)]"
  by (cases "isRfcUnreserved (unat b)") (simp_all add: rfcByte_def percentByte_def)

lemma percent_not_unreserved: "\<not> isRfcUnreserved 0x25"
  by (simp add: isRfcUnreserved_def isAlnum_def)

lemma rfcByte_prefix_free:
  assumes "rfcByte b @ x = rfcByte b' @ y"
  shows "b = b' \<and> x = y"
proof (cases b rule: rfcByte_cases)
  case plain
  show ?thesis
  proof (cases b' rule: rfcByte_cases)
    case p: plain
    from plain(2) p(2) assms have "unat b = unat b'" and "x = y" by simp_all
    then show ?thesis by (simp only: word_unat_eq_iff [of b b'])
  next
    case pct
    from assms plain(2) pct(2) have "unat b = 0x25" by simp
    with plain(1) percent_not_unreserved show ?thesis by simp
  qed
next
  case pct
  show ?thesis
  proof (cases b' rule: rfcByte_cases)
    case plain
    from assms plain(2) pct(2) have "unat b' = 0x25" by simp
    with plain(1) percent_not_unreserved show ?thesis by simp
  next
    case p: pct
    from assms have "[0x25, hexDigitUpper (unat b div 16), hexDigitUpper (unat b mod 16)] @ x
        = [0x25, hexDigitUpper (unat b' div 16), hexDigitUpper (unat b' mod 16)] @ y"
      unfolding pct(2) p(2) .
    then have h: "hexDigitUpper (unat b div 16) = hexDigitUpper (unat b' div 16)"
      and l: "hexDigitUpper (unat b mod 16) = hexDigitUpper (unat b' mod 16)" and xy: "x = y"
      by (simp_all only: append_Cons append_Nil list.inject)
    from h have d: "unat b div 16 = unat b' div 16"
      by (rule hexDigitUpper_inj [OF unat_byte_div unat_byte_div])
    have m: "unat b mod 16 = unat b' mod 16"
    proof -
      have "unat b mod 16 < 16" and "unat b' mod 16 < 16" by simp_all
      then show ?thesis using l by (rule hexDigitUpper_inj)
    qed
    have "unat b = unat b div 16 * 16 + unat b mod 16" by simp
    also have "\<dots> = unat b' div 16 * 16 + unat b' mod 16" by (simp only: d m)
    also have "\<dots> = unat b'" by simp
    finally have "b = b'" by (simp only: word_unat_eq_iff [of b b'])
    with xy show ?thesis by (simp only: simp_thms)
  qed
qed

lemma rfcBytes_inj: "concat (map rfcByte bs) = concat (map rfcByte bs') \<Longrightarrow> bs = bs'"
proof (induction bs arbitrary: bs')
  case Nil
  show ?case
  proof (cases bs')
    case (Cons b' r)
    with Nil show ?thesis by (cases b' rule: rfcByte_cases) simp_all
  qed simp
next
  case (Cons b r)
  show ?case
  proof (cases bs')
    case Nil
    with Cons.prems show ?thesis by (cases b rule: rfcByte_cases) simp_all
  next
    case (Cons b' r')
    with Cons.prems rfcByte_prefix_free [of b "concat (map rfcByte r)" b' "concat (map rfcByte r')"]
    have "b = b'" and "concat (map rfcByte r) = concat (map rfcByte r')" by simp_all
    with Cons.IH Cons show ?thesis by simp
  qed
qed

lemma rfcByte_chars: "c \<in> set (rfcByte b) \<Longrightarrow> c \<noteq> 0x26 \<and> c \<noteq> 0x3D"
proof (cases b rule: rfcByte_cases)
  case plain
  assume "c \<in> set (rfcByte b)"
  with plain show ?thesis by (auto simp: isRfcUnreserved_def isAlnum_def)
next
  case pct
  assume "c \<in> set (rfcByte b)"
  with pct hexDigitUpper_range [of "unat b div 16"] hexDigitUpper_range [of "unat b mod 16"]
    unat_byte_div [of b]
  show ?thesis by auto
qed

lemma rfc3986Encode_chars:
  assumes "rfc3986Encode s = Some t" and "c \<in> set t"
  shows "c \<noteq> 0x26 \<and> c \<noteq> 0x3D"
  using assms by (auto simp: rfc3986Encode_bytes dest: rfcByte_chars)

lemma unat_of_nat_byte: "x < 256 \<Longrightarrow> unat (of_nat x :: byte) = x"
  by (simp add: unat_of_nat)

lemma unat_utf8Bytes: "cp < 0x110000 \<Longrightarrow> map unat (utf8Bytes cp) = natBytes cp"
proof -
  assume cp: "cp < 0x110000"
  have m: "0x80 + x mod 64 < (256::nat)" for x :: nat
  proof -
    have "x mod 64 < 64" by simp
    then show ?thesis by linarith
  qed
  have a: "cp < 0x800 \<Longrightarrow> 0xC0 + cp div 64 < 256" by simp
  have b: "cp < 0x10000 \<Longrightarrow> 0xE0 + cp div 4096 < 256" by simp
  have c: "0xF0 + cp div 262144 < 256" using cp by simp
  show ?thesis
    by (simp add: utf8Bytes_def natBytes_def unat_of_nat_byte m a b c del: of_nat_add of_nat_numeral)
qed

lemma digits_two: "x div 64 = y div 64 \<Longrightarrow> x mod 64 = y mod 64 \<Longrightarrow> x = (y::nat)"
  by (metis div_mult_mod_eq)
lemma digits_three: "x div 4096 = y div 4096 \<Longrightarrow> x div 64 mod 64 = y div 64 mod 64 \<Longrightarrow> x mod 64 = y mod 64 \<Longrightarrow> x = (y::nat)"
proof -
  assume a: "x div 4096 = y div 4096" and b: "x div 64 mod 64 = y div 64 mod 64" and c: "x mod 64 = y mod 64"
  have "x div 64 div 64 = y div 64 div 64" using a by (simp add: div_mult2_eq [symmetric])
  then have "x div 64 = y div 64" using b by (rule digits_two)
  then show ?thesis using c by (rule digits_two)
qed
lemma digits_four: "x div 262144 = y div 262144 \<Longrightarrow> x div 4096 mod 64 = y div 4096 mod 64 \<Longrightarrow> x div 64 mod 64 = y div 64 mod 64 \<Longrightarrow> x mod 64 = y mod 64 \<Longrightarrow> x = (y::nat)"
proof -
  assume a: "x div 262144 = y div 262144" and b: "x div 4096 mod 64 = y div 4096 mod 64"
    and c: "x div 64 mod 64 = y div 64 mod 64" and d: "x mod 64 = y mod 64"
  have "x div 4096 div 64 = y div 4096 div 64" using a by (simp add: div_mult2_eq [symmetric])
  then have "x div 4096 = y div 4096" using b by (rule digits_two)
  then show ?thesis using c d by (rule digits_three)
qed

lemma natBytes_prefix_free:
  assumes "cp < 0x110000" and "cp' < 0x110000" and "natBytes cp @ r = natBytes cp' @ r'"
  shows "cp = cp' \<and> r = r'"
  using assms
  by (auto simp: natBytes_def split: if_splits dest: digits_two digits_three digits_four)

lemma utf8Bytes_prefix_free:
  assumes "cp < 0x110000" and "cp' < 0x110000" and "utf8Bytes cp @ r = utf8Bytes cp' @ r'"
  shows "cp = cp' \<and> r = r'"
proof -
  from assms(3) have "map unat (utf8Bytes cp @ r) = map unat (utf8Bytes cp' @ r')" by simp
  then have "natBytes cp @ map unat r = natBytes cp' @ map unat r'"
    by (simp add: unat_utf8Bytes assms(1,2))
  from natBytes_prefix_free [OF assms(1,2) this] have "cp = cp'" and "map unat r = map unat r'"
    by simp_all
  moreover have "inj (unat :: byte \<Rightarrow> nat)" by (rule injI) (simp only: word_unat_eq_iff)
  ultimately show ?thesis by (simp add: inj_map_eq_map)
qed

lemma utf8Bytes_nonempty: "utf8Bytes cp \<noteq> []"
  by (simp add: utf8Bytes_def)

lemma utf8Encode_Cons:
  assumes "utf8Encode (c # cs) = Some bs"
  obtains (bmp) br where "c < 0x10000" "\<not> isHighSurrogate c" "\<not> isLowSurrogate c"
      "utf8Encode cs = Some br" "bs = utf8Bytes c @ br"
  | (pair) d r br where "cs = d # r" "isHighSurrogate c" "isLowSurrogate d"
      "utf8Encode r = Some br"
      "bs = utf8Bytes (0x10000 + (c - 0xD800) * 1024 + (d - 0xDC00)) @ br"
  using assms
  by (auto split: if_splits list.splits)

lemma pair_bound:
  assumes "isHighSurrogate c" and "isLowSurrogate d"
  shows "0x10000 \<le> 0x10000 + (c - 0xD800) * 1024 + (d - 0xDC00)"
    and "0x10000 + (c - 0xD800) * 1024 + (d - 0xDC00) < 0x110000"
  using assms by (auto simp: isHighSurrogate_def isLowSurrogate_def)

lemma pair_inj:
  assumes "isHighSurrogate c" "isLowSurrogate d" "isHighSurrogate c'" "isLowSurrogate d'"
    and "0x10000 + (c - 0xD800) * 1024 + (d - 0xDC00) = 0x10000 + (c' - 0xD800) * 1024 + (d' - 0xDC00)"
  shows "c = c' \<and> d = d'"
proof -
  define a where "a = c - 0xD800"
  define b where "b = d - 0xDC00"
  define a' where "a' = c' - 0xD800"
  define b' where "b' = d' - 0xDC00"
  have b: "b < 1024" "b' < 1024" using assms(2,4) by (auto simp: isLowSurrogate_def b_def b'_def)
  from assms(5) have e: "a * 1024 + b = a' * 1024 + b'" by (simp add: a_def b_def a'_def b'_def)
  then have "(a * 1024 + b) div 1024 = (a' * 1024 + b') div 1024" by simp
  with b have aa: "a = a'" by simp
  with e have bb: "b = b'" by simp
  from aa assms(1,3) have "c = c'" by (auto simp: a_def a'_def isHighSurrogate_def)
  moreover from bb assms(2,4) have "d = d'" by (auto simp: b_def b'_def isLowSurrogate_def)
  ultimately show ?thesis by simp
qed

lemma utf8Encode_Some_Nil:
  assumes "utf8Encode s = Some []"
  shows "s = []"
proof (cases s)
  case (Cons c cs)
  with assms have "utf8Encode (c # cs) = Some []" by simp
  then have False by (rule utf8Encode_Cons) (simp_all add: utf8Bytes_nonempty)
  then show ?thesis ..
qed simp

lemma utf8Encode_inj:
  "utf8Encode s = Some bs \<Longrightarrow> utf8Encode s' = Some bs \<Longrightarrow> s = s'"
proof (induction "length s" arbitrary: s s' bs rule: less_induct)
  case less
  show ?case
  proof (cases s)
    case Nil
    with less.prems have bs: "bs = []" by simp
    with less.prems(2) have "s' = []" by (simp add: utf8Encode_Some_Nil)
    with Nil show ?thesis by simp
  next
    case (Cons c cs)
    show ?thesis
    proof (cases s')
      case Nil
      with less.prems have bs: "bs = []" by simp
      with less.prems(1) have "s = []" by (simp add: utf8Encode_Some_Nil)
      with Nil show ?thesis by simp
    next
      case s': (Cons c' cs')
      from less.prems(1) Cons have e: "utf8Encode (c # cs) = Some bs" by simp
      from less.prems(2) s' have e': "utf8Encode (c' # cs') = Some bs" by simp
      from e show ?thesis
      proof (cases rule: utf8Encode_Cons)
        case (bmp br)
        from e' show ?thesis
        proof (cases rule: utf8Encode_Cons)
          case b': (bmp br')
          from bmp(1) have "c < 0x110000" by simp
          moreover from b'(1) have "c' < 0x110000" by simp
          moreover from bmp(5) b'(5) have "utf8Bytes c @ br = utf8Bytes c' @ br'" by simp
          ultimately have "c = c' \<and> br = br'" by (rule utf8Bytes_prefix_free)
          then have "c = c'" and "br = br'" by simp_all
          moreover from less.hyps [of cs br cs'] bmp(4) b'(4) \<open>br = br'\<close> Cons
          have "cs = cs'" by simp
          ultimately show ?thesis using Cons s' by simp
        next
          case p': (pair d' r' br')
          from bmp(1) have "c < 0x110000" by simp
          moreover note pair_bound(2) [OF p'(2,3)]
          moreover from bmp(5) p'(5)
          have "utf8Bytes c @ br = utf8Bytes (0x10000 + (c' - 0xD800) * 1024 + (d' - 0xDC00)) @ br'"
            by simp
          ultimately have "c = 0x10000 + (c' - 0xD800) * 1024 + (d' - 0xDC00) \<and> br = br'"
            by (rule utf8Bytes_prefix_free)
          then have "c = 0x10000 + (c' - 0xD800) * 1024 + (d' - 0xDC00)" by simp
          with bmp(1) pair_bound(1) [OF p'(2,3)] show ?thesis by simp
        qed
      next
        case (pair d r br)
        from e' show ?thesis
        proof (cases rule: utf8Encode_Cons)
          case b': (bmp br')
          note pair_bound(2) [OF pair(2,3)]
          moreover from b'(1) have "c' < 0x110000" by simp
          moreover from pair(5) b'(5)
          have "utf8Bytes (0x10000 + (c - 0xD800) * 1024 + (d - 0xDC00)) @ br = utf8Bytes c' @ br'"
            by simp
          ultimately have "0x10000 + (c - 0xD800) * 1024 + (d - 0xDC00) = c' \<and> br = br'"
            by (rule utf8Bytes_prefix_free)
          then have "0x10000 + (c - 0xD800) * 1024 + (d - 0xDC00) = c'" by simp
          with b'(1) pair_bound(1) [OF pair(2,3)] show ?thesis by simp
        next
          case p': (pair d' r' br')
          note pair_bound(2) [OF pair(2,3)]
          moreover note pair_bound(2) [OF p'(2,3)]
          moreover from pair(5) p'(5)
          have "utf8Bytes (0x10000 + (c - 0xD800) * 1024 + (d - 0xDC00)) @ br
                  = utf8Bytes (0x10000 + (c' - 0xD800) * 1024 + (d' - 0xDC00)) @ br'"
            by simp
          ultimately have "0x10000 + (c - 0xD800) * 1024 + (d - 0xDC00)
                  = 0x10000 + (c' - 0xD800) * 1024 + (d' - 0xDC00) \<and> br = br'"
            by (rule utf8Bytes_prefix_free)
          then have cp: "0x10000 + (c - 0xD800) * 1024 + (d - 0xDC00)
                  = 0x10000 + (c' - 0xD800) * 1024 + (d' - 0xDC00)" and "br = br'"
            by simp_all
          from pair_inj [OF pair(2,3) p'(2,3) cp] have "c = c'" "d = d'" by simp_all
          moreover from less.hyps [of r br r'] pair(1,4) p'(4) \<open>br = br'\<close> Cons
          have "r = r'" by simp
          ultimately show ?thesis using Cons s' pair(1) p'(1) by simp
        qed
      qed
    qed
  qed
qed

lemma rfc3986Encode_inj:
  assumes "rfc3986Encode s = Some t" and "rfc3986Encode s' = Some t"
  shows "s = s'"
proof -
  from assms(1) obtain bs where bs: "utf8Encode s = Some bs" "t = concat (map rfcByte bs)"
    by (auto simp: rfc3986Encode_bytes)
  from assms(2) obtain bs' where bs': "utf8Encode s' = Some bs'" "t = concat (map rfcByte bs')"
    by (auto simp: rfc3986Encode_bytes)
  from bs(2) bs'(2) have "bs = bs'" by (intro rfcBytes_inj) simp
  with bs(1) bs'(1) show ?thesis by (auto dest: utf8Encode_inj)
qed

lemma split_at_separator:
  assumes "sep \<notin> set x" and "sep \<notin> set y" and "x @ sep # X = y @ sep # Y"
  shows "x = y \<and> X = Y"
proof -
  have tw: "takeWhile (\<lambda>c. c \<noteq> sep) (z @ sep # Z) = z" if "sep \<notin> set z" for z Z :: "'a list"
    using that by (induction z) auto
  have "takeWhile (\<lambda>c. c \<noteq> sep) (x @ sep # X) = takeWhile (\<lambda>c. c \<noteq> sep) (y @ sep # Y)"
    by (simp only: assms(3))
  then have "x = y" by (simp only: tw [OF assms(1)] tw [OF assms(2)])
  with assms(3) show ?thesis by simp
qed

lemma joinWith_Cons: "xs \<noteq> [] \<Longrightarrow> joinWith [sep] (x # xs) = x @ sep # joinWith [sep] xs"
  by (cases xs) simp_all

lemma joinWith_inj:
  assumes "length xs = length ys"
    and "\<forall>x \<in> set xs. sep \<notin> set x" and "\<forall>y \<in> set ys. sep \<notin> set y"
    and "joinWith [sep] xs = joinWith [sep] ys"
  shows "xs = ys"
  using assms
proof (induction xs ys rule: list_induct2)
  case Nil
  show ?case by simp
next
  case (Cons x xs y ys)
  show ?case
  proof (cases "xs = []")
    case True
    with Cons.hyps have "ys = []" by simp
    with True Cons.prems show ?thesis by simp
  next
    case False
    with Cons.hyps have ys: "ys \<noteq> []" by auto
    from Cons.prems(3) False ys
    have "x @ sep # joinWith [sep] xs = y @ sep # joinWith [sep] ys"
      by (simp add: joinWith_Cons)
    moreover from Cons.prems(1,2) have "sep \<notin> set x" "sep \<notin> set y" by simp_all
    ultimately have "x = y \<and> joinWith [sep] xs = joinWith [sep] ys"
      by (rule split_at_separator [rotated 2])
    with Cons.IH Cons.prems(1,2) show ?thesis by simp
  qed
qed

lemma mapM_length: "mapM f ks = Some xs \<Longrightarrow> length xs = length ks"
  by (induction ks arbitrary: xs) (auto split: option.splits)

lemma mapM_set: "mapM f ks = Some xs \<Longrightarrow> x \<in> set xs \<Longrightarrow> \<exists>k \<in> set ks. f k = Some x"
  by (induction ks arbitrary: xs) (auto split: option.splits)

lemma mapM_defined: "mapM f ks = Some xs \<Longrightarrow> k \<in> set ks \<Longrightarrow> \<exists>x. f k = Some x"
  by (induction ks arbitrary: xs) (auto split: option.splits)

lemma mapM_same:
  "mapM f ks = Some xs \<Longrightarrow> mapM g ks = Some xs \<Longrightarrow> k \<in> set ks \<Longrightarrow> f k = g k"
  by (induction ks arbitrary: xs) (auto split: option.splits)

lemma encodePair_chars:
  assumes "encodePair ps k = Some x"
  shows "0x26 \<notin> set x"
proof -
  from assms obtain ek ev where "rfc3986Encode k = Some ek"
    and "rfc3986Encode (lookupParam ps k) = Some ev" and "x = ek @ [0x3D] @ ev"
    by (auto simp: encodePair_def split: option.splits)
  then show ?thesis by (auto dest: rfc3986Encode_chars)
qed

lemma encodePair_inj:
  assumes "encodePair ps k = Some x" and "encodePair ps' k = Some x"
  shows "lookupParam ps k = lookupParam ps' k"
proof -
  from assms(1) obtain ek ev where ek: "rfc3986Encode k = Some ek"
    and ev: "rfc3986Encode (lookupParam ps k) = Some ev" and x: "x = ek @ [0x3D] @ ev"
    by (auto simp: encodePair_def split: option.splits)
  from assms(2) ek obtain ev' where ev': "rfc3986Encode (lookupParam ps' k) = Some ev'"
    and x': "x = ek @ [0x3D] @ ev'"
    by (auto simp: encodePair_def split: option.splits)
  from x x' have "ev = ev'" by simp
  with ev' have "rfc3986Encode (lookupParam ps' k) = Some ev" by simp
  with ev show ?thesis by (rule rfc3986Encode_inj)
qed

lemma canonicalQuery_differs:
  assumes keys: "map fst ps = map fst ps'"
    and k: "k \<in> set (map fst ps)"
    and v: "lookupParam ps k \<noteq> lookupParam ps' k"
    and q: "canonicalQuery ps = Some q" and q': "canonicalQuery ps' = Some q'"
  shows "q \<noteq> q'"
proof
  assume same: "q = q'"
  let ?ks = "sort (map fst ps)"
  from q obtain xs where xs: "mapM (encodePair ps) ?ks = Some xs" "q = joinWith [0x26] xs"
    by (auto simp: canonicalQuery_def)
  from q' keys obtain xs' where xs': "mapM (encodePair ps') ?ks = Some xs'" "q' = joinWith [0x26] xs'"
    by (auto simp: canonicalQuery_def)
  have "length xs = length xs'" using xs(1) xs'(1) by (simp add: mapM_length)
  moreover have "\<forall>x \<in> set xs. 0x26 \<notin> set x"
    using mapM_set [OF xs(1)] encodePair_chars by blast
  moreover have "\<forall>x \<in> set xs'. 0x26 \<notin> set x"
    using mapM_set [OF xs'(1)] encodePair_chars by blast
  moreover from same xs(2) xs'(2) have "joinWith [0x26] xs = joinWith [0x26] xs'" by simp
  ultimately have "xs = xs'" by (rule joinWith_inj)
  with xs'(1) have m': "mapM (encodePair ps') ?ks = Some xs" by simp
  from k have kin: "k \<in> set ?ks" by simp
  from xs(1) m' kin have eq: "encodePair ps k = encodePair ps' k" by (rule mapM_same)
  from mapM_defined [OF xs(1) kin] obtain x where x: "encodePair ps k = Some x" by blast
  with eq have "encodePair ps' k = Some x" by simp
  with x have "lookupParam ps k = lookupParam ps' k" by (rule encodePair_inj)
  with v show False by simp
qed

lemma hexValue_hexDigest: "hexValue (hexDigest w) = unat w"
  by (simp add: hexDigest_def padStart_def hexValue_zeros hexValue_toStringHex)

lemma hexDigest_inj: "hexDigest w = hexDigest w' \<Longrightarrow> w = w'"
proof -
  assume "hexDigest w = hexDigest w'"
  then have "hexValue (hexDigest w) = hexValue (hexDigest w')" by simp
  then have "unat w = unat w'" by (simp only: hexValue_hexDigest)
  then show ?thesis by (simp only: word_unat_eq_iff [of w w'])
qed

lemma amzDates_milliseconds: "amzDates (d \<lparr> utcMilliseconds := m \<rparr>) = amzDates d"
  by (simp add: amzDates_def)

lemma signCanonical_same_second:
  "signCanonical C (d \<lparr> utcMilliseconds := m \<rparr>) verb host path q tok ak sk region service opts
     = signCanonical C d verb host path q tok ak sk region service opts"
  by (simp add: signCanonical_def amzDates_milliseconds)

lemma buildAuthorization_same_second:
  "buildAuthorization C (d \<lparr> utcMilliseconds := m \<rparr>) verb host path ps tok ak sk region service opts
     = buildAuthorization C d verb host path ps tok ak sk region service opts"
  by (cases "canonicalQuery ps") (simp_all add: buildAuthorization_def signCanonical_same_second)

lemma hexDigest_eq_iff: "hexDigest w = hexDigest w' \<longleftrightarrow> w = w'"
  using hexDigest_inj by blast

lemma canonicalRequest_inj:
  assumes "auth_canonicalRequest (signCanonical C d verb host path q tok ak sk region service opts)
         = auth_canonicalRequest (signCanonical C d verb host path q' tok ak sk region service opts)"
  shows "q = q'"
  using assms
  by (cases "amzDates d") (simp add: signCanonical_def Let_def)

lemma signature_signCanonical:
  "auth_signature (signCanonical C d verb host path q tok ak sk region service opts)
     = hexDigest (hmacSha256 C
         (KeyBuf (auth_signingKey (signCanonical C d verb host path q tok ak sk region service opts)))
         (auth_stringToSign (signCanonical C d verb host path q tok ak sk region service opts)))"
  by (cases "amzDates d") (simp add: signCanonical_def Let_def)

lemma signingKey_signCanonical:
  "auth_signingKey (signCanonical C d verb host path q tok ak sk region service opts)
     = auth_signingKey (signCanonical C d verb host path q' tok ak sk region service opts)"
  by (cases "amzDates d") (simp add: signCanonical_def Let_def)

lemma stringToSign_inj:
  assumes "auth_stringToSign (signCanonical C d verb host path q tok ak sk region service opts)
         = auth_stringToSign (signCanonical C d verb host path q' tok ak sk region service opts)"
  shows "sha256 C (auth_canonicalRequest (signCanonical C d verb host path q tok ak sk region service opts))
       = sha256 C (auth_canonicalRequest (signCanonical C d verb host path q' tok ak sk region service opts))"
  using assms
  by (cases "amzDates d") (simp add: signCanonical_def Let_def sha256Hex_def hexDigest_eq_iff)

text \<open>
  Claim C8. The result of the signer does not depend on the milliseconds of the clock
  reading: two runs on identical inputs within one second give the same result, whether
  they return or throw. For two runs that return, on query parameters with the same keys
  that differ in the value of at least one, the canonical requests differ; the signatures
  differ as well, given that SHA-256 separates the two canonical requests and HMAC-SHA256
  the two strings to sign. The two digests are the library's and parameters here: the
  signer itself loses nothing of the query on the way to them.
\<close>

theorem signer_properties:
  "buildAuthorization C (d \<lparr> utcMilliseconds := m \<rparr>) verb host path ps tok ak sk region service opts
     = buildAuthorization C d verb host path ps tok ak sk region service opts
   \<and> (buildAuthorization C d verb host path ps tok ak sk region service opts = Some a
        \<and> buildAuthorization C d verb host path ps' tok ak sk region service opts = Some a'
        \<and> map fst ps = map fst ps'
        \<and> (\<exists>k \<in> set (map fst ps). lookupParam ps k \<noteq> lookupParam ps' k)
      \<longrightarrow> auth_canonicalRequest a \<noteq> auth_canonicalRequest a'
          \<and> (sha256 C (auth_canonicalRequest a) \<noteq> sha256 C (auth_canonicalRequest a')
               \<and> (auth_stringToSign a \<noteq> auth_stringToSign a'
                    \<longrightarrow> hmacSha256 C (KeyBuf (auth_signingKey a)) (auth_stringToSign a)
                        \<noteq> hmacSha256 C (KeyBuf (auth_signingKey a)) (auth_stringToSign a'))
              \<longrightarrow> auth_signature a \<noteq> auth_signature a'))"
proof -
  have one: "buildAuthorization C (d \<lparr> utcMilliseconds := m \<rparr>) verb host path ps tok ak sk region service opts
     = buildAuthorization C d verb host path ps tok ak sk region service opts"
    by (rule buildAuthorization_same_second)
  have two: "auth_canonicalRequest a \<noteq> auth_canonicalRequest a'
          \<and> (sha256 C (auth_canonicalRequest a) \<noteq> sha256 C (auth_canonicalRequest a')
               \<and> (auth_stringToSign a \<noteq> auth_stringToSign a'
                    \<longrightarrow> hmacSha256 C (KeyBuf (auth_signingKey a)) (auth_stringToSign a)
                        \<noteq> hmacSha256 C (KeyBuf (auth_signingKey a)) (auth_stringToSign a'))
              \<longrightarrow> auth_signature a \<noteq> auth_signature a')"
    if a: "buildAuthorization C d verb host path ps tok ak sk region service opts = Some a"
      and a': "buildAuthorization C d verb host path ps' tok ak sk region service opts = Some a'"
      and keys: "map fst ps = map fst ps'"
      and diff: "\<exists>k \<in> set (map fst ps). lookupParam ps k \<noteq> lookupParam ps' k"
  proof -
    from a obtain q where q: "canonicalQuery ps = Some q"
      and aq: "a = signCanonical C d verb host path q tok ak sk region service opts"
      by (auto simp: buildAuthorization_def split: option.splits)
    from a' obtain q' where q': "canonicalQuery ps' = Some q'"
      and aq': "a' = signCanonical C d verb host path q' tok ak sk region service opts"
      by (auto simp: buildAuthorization_def split: option.splits)
    from diff obtain k where k: "k \<in> set (map fst ps)" "lookupParam ps k \<noteq> lookupParam ps' k"
      by blast
    from keys k q q' have ne: "q \<noteq> q'" by (rule canonicalQuery_differs)
    have cr: "auth_canonicalRequest a \<noteq> auth_canonicalRequest a'"
    proof
      assume "auth_canonicalRequest a = auth_canonicalRequest a'"
      then have "q = q'" unfolding aq aq' by (rule canonicalRequest_inj)
      with ne show False by simp
    qed
    have sig: "auth_signature a \<noteq> auth_signature a'"
      if sha: "sha256 C (auth_canonicalRequest a) \<noteq> sha256 C (auth_canonicalRequest a')"
        and mac: "auth_stringToSign a \<noteq> auth_stringToSign a'
                    \<longrightarrow> hmacSha256 C (KeyBuf (auth_signingKey a)) (auth_stringToSign a)
                        \<noteq> hmacSha256 C (KeyBuf (auth_signingKey a)) (auth_stringToSign a')"
    proof
      assume s: "auth_signature a = auth_signature a'"
      have sts: "auth_stringToSign a \<noteq> auth_stringToSign a'"
      proof
        assume "auth_stringToSign a = auth_stringToSign a'"
        then have "sha256 C (auth_canonicalRequest a) = sha256 C (auth_canonicalRequest a')"
          unfolding aq aq' by (rule stringToSign_inj)
        with sha show False by simp
      qed
      have key: "auth_signingKey a' = auth_signingKey a"
        unfolding aq aq' by (rule signingKey_signCanonical)
      from s have "hexDigest (hmacSha256 C (KeyBuf (auth_signingKey a)) (auth_stringToSign a))
          = hexDigest (hmacSha256 C (KeyBuf (auth_signingKey a')) (auth_stringToSign a'))"
        unfolding aq aq' by (simp only: signature_signCanonical [symmetric])
      then have "hmacSha256 C (KeyBuf (auth_signingKey a)) (auth_stringToSign a)
          = hmacSha256 C (KeyBuf (auth_signingKey a)) (auth_stringToSign a')"
        by (simp only: hexDigest_eq_iff key)
      with sts mac show False by simp
    qed
    from cr sig show ?thesis by blast
  qed
  from one two show ?thesis by blast
qed

lemmas signer_eval =
  canonicalQuery_def encodePair_def lookupParam_def
  rfc3986Encode_def encodeURIComponent_def escapeLeftover_def encodeByte_def percentByte_def
  isUriUnescaped_def isAlnum_def isHighSurrogate_def isLowSurrogate_def utf8Bytes_def

lemma showNat_digit: "n < 10 \<Longrightarrow> showNat n = [0x30 + n]"
  by (simp add: showNat.simps)

lemma showNat_step: "10 \<le> n \<Longrightarrow> showNat n = showNat (n div 10) @ [0x30 + n mod 10]"
  by (subst showNat.simps) simp

lemma canonicalQuery_one: "canonicalQuery [(S ''FileSize'', S ''1'')] = Some (S ''FileSize=1'')"
  by (simp add: signer_eval)

lemma canonicalQuery_two: "canonicalQuery [(S ''FileSize'', S ''22'')] = Some (S ''FileSize=22'')"
  by (simp add: signer_eval)

lemma amzDates_someDate: "amzDates someDate = (S ''20250115T083005Z'', S ''20250115'')"
  by (simp add: amzDates_def pad_def someDate_def showNat_digit showNat_step)



lemma length_hexDigest: "length (hexDigest w) = 64"
proof -
  have "unat w < 2 ^ LENGTH(256)" by (rule unsigned_less)
  then have "unat w < 16 ^ 64" by simp
  then have "length (toStringHex (unat w)) \<le> 64" by (intro length_toStringHex) simp_all
  then show ?thesis by (simp add: hexDigest_def padStart_def)
qed

lemma sha_differ:
  "sha256 toyCrypto (auth_canonicalRequest (signFileSize (S ''FileSize=1'')))
     \<noteq> sha256 toyCrypto (auth_canonicalRequest (signFileSize (S ''FileSize=22'')))"
  by (simp add: signCanonical_def amzDates_someDate lookupParam_def plainOpts_def sha256Hex_def toyCrypto_def signFileSize_def LF_def
       IMAGEX_REGION_def IMAGEX_SERVICE_def length_hexDigest Let_def)

lemma hexDigest_203: "hexDigest 203 = replicate 62 0x30 @ S ''cb''"
  by (simp add: hexDigest_def padStart_def toStringHex.simps hexDigit_def)

lemma hexDigest_204: "hexDigest 204 = replicate 62 0x30 @ S ''cc''"
  by (simp add: hexDigest_def padStart_def toStringHex.simps hexDigit_def)

lemma mac_differ:
  "hmacSha256 toyCrypto k (auth_stringToSign (signFileSize (S ''FileSize=1'')))
     \<noteq> hmacSha256 toyCrypto k (auth_stringToSign (signFileSize (S ''FileSize=22'')))"
  by (simp add: signCanonical_def amzDates_someDate lookupParam_def plainOpts_def sha256Hex_def toyCrypto_def signFileSize_def LF_def
       IMAGEX_REGION_def IMAGEX_SERVICE_def length_hexDigest hexDigest_203 hexDigest_204 Let_def)

theorem signer_properties_witness:
  "buildAuthorization toyCrypto (someDate \<lparr> utcMilliseconds := 900 \<rparr>) (S ''GET'')
       (S ''imagex.bytedanceapi.com'') (S ''/'') [(S ''FileSize'', S ''1'')] (S ''token'') (S ''AK'')
       (S ''SK'') IMAGEX_REGION IMAGEX_SERVICE plainOpts
     = Some (signFileSize (S ''FileSize=1''))
   \<and> buildAuthorization toyCrypto someDate (S ''GET'')
       (S ''imagex.bytedanceapi.com'') (S ''/'') [(S ''FileSize'', S ''1'')] (S ''token'') (S ''AK'')
       (S ''SK'') IMAGEX_REGION IMAGEX_SERVICE plainOpts
     = Some (signFileSize (S ''FileSize=1''))
   \<and> buildAuthorization toyCrypto someDate (S ''GET'')
       (S ''imagex.bytedanceapi.com'') (S ''/'') [(S ''FileSize'', S ''22'')] (S ''token'') (S ''AK'')
       (S ''SK'') IMAGEX_REGION IMAGEX_SERVICE plainOpts
     = Some (signFileSize (S ''FileSize=22''))
   \<and> auth_canonicalRequest (signFileSize (S ''FileSize=1'')) \<noteq> auth_canonicalRequest (signFileSize (S ''FileSize=22''))
   \<and> auth_signature (signFileSize (S ''FileSize=1'')) \<noteq> auth_signature (signFileSize (S ''FileSize=22''))"
proof -
  have a: "buildAuthorization toyCrypto someDate (S ''GET'')
       (S ''imagex.bytedanceapi.com'') (S ''/'') [(S ''FileSize'', S ''1'')] (S ''token'') (S ''AK'')
       (S ''SK'') IMAGEX_REGION IMAGEX_SERVICE plainOpts = Some (signFileSize (S ''FileSize=1''))"
    by (simp only: buildAuthorization_def canonicalQuery_one option.case signFileSize_def)
  have a': "buildAuthorization toyCrypto someDate (S ''GET'')
       (S ''imagex.bytedanceapi.com'') (S ''/'') [(S ''FileSize'', S ''22'')] (S ''token'') (S ''AK'')
       (S ''SK'') IMAGEX_REGION IMAGEX_SERVICE plainOpts = Some (signFileSize (S ''FileSize=22''))"
    by (simp only: buildAuthorization_def canonicalQuery_two option.case signFileSize_def)
  have v: "\<exists>k \<in> set (map fst [(S ''FileSize'', S ''1'')]).
             lookupParam [(S ''FileSize'', S ''1'')] k \<noteq> lookupParam [(S ''FileSize'', S ''22'')] k"
    by (simp add: lookupParam_def)
  from signer_properties
    [where C = toyCrypto and d = someDate and m = 900 and verb = "S ''GET''"
       and host = "S ''imagex.bytedanceapi.com''" and path = "S ''/''"
       and ps = "[(S ''FileSize'', S ''1'')]" and tok = "S ''token''" and ak = "S ''AK''"
       and sk = "S ''SK''" and region = IMAGEX_REGION and service = IMAGEX_SERVICE
       and opts = plainOpts and a = "signFileSize (S ''FileSize=1'')"
       and ps' = "[(S ''FileSize'', S ''22'')]" and a' = "signFileSize (S ''FileSize=22'')"]
    a a' v sha_differ mac_differ
  show ?thesis by simp
qed


end
